(* ===== verification/Prelude.thy ===== *)
theory Prelude
  imports Complex_Main
begin

text \<open>
  Shared vocabulary of the Standout Store development: the names of the model's
  identifier types, Python's \<open>round(x, 2)\<close>, SQLite's row-id allocation, Python's
  slice \<open>xs[:n]\<close>, the "update the rows that match" operation every handler uses
  on a table, and the generic list lemmas the component theories share.
  The collection \<open>model_simps\<close> gathers the equations that evaluate the model
  on concrete tables.
\<close>

named_theorems model_simps "equations that evaluate the store model"

type_synonym row_id = int
type_synonym uid = int
type_synonym pid = int

subsection \<open>Python's \<open>round(x, 2)\<close>\<close>

text \<open>
  Python rounds a float to two decimals to the nearest value, ties to even.
  Floats are modelled as exact reals (see the root theory), so the rounding is
  taken on the exact value.
\<close>

definition py_round2 :: "real \<Rightarrow> real" where
  "py_round2 x =
     (let y = x * 100; f = \<lfloor>y\<rfloor>; d = y - of_int f
      in of_int (if d < 1/2 then f else if 1/2 < d then f + 1
                 else if even f then f else f + 1) / 100)"

subsection \<open>SQLite row ids\<close>

text \<open>
  A row inserted without an explicit primary key gets the largest row id of its
  table plus one, or 1 in an empty table.
\<close>

definition next_rowid :: "row_id list \<Rightarrow> row_id" where
  "next_rowid ids = foldr max ids 0 + 1"

subsection \<open>Python slices\<close>

text \<open>\<open>xs[:n]\<close>: a negative bound counts from the end of the list.\<close>

definition py_take :: "int \<Rightarrow> 'a list \<Rightarrow> 'a list" where
  "py_take n xs = (if 0 \<le> n then take (nat n) xs else take (nat (int (length xs) + n)) xs)"

subsection \<open>Updating the rows that match\<close>

definition update_where :: "('a \<Rightarrow> bool) \<Rightarrow> ('a \<Rightarrow> 'a) \<Rightarrow> 'a list \<Rightarrow> 'a list" where
  "update_where P f xs = map (\<lambda>x. if P x then f x else x) xs"

subsection \<open>Lemmas\<close>

lemma foldr_max_ge: "x \<in> set xs \<Longrightarrow> x \<le> foldr max xs (0::int)"
  by (induction xs) auto

lemma next_rowid_fresh [simp]: "next_rowid ids \<notin> set ids"
  using foldr_max_ge [of "next_rowid ids" ids] by (auto simp: next_rowid_def)

lemma next_rowid_fresh_image: "next_rowid (map f xs) \<notin> f ` set xs"
  using next_rowid_fresh [of "map f xs"] by simp

lemma next_rowid_pos: "0 < next_rowid ids"
proof -
  have "(0::int) \<le> foldr max ids 0" by (induction ids) auto
  then show ?thesis by (simp add: next_rowid_def)
qed

lemma length_update_where [simp]: "length (update_where P f xs) = length xs"
  by (simp add: update_where_def)

lemma update_where_append [simp]:
  "update_where P f (xs @ ys) = update_where P f xs @ update_where P f ys"
  by (simp add: update_where_def)

lemma update_where_Cons [model_simps]:
  "update_where P f (x # xs) = (if P x then f x else x) # update_where P f xs"
  by (simp add: update_where_def)

lemma update_where_Nil [model_simps]: "update_where P f [] = []"
  by (simp add: update_where_def)

lemma map_update_where_frame:
  "(\<And>x. P x \<Longrightarrow> g (f x) = g x) \<Longrightarrow> map g (update_where P f xs) = map g xs"
  by (induction xs) (auto simp: update_where_def)

lemma update_where_no_match:
  "\<forall>x\<in>set xs. \<not> P x \<Longrightarrow> update_where P f xs = xs"
  by (induction xs) (auto simp: update_where_def)

lemma set_update_where:
  "set (update_where P f xs) = {x \<in> set xs. \<not> P x} \<union> f ` {x \<in> set xs. P x}"
  by (auto simp: update_where_def)

lemma find_update_where_other:
  assumes "\<And>x. Q (f x) = Q x" and "\<And>x. Q x \<Longrightarrow> \<not> P x"
  shows "find Q (update_where P f xs) = find Q xs"
  using assms by (induction xs) (auto simp: update_where_def)

lemma find_update_where_key:
  assumes "\<And>x. k (f x) = k x"
  shows "find (\<lambda>x. k x = j) (update_where (\<lambda>x. k x = i) f xs) =
           (if i = j then map_option f (find (\<lambda>x. k x = j) xs) else find (\<lambda>x. k x = j) xs)"
  using assms by (induction xs) (auto simp: update_where_def)

lemma find_append_None: "find P xs = None \<Longrightarrow> find P (xs @ ys) = find P ys"
  by (induction xs) auto

lemma find_append_eq:
  "find P (xs @ ys) = (case find P xs of None \<Rightarrow> find P ys | Some x \<Rightarrow> Some x)"
  by (induction xs) auto

lemma find_Some_in: "find P xs = Some x \<Longrightarrow> x \<in> set xs \<and> P x"
  by (auto simp: find_Some_iff)

lemma find_None_notin: "find P xs = None \<Longrightarrow> x \<in> set xs \<Longrightarrow> \<not> P x"
  by (auto simp: find_None_iff)

text \<open>The first element of a list that fails a check, as a loop that raises on it sees it.\<close>

lemma split_first_Cons:
  "(\<exists>pre y post. x # xs = pre @ y # post \<and> (\<forall>z\<in>set pre. P z) \<and> Q y) \<longleftrightarrow>
     Q x \<or> (P x \<and> (\<exists>pre y post. xs = pre @ y # post \<and> (\<forall>z\<in>set pre. P z) \<and> Q y))"
proof
  assume "\<exists>pre y post. x # xs = pre @ y # post \<and> (\<forall>z\<in>set pre. P z) \<and> Q y"
  then obtain pre y post where h: "x # xs = pre @ y # post" "\<forall>z\<in>set pre. P z" "Q y"
    by blast
  show "Q x \<or> (P x \<and> (\<exists>pre y post. xs = pre @ y # post \<and> (\<forall>z\<in>set pre. P z) \<and> Q y))"
  proof (cases pre)
    case Nil
    with h show ?thesis by simp
  next
    case (Cons a pre')
    with h have "P x" "xs = pre' @ y # post" "\<forall>z\<in>set pre'. P z" by auto
    with h(3) show ?thesis by blast
  qed
next
  assume "Q x \<or> (P x \<and> (\<exists>pre y post. xs = pre @ y # post \<and> (\<forall>z\<in>set pre. P z) \<and> Q y))"
  then show "\<exists>pre y post. x # xs = pre @ y # post \<and> (\<forall>z\<in>set pre. P z) \<and> Q y"
  proof
    assume "Q x"
    then have "x # xs = [] @ x # xs \<and> (\<forall>z\<in>set []. P z) \<and> Q x" by simp
    then show ?thesis by blast
  next
    assume "P x \<and> (\<exists>pre y post. xs = pre @ y # post \<and> (\<forall>z\<in>set pre. P z) \<and> Q y)"
    then obtain pre y post where "P x" "xs = pre @ y # post" "\<forall>z\<in>set pre. P z" "Q y"
      by blast
    then have "x # xs = (x # pre) @ y # post \<and> (\<forall>z\<in>set (x # pre). P z) \<and> Q y" by simp
    then show ?thesis by blast
  qed
qed

lemma split_first_Nil [simp]:
  "\<not> (\<exists>pre y post. [] = pre @ y # post \<and> R pre y)"
  by simp

lemma length_py_take: "0 \<le> n \<Longrightarrow> length (py_take n xs) = min (nat n) (length xs)"
  by (simp add: py_take_def)

lemma set_py_take: "set (py_take n xs) \<subseteq> set xs"
  by (auto simp: py_take_def dest: in_set_takeD)


text \<open>An element of a prefix of a sorted list comes before an element of the rest.\<close>

lemma sorted_wrt_take_drop:
  "sorted_wrt P xs \<Longrightarrow> x \<in> set (take k xs) \<Longrightarrow> y \<in> set (drop k xs) \<Longrightarrow> P x y"
  by (metis append_take_drop_id sorted_wrt_append)

end
