(* ===== verification/Models.thy ===== *)
theory Models
  imports Prelude
begin

text \<open>
  The tables of \<open>src/models.py\<close> and the database the handlers of
  \<open>src/main.py\<close> share. Each SQLModel class is a record; the field names carry a
  prefix where two classes share a column name (\<open>qty\<close>, \<open>user_id\<close>, \<open>id\<close>).
  A table is a list of rows in row-id order, the order \<open>select(...).all()\<close> and
  \<open>.first()\<close> see on SQLite. The \<open>created_at\<close> timestamps are not modelled: no
  code path reads them. \<open>session.get\<close> and \<open>select(...).first()\<close> are \<open>find\<close>;
  \<open>session.add\<close> of a new row appends it with the next row id.
\<close>

record user =
  user_id :: uid
  email :: string
  hashed_password :: string
  is_admin :: bool

record category =
  cat_id :: row_id
  cat_name :: string
  slug :: string

record product =
  p_id :: pid
  title :: string
  description :: string
  price :: real
  image_url :: "string option"
  stock :: int
  category_id :: "row_id option"
  variant_a_title :: "string option"
  variant_b_title :: "string option"
  variant_a_desc :: "string option"
  variant_b_desc :: "string option"

record cart =
  cart_id :: row_id
  cart_user_id :: uid

record cart_item =
  ci_id :: row_id
  ci_cart_id :: row_id
  ci_product_id :: pid
  ci_qty :: int

record order =
  order_id :: row_id
  order_user_id :: uid
  order_total :: real

record order_item =
  oi_id :: row_id
  oi_order_id :: row_id
  oi_product_id :: pid
  oi_qty :: int
  price_each :: real

record event =
  ev_id :: row_id
  ev_user_id :: "uid option"
  ev_type :: string
  ev_product_id :: "pid option"
  meta :: "string option"

record feature_flag =
  flag_id :: row_id
  flag_name :: string
  enabled :: bool

text \<open>The database: one list per table.\<close>

record db =
  users :: "user list"
  categories :: "category list"
  products :: "product list"
  carts :: "cart list"
  cart_items :: "cart_item list"
  orders :: "order list"
  order_items :: "order_item list"
  events :: "event list"
  flags :: "feature_flag list"

text \<open>
  What a handler raises: FastAPI's \<open>HTTPException(status, detail)\<close>, the
  \<open>AttributeError\<close> Python raises when the code reads a field of the \<open>None\<close>
  that \<open>session.get\<close> returns for a missing row (a 500 response),
  the \<open>ValueError\<close> and \<open>TypeError\<close> a builtin or library raises on an
  input it refuses, \<open>UnicodeDecodeError\<close> from \<open>bytes.decode\<close>, and the
  \<open>IntegrityError\<close> SQLite raises at commit on a \<open>NULL\<close> in a
  \<open>NOT NULL\<close> column.
\<close>

datatype error = HTTPException int string | AttributeError | ValueError string | TypeError string
  | UnicodeDecodeError | IntegrityError string

subsection \<open>Reading and writing rows\<close>

definition get_product :: "db \<Rightarrow> pid \<Rightarrow> product option" where
  "get_product d i = find (\<lambda>p. p_id p = i) (products d)"

definition set_stock :: "db \<Rightarrow> pid \<Rightarrow> int \<Rightarrow> db" where
  "set_stock d i n = d\<lparr>products := update_where (\<lambda>p. p_id p = i) (\<lambda>p. p\<lparr>stock := n\<rparr>) (products d)\<rparr>"

definition add_event :: "db \<Rightarrow> uid option \<Rightarrow> string \<Rightarrow> pid option \<Rightarrow> db" where
  "add_event d u ty pr =
     d\<lparr>events := events d @ [\<lparr>ev_id = next_rowid (map ev_id (events d)), ev_user_id = u,
                              ev_type = ty, ev_product_id = pr, meta = None\<rparr>]\<rparr>"

definition add_order_item :: "db \<Rightarrow> row_id \<Rightarrow> pid \<Rightarrow> int \<Rightarrow> real \<Rightarrow> db" where
  "add_order_item d oid pr q pe =
     d\<lparr>order_items := order_items d @ [\<lparr>oi_id = next_rowid (map oi_id (order_items d)),
        oi_order_id = oid, oi_product_id = pr, oi_qty = q, price_each = pe\<rparr>]\<rparr>"

text \<open>The stock of a product, as \<open>session.get(Product, i).stock\<close> reads it.\<close>

definition stock_of :: "db \<Rightarrow> pid \<Rightarrow> int option" where
  "stock_of d i = map_option stock (get_product d i)"

text \<open>The ids of the products are a primary key.\<close>

definition products_wf :: "db \<Rightarrow> bool" where
  "products_wf d \<longleftrightarrow> distinct (map p_id (products d))"

definition stock_nonneg :: "db \<Rightarrow> bool" where
  "stock_nonneg d \<longleftrightarrow> (\<forall>p\<in>set (products d). 0 \<le> stock p)"

subsection \<open>Lemmas on rows\<close>

lemma get_product_Some: "get_product d i = Some p \<Longrightarrow> p \<in> set (products d) \<and> p_id p = i"
  by (auto simp: get_product_def find_Some_iff)

lemma get_product_None: "get_product d i = None \<longleftrightarrow> i \<notin> p_id ` set (products d)"
  by (auto simp: get_product_def find_None_iff)

lemma products_add_event [simp]: "products (add_event d u t p) = products d"
  and orders_add_event [simp]: "orders (add_event d u t p) = orders d"
  and cart_items_add_event [simp]: "cart_items (add_event d u t p) = cart_items d"
  and carts_add_event [simp]: "carts (add_event d u t p) = carts d"
  and order_items_add_event [simp]: "order_items (add_event d u t p) = order_items d"
  and flags_add_event [simp]: "flags (add_event d u t p) = flags d"
  and events_add_event: "events (add_event d u t p) = events d @
     [\<lparr>ev_id = next_rowid (map ev_id (events d)), ev_user_id = u, ev_type = t,
       ev_product_id = p, meta = None\<rparr>]"
  by (simp_all add: add_event_def)

lemma users_row_ops [simp]:
  "users (add_event d u t p) = users d" "users (add_order_item d oid pr q pe) = users d"
  "users (set_stock d i n) = users d"
  by (simp_all add: add_event_def add_order_item_def set_stock_def)

lemma products_add_order_item [simp]: "products (add_order_item d oid pr q pe) = products d"
  and orders_add_order_item [simp]: "orders (add_order_item d oid pr q pe) = orders d"
  and cart_items_add_order_item [simp]: "cart_items (add_order_item d oid pr q pe) = cart_items d"
  and carts_add_order_item [simp]: "carts (add_order_item d oid pr q pe) = carts d"
  and events_add_order_item [simp]: "events (add_order_item d oid pr q pe) = events d"
  and flags_add_order_item [simp]: "flags (add_order_item d oid pr q pe) = flags d"
  by (simp_all add: add_order_item_def)

lemma set_stock_frame [simp]:
  "orders (set_stock d i n) = orders d" "cart_items (set_stock d i n) = cart_items d"
  "carts (set_stock d i n) = carts d" "events (set_stock d i n) = events d"
  "order_items (set_stock d i n) = order_items d" "flags (set_stock d i n) = flags d"
  by (simp_all add: set_stock_def)

lemma map_p_id_set_stock [simp]: "map p_id (products (set_stock d i n)) = map p_id (products d)"
  by (simp add: set_stock_def map_update_where_frame)

lemma get_product_set_stock:
  "get_product (set_stock d i n) j =
     (if i = j then map_option (\<lambda>p. p\<lparr>stock := n\<rparr>) (get_product d j) else get_product d j)"
  unfolding get_product_def set_stock_def by (simp add: find_update_where_key)

lemma stock_of_set_stock [simp]:
  "stock_of (set_stock d i n) j =
     (if i = j \<and> get_product d j \<noteq> None then Some n else stock_of d j)"
  by (auto simp: stock_of_def get_product_set_stock)

lemma get_product_add_event [simp]: "get_product (add_event d u t p) i = get_product d i"
  and get_product_add_order_item [simp]: "get_product (add_order_item d oid pr q pe) i = get_product d i"
  and stock_of_add_event [simp]: "stock_of (add_event d u t p) i = stock_of d i"
  and stock_of_add_order_item [simp]: "stock_of (add_order_item d oid pr q pe) i = stock_of d i"
  by (simp_all add: get_product_def stock_of_def)

lemma get_product_set_stock_None [simp]:
  "get_product (set_stock d i n) j = None \<longleftrightarrow> get_product d j = None"
  by (simp add: get_product_set_stock)

lemma price_set_stock [simp]:
  "map_option price (get_product (set_stock d i n) j) = map_option price (get_product d j)"
  by (simp add: get_product_set_stock option.map_comp comp_def)

lemma stock_nonneg_set_stock: "stock_nonneg d \<Longrightarrow> 0 \<le> n \<Longrightarrow> stock_nonneg (set_stock d i n)"
  by (auto simp: stock_nonneg_def set_stock_def set_update_where)

lemma stock_of_None: "stock_of d i = None \<longleftrightarrow> get_product d i = None"
  by (simp add: stock_of_def)

end
