(* ===== verification/Cart.thy ===== *)
theory Cart
  imports Models
begin

text \<open>
  The cart handlers of \<open>src/main.py\<close>: \<open>get_or_create_cart\<close> (lines 79--86),
  \<open>add_to_cart\<close> (88--102) and \<open>get_cart\<close> (104--115). Each handler takes the
  database and returns its result (an \<open>error\<close> or the response) with the
  database as committed when the request ends. A raise rolls back what the
  session had not committed, so an error returns the database of the last
  \<open>session.commit()\<close>; \<open>get_or_create_cart\<close> commits the new cart at once.
\<close>

definition user_cart :: "db \<Rightarrow> uid \<Rightarrow> cart option" where
  "user_cart d u = find (\<lambda>c. cart_user_id c = u) (carts d)"

definition get_or_create_cart :: "db \<Rightarrow> uid \<Rightarrow> cart \<times> db" where
  "get_or_create_cart d u =
     (case user_cart d u of
        Some c \<Rightarrow> (c, d)
      | None \<Rightarrow>
          (let c = \<lparr>cart_id = next_rowid (map cart_id (carts d)), cart_user_id = u\<rparr>
           in (c, d\<lparr>carts := carts d @ [c]\<rparr>)))"

text \<open>\<open>select(CartItem).where(CartItem.cart_id == c)\<close>.\<close>

definition items_of :: "db \<Rightarrow> row_id \<Rightarrow> cart_item list" where
  "items_of d c = filter (\<lambda>it. ci_cart_id it = c) (cart_items d)"

text \<open>Lines 94--99: merge into the cart's line for the product, or add a new line.\<close>

definition merge_item :: "cart_item list \<Rightarrow> row_id \<Rightarrow> pid \<Rightarrow> int \<Rightarrow> cart_item list" where
  "merge_item its c i q =
     (case find (\<lambda>it. ci_cart_id it = c \<and> ci_product_id it = i) its of
        Some it \<Rightarrow> update_where (\<lambda>x. ci_id x = ci_id it) (\<lambda>x. x\<lparr>ci_qty := ci_qty x + q\<rparr>) its
      | None \<Rightarrow> its @ [\<lparr>ci_id = next_rowid (map ci_id its), ci_cart_id = c, ci_product_id = i,
                        ci_qty = q\<rparr>])"

definition add_to_cart :: "db \<Rightarrow> uid \<Rightarrow> pid \<Rightarrow> int \<Rightarrow> (error + unit) \<times> db" where
  "add_to_cart d u i q =
     (case get_product d i of
        None \<Rightarrow> (Inl (HTTPException 400 ''Insufficient stock''), d)
      | Some p \<Rightarrow>
          if stock p < q then (Inl (HTTPException 400 ''Insufficient stock''), d)
          else
            (let (c, d1) = get_or_create_cart d u;
                 d2 = d1\<lparr>cart_items := merge_item (cart_items d1) (cart_id c) i q\<rparr>
             in (Inr (), add_event d2 (Some u) ''add_to_cart'' (Some i))))"

text \<open>One line of the \<open>get_cart\<close> response.\<close>

record cart_line =
  line_id :: row_id
  line_product_id :: pid
  line_title :: string
  line_qty :: int
  line_price :: real
  line_subtotal :: real

text \<open>The loop of \<open>get_cart\<close>: \<open>p.id\<close> on a missing product raises.\<close>

fun get_cart_loop :: "db \<Rightarrow> cart_item list \<Rightarrow> cart_line list \<Rightarrow> real \<Rightarrow>
                      error + (cart_line list \<times> real)" where
  "get_cart_loop d [] out acc = Inr (out, acc)"
| "get_cart_loop d (it # its) out acc =
     (case get_product d (ci_product_id it) of
        None \<Rightarrow> Inl AttributeError
      | Some p \<Rightarrow>
          get_cart_loop d its
            (out @ [\<lparr>line_id = ci_id it, line_product_id = p_id p, line_title = title p,
                     line_qty = ci_qty it, line_price = price p,
                     line_subtotal = py_round2 (price p * of_int (ci_qty it))\<rparr>])
            (acc + price p * of_int (ci_qty it)))"

definition get_cart :: "db \<Rightarrow> uid \<Rightarrow> (error + (cart_line list \<times> real)) \<times> db" where
  "get_cart d u =
     (let (c, d1) = get_or_create_cart d u
      in (case get_cart_loop d1 (items_of d1 (cart_id c)) [] 0 of
            Inl e \<Rightarrow> Inl e
          | Inr (out, acc) \<Rightarrow> Inr (out, py_round2 acc), d1))"

subsection \<open>The cart invariant\<close>

text \<open>
  Cart-item ids are a primary key, every item belongs to an existing cart, and a
  cart holds at most one line per product (the "merge into the existing line"
  rule of \<open>add_to_cart\<close>).
\<close>

definition cart_inv :: "db \<Rightarrow> bool" where
  "cart_inv d \<longleftrightarrow>
     distinct (map ci_id (cart_items d)) \<and>
     (\<forall>it\<in>set (cart_items d). ci_cart_id it \<in> set (map cart_id (carts d))) \<and>
     distinct (map (\<lambda>x. (ci_cart_id x, ci_product_id x)) (cart_items d))"

text \<open>The quantity of a product in a cart, and in the user's cart (0 when there is none).\<close>

definition qty_in :: "cart_item list \<Rightarrow> row_id \<Rightarrow> pid \<Rightarrow> int" where
  "qty_in xs c i = sum_list (map ci_qty (filter (\<lambda>it. ci_cart_id it = c \<and> ci_product_id it = i) xs))"

definition cart_qty :: "db \<Rightarrow> uid \<Rightarrow> pid \<Rightarrow> int" where
  "cart_qty d u i = (case user_cart d u of None \<Rightarrow> 0 | Some c \<Rightarrow> qty_in (cart_items d) (cart_id c) i)"

text \<open>The cart total the code means: the sum of price times quantity.\<close>

definition lines_total :: "db \<Rightarrow> cart_item list \<Rightarrow> real" where
  "lines_total d its =
     sum_list (map (\<lambda>it. case get_product d (ci_product_id it) of
                           None \<Rightarrow> 0 | Some p \<Rightarrow> price p * of_int (ci_qty it)) its)"

subsection \<open>Lemmas: \<open>get_or_create_cart\<close>\<close>

lemma items_keys_distinct:
  "(\<forall>c. distinct (map ci_product_id (filter (\<lambda>it. ci_cart_id it = c) xs))) \<longleftrightarrow>
   distinct (map (\<lambda>x. (ci_cart_id x, ci_product_id x)) xs)"
proof (induction xs)
  case Nil
  then show ?case by simp
next
  case (Cons x xs)
  have "(\<forall>c. distinct (map ci_product_id (filter (\<lambda>it. ci_cart_id it = c) (x # xs)))) \<longleftrightarrow>
        (\<forall>c. distinct (map ci_product_id (filter (\<lambda>it. ci_cart_id it = c) xs))) \<and>
        (ci_cart_id x, ci_product_id x) \<notin> set (map (\<lambda>x. (ci_cart_id x, ci_product_id x)) xs)"
    by (auto simp: image_iff)
  with Cons.IH show ?case by auto
qed

lemma cart_inv_items:
  "cart_inv d \<longleftrightarrow>
     distinct (map ci_id (cart_items d)) \<and>
     (\<forall>it\<in>set (cart_items d). ci_cart_id it \<in> cart_id ` set (carts d)) \<and>
     (\<forall>c. distinct (map ci_product_id (items_of d c)))"
  by (simp add: cart_inv_def items_of_def items_keys_distinct)

lemma user_cart_Some: "user_cart d u = Some c \<Longrightarrow> c \<in> set (carts d) \<and> cart_user_id c = u"
  by (auto simp: user_cart_def find_Some_iff)

lemma get_or_create_cart_frame:
  assumes "get_or_create_cart d u = (c, d1)"
  shows "user_cart d1 u = Some c" and "cart_items d1 = cart_items d" and "products d1 = products d"
    and "orders d1 = orders d" and "events d1 = events d" and "order_items d1 = order_items d"
    and "flags d1 = flags d" and "set (carts d) \<subseteq> set (carts d1)"
    and "cart_user_id c = u" and "users d1 = users d"
  using assms
  by (auto simp: get_or_create_cart_def user_cart_def Let_def find_append_None
           split: option.splits dest: find_Some_in)

lemma get_or_create_cart_new:
  assumes "get_or_create_cart d u = (c, d1)" and "user_cart d u = None"
  shows "cart_id c \<notin> cart_id ` set (carts d)"
  using assms next_rowid_fresh [of "map cart_id (carts d)"]
  by (auto simp: get_or_create_cart_def Let_def)

lemma get_or_create_cart_old:
  assumes "get_or_create_cart d u = (c, d1)" and "user_cart d u = Some c'"
  shows "c = c'" and "d1 = d"
  using assms by (auto simp: get_or_create_cart_def)

text \<open>Under the invariant, the items of a newly created cart are none.\<close>

lemma qty_in_fresh_cart:
  "\<forall>it\<in>set xs. ci_cart_id it \<in> C \<Longrightarrow> c \<notin> C \<Longrightarrow> qty_in xs c i = 0"
  by (induction xs) (auto simp: qty_in_def)

lemma cart_qty_get_or_create:
  assumes "cart_inv d" and "get_or_create_cart d u = (c, d1)"
  shows "cart_qty d u i = qty_in (cart_items d) (cart_id c) i"
proof (cases "user_cart d u")
  case None
  from assms(2) None have "cart_id c \<notin> cart_id ` set (carts d)" by (rule get_or_create_cart_new)
  with assms(1) None show ?thesis
    using qty_in_fresh_cart [of "cart_items d" "cart_id ` set (carts d)"]
    by (simp add: cart_qty_def cart_inv_items)
next
  case (Some c')
  with get_or_create_cart_old(1) [OF assms(2)] show ?thesis by (simp add: cart_qty_def)
qed

lemma cart_inv_get_or_create:
  assumes "cart_inv d" and "get_or_create_cart d u = (c, d1)"
  shows "cart_inv d1" and "cart_id c \<in> cart_id ` set (carts d1)"
proof -
  note fr = get_or_create_cart_frame [OF assms(2)]
  from fr(8) assms(1) show "cart_inv d1"
    by (fastforce simp: cart_inv_items items_of_def fr(2))
  from fr(1) show "cart_id c \<in> cart_id ` set (carts d1)"
    by (auto dest: user_cart_Some)
qed

subsection \<open>Lemmas: \<open>merge_item\<close>\<close>

lemma qty_in_append [simp]:
  "qty_in (xs @ [it]) c j = qty_in xs c j + (if ci_cart_id it = c \<and> ci_product_id it = j then ci_qty it else 0)"
  by (simp add: qty_in_def)

lemma qty_in_update:
  assumes "distinct (map ci_id xs)" and "it \<in> set xs"
  shows "qty_in (update_where (\<lambda>x. ci_id x = ci_id it) (\<lambda>x. x\<lparr>ci_qty := ci_qty x + q\<rparr>) xs) c j =
           qty_in xs c j + (if ci_cart_id it = c \<and> ci_product_id it = j then q else 0)"
  using assms
proof (induction xs)
  case Nil
  then show ?case by simp
next
  case (Cons x xs)
  show ?case
  proof (cases "x = it")
    case True
    with Cons.prems have "\<forall>y\<in>set xs. ci_id y \<noteq> ci_id it" by (auto simp: image_iff)
    then have "update_where (\<lambda>x. ci_id x = ci_id it) (\<lambda>x. x\<lparr>ci_qty := ci_qty x + q\<rparr>) xs = xs"
      by (simp add: update_where_no_match)
    with True show ?thesis by (simp add: qty_in_def update_where_Cons)
  next
    case False
    with Cons.prems have "ci_id x \<noteq> ci_id it" by auto
    with Cons False show ?thesis by (simp add: qty_in_def update_where_Cons)
  qed
qed

lemma qty_in_merge_item:
  assumes "distinct (map ci_id its)"
  shows "qty_in (merge_item its c i q) c' j = qty_in its c' j + (if c' = c \<and> j = i then q else 0)"
proof (cases "find (\<lambda>it. ci_cart_id it = c \<and> ci_product_id it = i) its")
  case None
  then show ?thesis by (auto simp: merge_item_def)
next
  case (Some it)
  then have "it \<in> set its" "ci_cart_id it = c" "ci_product_id it = i"
    by (auto dest: find_Some_in)
  with Some assms show ?thesis by (auto simp: merge_item_def qty_in_update)
qed

lemma merge_item_ids:
  "map ci_id (merge_item its c i q) =
     (case find (\<lambda>it. ci_cart_id it = c \<and> ci_product_id it = i) its of
        Some it \<Rightarrow> map ci_id its | None \<Rightarrow> map ci_id its @ [next_rowid (map ci_id its)])"
  by (auto simp: merge_item_def map_update_where_frame split: option.splits)

lemma merge_item_keys:
  "find (\<lambda>it. ci_cart_id it = c \<and> ci_product_id it = i) its = Some it \<Longrightarrow>
   map (\<lambda>x. (ci_cart_id x, ci_product_id x)) (merge_item its c i q) =
     map (\<lambda>x. (ci_cart_id x, ci_product_id x)) its"
  by (simp add: merge_item_def map_update_where_frame)

lemma merge_item_distinct:
  assumes "distinct (map ci_id its)" and "distinct (map (\<lambda>x. (ci_cart_id x, ci_product_id x)) its)"
  shows "distinct (map ci_id (merge_item its c i q))"
    and "distinct (map (\<lambda>x. (ci_cart_id x, ci_product_id x)) (merge_item its c i q))"
proof -
  show "distinct (map ci_id (merge_item its c i q))"
    using assms(1) next_rowid_fresh [of "map ci_id its"]
    by (auto simp: merge_item_ids split: option.splits)
  show "distinct (map (\<lambda>x. (ci_cart_id x, ci_product_id x)) (merge_item its c i q))"
  proof (cases "find (\<lambda>it. ci_cart_id it = c \<and> ci_product_id it = i) its")
    case None
    then have "merge_item its c i q = its @ [\<lparr>ci_id = next_rowid (map ci_id its), ci_cart_id = c,
                 ci_product_id = i, ci_qty = q\<rparr>]"
      by (simp add: merge_item_def)
    with None assms(2) show ?thesis by (auto simp: find_None_iff image_iff)
  next
    case (Some it)
    with assms(2) show ?thesis by (simp add: merge_item_keys)
  qed
qed

lemma merge_item_carts:
  "ci_cart_id ` set (merge_item its c i q) \<subseteq> insert c (ci_cart_id ` set its)"
  by (auto simp: merge_item_def set_update_where split: option.splits)

subsection \<open>Lemmas: \<open>add_to_cart\<close>\<close>

lemma add_to_cart_ok:
  assumes "get_product d i = Some p" and "q \<le> stock p" and "get_or_create_cart d u = (c, d1)"
  shows "add_to_cart d u i q =
           (Inr (), add_event (d1\<lparr>cart_items := merge_item (cart_items d1) (cart_id c) i q\<rparr>)
                      (Some u) ''add_to_cart'' (Some i))"
  using assms by (simp add: add_to_cart_def)

lemma add_to_cart_err:
  "fst (add_to_cart d u i q) \<noteq> Inr () \<Longrightarrow>
   add_to_cart d u i q = (Inl (HTTPException 400 ''Insufficient stock''), d)"
  by (auto simp: add_to_cart_def split: option.splits if_splits prod.splits)

lemma user_cart_add_event [simp]: "user_cart (add_event d v t r) u = user_cart d u"
  by (simp add: user_cart_def add_event_def)

lemma user_cart_cart_items [simp]: "user_cart (d\<lparr>cart_items := xs\<rparr>) u = user_cart d u"
  by (simp add: user_cart_def)

lemma cart_inv_add_event [simp]: "cart_inv (add_event d v t r) = cart_inv d"
  by (simp add: cart_inv_items items_of_def add_event_def)

lemma cart_inv_merge_item:
  assumes "cart_inv d" and "cart_id c \<in> cart_id ` set (carts d)"
  shows "cart_inv (d\<lparr>cart_items := merge_item (cart_items d) (cart_id c) i q\<rparr>)"
proof -
  from assms(1) have "distinct (map ci_id (cart_items d))"
    and "distinct (map (\<lambda>x. (ci_cart_id x, ci_product_id x)) (cart_items d))"
    by (simp_all add: cart_inv_def)
  note dist = merge_item_distinct [OF this, of "cart_id c" i q]
  have "\<forall>it\<in>set (merge_item (cart_items d) (cart_id c) i q). ci_cart_id it \<in> cart_id ` set (carts d)"
    using merge_item_carts [of "cart_items d" "cart_id c" i q] assms by (auto simp: cart_inv_items)
  with dist show ?thesis by (simp add: cart_inv_def)
qed

subsection \<open>Properties of \<open>add_to_cart\<close>\<close>

text \<open>
  C36: \<open>add_to_cart\<close> accepts a request exactly when the product exists and its
  stock is at least the requested quantity; nothing else is checked, so a zero
  or negative quantity is accepted too.
\<close>

theorem add_to_cart_accepts:
  "fst (add_to_cart d u i q) = Inr () \<longleftrightarrow> (\<exists>p. get_product d i = Some p \<and> q \<le> stock p)"
  by (auto simp: add_to_cart_def split: option.splits prod.splits)

text \<open>
  A rejected \<open>add_to_cart\<close> changes nothing: no cart is created, no line
  and no event is written.
\<close>

theorem add_to_cart_error_unchanged:
  "fst (add_to_cart d u i q) \<noteq> Inr () \<Longrightarrow> snd (add_to_cart d u i q) = d"
  by (simp add: add_to_cart_err)

text \<open>
  C37: \<open>add_to_cart\<close> keeps the cart invariant: item ids unique, every item in
  an existing cart, at most one line per product in a cart.
\<close>

theorem add_to_cart_preserves_inv:
  assumes "cart_inv d"
  shows "cart_inv (snd (add_to_cart d u i q))"
proof (cases "fst (add_to_cart d u i q) = Inr ()")
  case False
  with assms show ?thesis by (simp add: add_to_cart_err)
next
  case True
  then obtain p where p: "get_product d i = Some p" "q \<le> stock p"
    by (auto simp: add_to_cart_def split: option.splits if_splits)
  obtain c d1 where cd: "get_or_create_cart d u = (c, d1)" by fastforce
  from assms cd have "cart_inv d1" and "cart_id c \<in> cart_id ` set (carts d1)"
    by (rule cart_inv_get_or_create)+
  then show ?thesis by (simp add: add_to_cart_ok [OF p cd] cart_inv_merge_item)
qed

text \<open>
  C38: an accepted \<open>add_to_cart\<close> adds the quantity to the user's line for the
  product (creating the cart and the line when needed) and leaves every other
  product's quantity in the cart as it was.
\<close>

theorem add_to_cart_merges:
  assumes "cart_inv d" and "fst (add_to_cart d u i q) = Inr ()"
  shows "cart_qty (snd (add_to_cart d u i q)) u j = cart_qty d u j + (if j = i then q else 0)"
proof -
  from assms(2) obtain p where p: "get_product d i = Some p" "q \<le> stock p"
    by (auto simp: add_to_cart_def split: option.splits if_splits)
  obtain c d1 where cd: "get_or_create_cart d u = (c, d1)" by fastforce
  note fr = get_or_create_cart_frame [OF cd]
  from assms(1) have "distinct (map ci_id (cart_items d))" by (simp add: cart_inv_items)
  with fr(1,2) cart_qty_get_or_create [OF assms(1) cd, of j] show ?thesis
    by (simp add: add_to_cart_ok [OF p cd] cart_qty_def qty_in_merge_item)
qed

text \<open>
  \<open>add_to_cart\<close> reserves nothing: the products table, stock included, is
  the same after the request.
\<close>

theorem add_to_cart_keeps_stock: "products (snd (add_to_cart d u i q)) = products d"
  by (auto simp: add_to_cart_def split: option.splits prod.splits dest: get_or_create_cart_frame(3))

end
