(* ===== verification/Checkout.thy ===== *)
theory Checkout
  imports Cart
begin

text \<open>
  The \<open>checkout\<close> handler of \<open>src/main.py\<close> (lines 117--142), as one request
  running alone against the database. The handler commits twice: once after
  adding the order (line 131) and once at the end (line 141). A raise in between
  rolls back only what is not committed, so the model returns the database of
  the last commit together with the error.
  \<^item> \<open>validate\<close> is the validation loop (lines 124--128): it reads each line's
    product, raises on a missing product (\<open>p.stock\<close> of \<open>None\<close>) or on a
    stock below the line's quantity, and sums price times quantity.
  \<^item> \<open>commit_lines\<close> is the second loop (lines 133--137): decrement the stock,
    add the order item with the current price, add a \<open>purchase\<close> event.
  \<^item> \<open>delete_items\<close> is the third loop (lines 139--140).
  The interleaving of several checkouts is in theory \<open>Concurrency\<close>.
\<close>

fun validate :: "db \<Rightarrow> cart_item list \<Rightarrow> real \<Rightarrow> error + real" where
  "validate d [] acc = Inr acc"
| "validate d (it # its) acc =
     (case get_product d (ci_product_id it) of
        None \<Rightarrow> Inl AttributeError
      | Some p \<Rightarrow>
          if stock p < ci_qty it
          then Inl (HTTPException 400 (''Insufficient stock for '' @ title p))
          else validate d its (acc + price p * of_int (ci_qty it)))"

fun commit_lines :: "db \<Rightarrow> uid \<Rightarrow> row_id \<Rightarrow> cart_item list \<Rightarrow> error + db" where
  "commit_lines d u oid [] = Inr d"
| "commit_lines d u oid (it # its) =
     (case get_product d (ci_product_id it) of
        None \<Rightarrow> Inl AttributeError
      | Some p \<Rightarrow>
          (let d1 = set_stock d (p_id p) (stock p - ci_qty it);
               d2 = add_order_item d1 oid (p_id p) (ci_qty it) (price p);
               d3 = add_event d2 (Some u) ''purchase'' (Some (p_id p))
           in commit_lines d3 u oid its))"

definition delete_items :: "db \<Rightarrow> cart_item list \<Rightarrow> db" where
  "delete_items d its = d\<lparr>cart_items := filter (\<lambda>x. ci_id x \<notin> set (map ci_id its)) (cart_items d)\<rparr>"

definition checkout :: "db \<Rightarrow> uid \<Rightarrow> (error + (row_id \<times> real)) \<times> db" where
  "checkout d u =
     (let (c, d1) = get_or_create_cart d u;
          its = items_of d1 (cart_id c)
      in if its = [] then (Inl (HTTPException 400 ''Cart is empty''), d1)
         else
           (case validate d1 its 0 of
              Inl e \<Rightarrow> (Inl e, d1)
            | Inr acc \<Rightarrow>
                (let ord = \<lparr>order_id = next_rowid (map order_id (orders d1)), order_user_id = u,
                          order_total = py_round2 acc\<rparr>;
                     d2 = d1\<lparr>orders := orders d1 @ [ord]\<rparr>
                 in case commit_lines d2 u (order_id ord) its of
                      Inl e \<Rightarrow> (Inl e, d2)
                    | Inr d3 \<Rightarrow> (Inr (order_id ord, order_total ord), delete_items d3 its))))"

text \<open>The quantity of a product over a list of cart lines.\<close>

definition qty_sum :: "cart_item list \<Rightarrow> pid \<Rightarrow> int" where
  "qty_sum its j = sum_list (map ci_qty (filter (\<lambda>it. ci_product_id it = j) its))"

text \<open>A line passes validation: its product exists and holds enough stock.\<close>

definition line_ok :: "db \<Rightarrow> cart_item \<Rightarrow> bool" where
  "line_ok d it \<longleftrightarrow> (case get_product d (ci_product_id it) of None \<Rightarrow> False | Some p \<Rightarrow> ci_qty it \<le> stock p)"

text \<open>The error the validation loop raises on a line, if any.\<close>

definition line_error :: "db \<Rightarrow> cart_item \<Rightarrow> error option" where
  "line_error d it =
     (case get_product d (ci_product_id it) of
        None \<Rightarrow> Some AttributeError
      | Some p \<Rightarrow> if stock p < ci_qty it
                  then Some (HTTPException 400 (''Insufficient stock for '' @ title p)) else None)"

text \<open>The order items and events the loop appends, one per line, in line order.\<close>

definition snapshot :: "db \<Rightarrow> row_id \<Rightarrow> cart_item \<Rightarrow> row_id \<times> pid \<times> int \<times> real" where
  "snapshot d oid it =
     (oid, ci_product_id it, ci_qty it,
      case get_product d (ci_product_id it) of None \<Rightarrow> 0 | Some p \<Rightarrow> price p)"

definition oi_view :: "order_item \<Rightarrow> row_id \<times> pid \<times> int \<times> real" where
  "oi_view x = (oi_order_id x, oi_product_id x, oi_qty x, price_each x)"

definition ev_view :: "event \<Rightarrow> uid option \<times> string \<times> pid option" where
  "ev_view e = (ev_user_id e, ev_type e, ev_product_id e)"

definition new_order :: "db \<Rightarrow> uid \<Rightarrow> real \<Rightarrow> order" where
  "new_order d u acc = \<lparr>order_id = next_rowid (map order_id (orders d)), order_user_id = u,
                        order_total = py_round2 acc\<rparr>"

subsection \<open>Lemmas: the validation loop\<close>

lemma lines_total_Cons [simp]:
  "lines_total d (it # its) =
     (case get_product d (ci_product_id it) of None \<Rightarrow> 0 | Some p \<Rightarrow> price p * of_int (ci_qty it))
     + lines_total d its"
  by (simp add: lines_total_def)

lemma lines_total_Nil [simp]: "lines_total d [] = 0"
  by (simp add: lines_total_def)

lemma validate_Inr:
  "validate d its acc = Inr r \<longleftrightarrow> (\<forall>it\<in>set its. line_ok d it) \<and> r = acc + lines_total d its"
  by (induction its arbitrary: acc) (auto simp: line_ok_def split: option.splits)

lemma line_ok_error: "line_ok d it \<longleftrightarrow> line_error d it = None"
  by (simp add: line_ok_def line_error_def split: option.splits)

lemma validate_Inl:
  "validate d its acc = Inl e \<longleftrightarrow>
     (\<exists>pre it post. its = pre @ it # post \<and> (\<forall>x\<in>set pre. line_ok d x) \<and> line_error d it = Some e)"
proof (induction its arbitrary: acc)
  case Nil
  then show ?case by simp
next
  case (Cons x its)
  show ?case
  proof (cases "line_error d x")
    case None
    then obtain p where p: "get_product d (ci_product_id x) = Some p" "ci_qty x \<le> stock p"
      by (auto simp: line_error_def split: option.splits if_splits)
    then have "validate d (x # its) acc = validate d its (acc + price p * of_int (ci_qty x))"
      by simp
    with None Cons.IH show ?thesis
      using split_first_Cons [of x its "line_ok d" "\<lambda>it. line_error d it = Some e"]
      by (simp add: line_ok_error)
  next
    case (Some e')
    then have "validate d (x # its) acc = Inl e'"
      by (auto simp: line_error_def split: option.splits if_splits)
    with Some show ?thesis
      using split_first_Cons [of x its "line_ok d" "\<lambda>it. line_error d it = Some e"]
      by (auto simp: line_ok_error)
  qed
qed

subsection \<open>Lemmas: the commit loop\<close>

lemma qty_sum_Cons [simp]:
  "qty_sum (it # its) j = (if ci_product_id it = j then ci_qty it else 0) + qty_sum its j"
  by (simp add: qty_sum_def)

lemma qty_sum_Nil [simp]: "qty_sum [] j = 0"
  by (simp add: qty_sum_def)

lemma commit_lines_Inr_iff:
  "(\<exists>d'. commit_lines d u oid its = Inr d') \<longleftrightarrow> (\<forall>it\<in>set its. get_product d (ci_product_id it) \<noteq> None)"
proof (induction its arbitrary: d)
  case Nil
  then show ?case by simp
next
  case (Cons it its)
  show ?case
    by (auto simp: Let_def Cons.IH get_product_Some split: option.splits)
qed

lemma commit_lines_stock:
  "commit_lines d u oid its = Inr d' \<Longrightarrow>
   stock_of d' j = map_option (\<lambda>s. s - qty_sum its j) (stock_of d j)"
proof (induction its arbitrary: d)
  case Nil
  then show ?case by (simp add: option.map_ident)
next
  case (Cons it its)
  from Cons.prems obtain p where p: "get_product d (ci_product_id it) = Some p"
    by (auto split: option.splits)
  then have pid: "p_id p = ci_product_id it" by (auto dest: get_product_Some)
  define d3 where "d3 = add_event (add_order_item (set_stock d (p_id p) (stock p - ci_qty it))
                                   oid (p_id p) (ci_qty it) (price p)) (Some u) ''purchase'' (Some (p_id p))"
  from Cons.prems p have "commit_lines d3 u oid its = Inr d'" by (simp add: d3_def Let_def)
  then have ih: "stock_of d' j = map_option (\<lambda>s. s - qty_sum its j) (stock_of d3 j)"
    by (rule Cons.IH)
  have "stock_of d3 j = (if ci_product_id it = j then Some (stock p - ci_qty it) else stock_of d j)"
    using p pid by (auto simp: d3_def)
  moreover have "stock_of d (ci_product_id it) = Some (stock p)"
    using p by (simp add: stock_of_def)
  ultimately show ?case using ih by auto
qed

lemma commit_lines_frame:
  assumes "commit_lines d u oid its = Inr d'"
  shows "orders d' = orders d" and "cart_items d' = cart_items d" and "carts d' = carts d"
    and "map p_id (products d') = map p_id (products d)" and "flags d' = flags d"
    and "users d' = users d"
  using assms
  by (induction its arbitrary: d) (auto simp: Let_def split: option.splits)

lemma commit_lines_price:
  "commit_lines d u oid its = Inr d' \<Longrightarrow>
   map_option price (get_product d' j) = map_option price (get_product d j)"
  by (induction its arbitrary: d) (auto simp: Let_def split: option.splits)

lemma snapshot_price_eq:
  "map_option price (get_product d' j) = map_option price (get_product d j) \<Longrightarrow>
   ci_product_id it = j \<Longrightarrow> snapshot d' oid it = snapshot d oid it"
  by (auto simp: snapshot_def split: option.splits)

lemma commit_lines_order_items:
  "commit_lines d u oid its = Inr d' \<Longrightarrow>
   \<exists>new. order_items d' = order_items d @ new \<and> map oi_view new = map (snapshot d oid) its"
proof (induction its arbitrary: d)
  case Nil
  then show ?case by simp
next
  case (Cons it its)
  from Cons.prems obtain p where p: "get_product d (ci_product_id it) = Some p"
    by (auto split: option.splits)
  define d3 where "d3 = add_event (add_order_item (set_stock d (p_id p) (stock p - ci_qty it))
                                   oid (p_id p) (ci_qty it) (price p)) (Some u) ''purchase'' (Some (p_id p))"
  from Cons.prems p have "commit_lines d3 u oid its = Inr d'" by (simp add: d3_def Let_def)
  from Cons.IH [OF this] obtain new where
    new: "order_items d' = order_items d3 @ new" "map oi_view new = map (snapshot d3 oid) its"
    by blast
  have "map (snapshot d3 oid) its = map (snapshot d oid) its"
    by (rule map_cong [OF refl], rule snapshot_price_eq [OF _ refl]) (simp add: d3_def)
  with new(2) have m: "map oi_view new = map (snapshot d oid) its" by (rule trans)
  have "order_items d3 = order_items d @
      [\<lparr>oi_id = next_rowid (map oi_id (order_items d)), oi_order_id = oid,
        oi_product_id = p_id p, oi_qty = ci_qty it, price_each = price p\<rparr>]"
    by (simp add: d3_def add_order_item_def)
  moreover have "snapshot d oid it = (oid, p_id p, ci_qty it, price p)"
    using p by (auto simp: snapshot_def dest: get_product_Some)
  moreover have "oi_view \<lparr>oi_id = next_rowid (map oi_id (order_items d)), oi_order_id = oid,
        oi_product_id = p_id p, oi_qty = ci_qty it, price_each = price p\<rparr> = (oid, p_id p, ci_qty it, price p)"
    by (simp add: oi_view_def)
  ultimately show ?case using new(1) m
    by (intro exI [of _ "\<lparr>oi_id = next_rowid (map oi_id (order_items d)), oi_order_id = oid,
        oi_product_id = p_id p, oi_qty = ci_qty it, price_each = price p\<rparr> # new"]) simp
qed

lemma commit_lines_events:
  "commit_lines d u oid its = Inr d' \<Longrightarrow>
   \<exists>new. events d' = events d @ new \<and>
          map ev_view new = map (\<lambda>it. (Some u, ''purchase'', Some (ci_product_id it))) its"
proof (induction its arbitrary: d)
  case Nil
  then show ?case by simp
next
  case (Cons it its)
  from Cons.prems obtain p where p: "get_product d (ci_product_id it) = Some p"
    by (auto split: option.splits)
  then have pid: "p_id p = ci_product_id it" by (auto dest: get_product_Some)
  define d2 where "d2 = add_order_item (set_stock d (p_id p) (stock p - ci_qty it))
                                   oid (p_id p) (ci_qty it) (price p)"
  from Cons.prems p have "commit_lines (add_event d2 (Some u) ''purchase'' (Some (p_id p))) u oid its = Inr d'"
    by (simp add: d2_def Let_def)
  from Cons.IH [OF this] obtain new where
    new: "events d' = events (add_event d2 (Some u) ''purchase'' (Some (p_id p))) @ new"
         "map ev_view new = map (\<lambda>it. (Some u, ''purchase'', Some (ci_product_id it))) its"
    by blast
  have "events d2 = events d" by (simp add: d2_def)
  moreover have "ev_view \<lparr>ev_id = next_rowid (map ev_id (events d)), ev_user_id = Some u,
        ev_type = ''purchase'', ev_product_id = Some (p_id p), meta = None\<rparr> =
        (Some u, ''purchase'', Some (ci_product_id it))"
    using pid by (simp add: ev_view_def)
  ultimately show ?case using new
    by (intro exI [of _ "\<lparr>ev_id = next_rowid (map ev_id (events d)), ev_user_id = Some u,
        ev_type = ''purchase'', ev_product_id = Some (p_id p), meta = None\<rparr> # new"])
       (simp add: events_add_event)
qed

lemma line_ok_cong: "products d' = products d \<Longrightarrow> line_ok d' it = line_ok d it"
  unfolding line_ok_def get_product_def by simp

lemma commit_lines_nonneg:
  assumes "commit_lines d u oid its = Inr d'" and "stock_nonneg d"
    and "distinct (map ci_product_id its)" and "\<forall>it\<in>set its. line_ok d it"
  shows "stock_nonneg d'"
  using assms
proof (induction its arbitrary: d)
  case Nil
  then show ?case by simp
next
  case (Cons it its)
  from Cons.prems(4) obtain p where p: "get_product d (ci_product_id it) = Some p" "ci_qty it \<le> stock p"
    by (auto simp: line_ok_def split: option.splits)
  then have pid: "p_id p = ci_product_id it" by (auto dest: get_product_Some)
  define d3 where "d3 = add_event (add_order_item (set_stock d (p_id p) (stock p - ci_qty it))
                                   oid (p_id p) (ci_qty it) (price p)) (Some u) ''purchase'' (Some (p_id p))"
  from Cons.prems(1) p have run: "commit_lines d3 u oid its = Inr d'" by (simp add: d3_def Let_def)
  have "stock_nonneg (set_stock d (p_id p) (stock p - ci_qty it))"
    using Cons.prems(2) p(2) by (simp add: stock_nonneg_set_stock)
  then have "stock_nonneg d3" by (simp add: d3_def stock_nonneg_def)
  moreover have "\<forall>x\<in>set its. line_ok d3 x"
  proof
    fix x assume x: "x \<in> set its"
    from Cons.prems(3) x have "ci_product_id x \<noteq> ci_product_id it" by (auto simp: image_iff)
    with pid have "ci_product_id x \<noteq> p_id p" by simp
    with Cons.prems(4) x show "line_ok d3 x"
      by (simp add: line_ok_def d3_def get_product_set_stock)
  qed
  ultimately show ?case using run Cons.prems(3) Cons.IH by simp
qed

lemma qty_sum_items_of: "qty_sum (items_of d c) j = qty_in (cart_items d) c j"
  by (simp add: qty_sum_def items_of_def qty_in_def conj_commute)

lemma items_of_cong: "cart_items d' = cart_items d \<Longrightarrow> items_of d' c = items_of d c"
  by (simp add: items_of_def)

lemma items_of_delete_items: "items_of (delete_items d (items_of d c)) c = []"
  by (auto simp: items_of_def delete_items_def filter_empty_conv)


text \<open>
  The three outcomes of \<open>checkout\<close>: an empty cart and a failed validation
  return the database of the first commit (the cart possibly created);
  otherwise the order is added and the commit loop cannot fail, since it reads
  the products the validation found.
\<close>

lemma checkout_empty:
  "get_or_create_cart d u = (c, d1) \<Longrightarrow> items_of d1 (cart_id c) = [] \<Longrightarrow>
   checkout d u = (Inl (HTTPException 400 ''Cart is empty''), d1)"
  by (simp add: checkout_def)

lemma checkout_invalid:
  "get_or_create_cart d u = (c, d1) \<Longrightarrow> items_of d1 (cart_id c) \<noteq> [] \<Longrightarrow>
   validate d1 (items_of d1 (cart_id c)) 0 = Inl e \<Longrightarrow> checkout d u = (Inl e, d1)"
  by (simp add: checkout_def)

lemma checkout_valid:
  assumes "get_or_create_cart d u = (c, d1)" and "items_of d1 (cart_id c) \<noteq> []"
    and "validate d1 (items_of d1 (cart_id c)) 0 = Inr acc"
  shows "\<exists>d3. commit_lines (d1\<lparr>orders := orders d1 @ [new_order d1 u acc]\<rparr>) u
                 (order_id (new_order d1 u acc)) (items_of d1 (cart_id c)) = Inr d3 \<and>
             checkout d u = (Inr (order_id (new_order d1 u acc), py_round2 acc),
                             delete_items d3 (items_of d1 (cart_id c)))"
proof -
  let ?its = "items_of d1 (cart_id c)"
  let ?d2 = "d1\<lparr>orders := orders d1 @ [new_order d1 u acc]\<rparr>"
  from assms(3) have "\<forall>it\<in>set ?its. line_ok d1 it" by (simp add: validate_Inr)
  then have "\<forall>it\<in>set ?its. get_product ?d2 (ci_product_id it) \<noteq> None"
    by (auto simp: line_ok_def get_product_def split: option.splits)
  then obtain d3 where d3: "commit_lines ?d2 u (order_id (new_order d1 u acc)) ?its = Inr d3"
    using commit_lines_Inr_iff by blast
  with assms show ?thesis
    by (simp add: checkout_def new_order_def Let_def)
qed

lemma validate_cong: "products d' = products d \<Longrightarrow> validate d' xs a = validate d xs a"
  by (induction xs arbitrary: a) (simp_all add: get_product_def split: option.split)

lemma lines_total_cong: "products d' = products d \<Longrightarrow> lines_total d' xs = lines_total d xs"
  by (simp add: lines_total_def get_product_def)

lemma checkout_Inr:
  assumes "fst (checkout d u) = Inr r"
  obtains c d1 acc d3 where "get_or_create_cart d u = (c, d1)" and "items_of d1 (cart_id c) \<noteq> []"
    and "validate d1 (items_of d1 (cart_id c)) 0 = Inr acc"
    and "commit_lines (d1\<lparr>orders := orders d1 @ [new_order d1 u acc]\<rparr>) u
           (order_id (new_order d1 u acc)) (items_of d1 (cart_id c)) = Inr d3"
    and "checkout d u = (Inr (order_id (new_order d1 u acc), py_round2 acc),
                         delete_items d3 (items_of d1 (cart_id c)))"
proof -
  obtain c d1 where cd: "get_or_create_cart d u = (c, d1)" by fastforce
  have ne: "items_of d1 (cart_id c) \<noteq> []"
    using assms checkout_empty [OF cd] by auto
  then obtain acc where v: "validate d1 (items_of d1 (cart_id c)) 0 = Inr acc"
    using assms checkout_invalid [OF cd ne] by (cases "validate d1 (items_of d1 (cart_id c)) 0") auto
  from checkout_valid [OF cd ne v] that cd ne v show ?thesis by blast
qed

lemma checkout_Inl:
  assumes "fst (checkout d u) = Inl e"
  shows "snd (checkout d u) = snd (get_or_create_cart d u)"
    and "\<exists>c. user_cart (snd (checkout d u)) u = Some c \<and>
           (items_of d (cart_id c) = [] \<and> e = HTTPException 400 ''Cart is empty'' \<or>
            validate d (items_of d (cart_id c)) 0 = Inl e)"
proof -
  obtain c d1 where cd: "get_or_create_cart d u = (c, d1)" by fastforce
  note fr = get_or_create_cart_frame [OF cd]
  have its: "items_of d1 (cart_id c) = items_of d (cart_id c)" by (rule items_of_cong [OF fr(2)])
  have vd: "validate d1 xs a = validate d xs a" for xs a
    by (rule validate_cong [OF fr(3)])
  have "snd (checkout d u) = d1 \<and> user_cart d1 u = Some c \<and>
        (items_of d (cart_id c) = [] \<and> e = HTTPException 400 ''Cart is empty'' \<or>
         validate d (items_of d (cart_id c)) 0 = Inl e)"
  proof (cases "items_of d1 (cart_id c) = []")
    case True
    with assms fr(1) its show ?thesis by (simp add: checkout_empty [OF cd])
  next
    case False
    show ?thesis
    proof (cases "validate d1 (items_of d1 (cart_id c)) 0")
      case (Inl e')
      with assms fr(1) its vd show ?thesis by (simp add: checkout_invalid [OF cd False])
    next
      case (Inr acc)
      from checkout_valid [OF cd False Inr] assms show ?thesis by auto
    qed
  qed
  with cd show "snd (checkout d u) = snd (get_or_create_cart d u)"
    and "\<exists>c. user_cart (snd (checkout d u)) u = Some c \<and>
           (items_of d (cart_id c) = [] \<and> e = HTTPException 400 ''Cart is empty'' \<or>
            validate d (items_of d (cart_id c)) 0 = Inl e)"
    by auto
qed

text \<open>What a successful checkout does to the users and the event log: the users
  are untouched and one purchase event per line of the user's cart is appended.\<close>

lemma checkout_events:
  assumes "fst (checkout d u) = Inr r"
  shows "users (snd (checkout d u)) = users d \<and>
         (\<exists>c new. user_cart (snd (checkout d u)) u = Some c \<and> events (snd (checkout d u)) = events d @ new \<and>
            map ev_view new = map (\<lambda>it. (Some u, ''purchase'', Some (ci_product_id it))) (items_of d (cart_id c)))"
proof -
  from assms obtain c d1 acc d3 where cd: "get_or_create_cart d u = (c, d1)"
    and run: "commit_lines (d1\<lparr>orders := orders d1 @ [new_order d1 u acc]\<rparr>) u
                (order_id (new_order d1 u acc)) (items_of d1 (cart_id c)) = Inr d3"
    and res: "snd (checkout d u) = delete_items d3 (items_of d1 (cart_id c))"
    by (rule checkout_Inr) simp
  note fr = get_or_create_cart_frame [OF cd]
  have its: "items_of d1 (cart_id c) = items_of d (cart_id c)" by (rule items_of_cong [OF fr(2)])
  obtain ne where ne: "events d3 = events d1 @ ne"
    "map ev_view ne = map (\<lambda>it. (Some u, ''purchase'', Some (ci_product_id it))) (items_of d1 (cart_id c))"
    using commit_lines_events [OF run] by auto
  have "user_cart (snd (checkout d u)) u = Some c"
    using res commit_lines_frame(3) [OF run] fr(1) by (simp add: delete_items_def user_cart_def)
  moreover have "users (snd (checkout d u)) = users d"
    using res commit_lines_frame(6) [OF run] fr(10) by (simp add: delete_items_def)
  ultimately show ?thesis using ne res fr(5) its by (auto simp: delete_items_def)
qed

subsection \<open>Properties of \<open>checkout\<close>\<close>

text \<open>
  C1: checkout is all-or-nothing. When it fails (empty cart, a missing
  product, a line whose quantity exceeds the stock) no stock changes, no order,
  order item or event is written, and the cart keeps its lines; the only
  trace is the empty cart \<open>get_or_create_cart\<close> may have committed.
\<close>

theorem checkout_all_or_nothing:
  assumes "fst (checkout d u) = Inl e"
  shows "products (snd (checkout d u)) = products d \<and> orders (snd (checkout d u)) = orders d \<and>
         order_items (snd (checkout d u)) = order_items d \<and> events (snd (checkout d u)) = events d \<and>
         cart_items (snd (checkout d u)) = cart_items d"
proof -
  obtain c d1 where cd: "get_or_create_cart d u = (c, d1)" by fastforce
  with checkout_Inl(1) [OF assms] get_or_create_cart_frame [OF cd] show ?thesis by simp
qed

text \<open>
  C2: a successful checkout lowers the stock of every product by its quantity
  in the user's cart, and leaves the stock of every other product alone.
\<close>

theorem checkout_stock:
  assumes "cart_inv d" and "fst (checkout d u) = Inr r"
  shows "stock_of (snd (checkout d u)) j = map_option (\<lambda>s. s - cart_qty d u j) (stock_of d j)"
proof -
  from assms(2) obtain c d1 acc d3 where cd: "get_or_create_cart d u = (c, d1)"
    and run: "commit_lines (d1\<lparr>orders := orders d1 @ [new_order d1 u acc]\<rparr>) u
                (order_id (new_order d1 u acc)) (items_of d1 (cart_id c)) = Inr d3"
    and res: "checkout d u = (Inr (order_id (new_order d1 u acc), py_round2 acc),
                              delete_items d3 (items_of d1 (cart_id c)))"
    by (rule checkout_Inr)
  note fr = get_or_create_cart_frame [OF cd]
  have "stock_of d3 j = map_option (\<lambda>s. s - qty_sum (items_of d1 (cart_id c)) j)
                          (stock_of (d1\<lparr>orders := orders d1 @ [new_order d1 u acc]\<rparr>) j)"
    by (rule commit_lines_stock [OF run])
  moreover have "qty_sum (items_of d1 (cart_id c)) j = cart_qty d u j"
    using cart_qty_get_or_create [OF assms(1) cd] fr(2) by (simp add: qty_sum_items_of)
  ultimately show ?thesis
    using res fr(3) by (simp add: delete_items_def stock_of_def get_product_def)
qed

text \<open>
  C3: checkout never drives a stock negative: from a database whose stocks are
  all non-negative and whose carts hold one line per product, the stocks after
  a checkout are non-negative, whatever its outcome.
\<close>

theorem checkout_stock_nonneg:
  assumes "cart_inv d" and "stock_nonneg d"
  shows "stock_nonneg (snd (checkout d u))"
proof (cases "fst (checkout d u)")
  case (Inl e)
  obtain c d1 where cd: "get_or_create_cart d u = (c, d1)" by fastforce
  with checkout_Inl(1) [OF Inl] get_or_create_cart_frame(3) [OF cd] assms(2) show ?thesis
    by (simp add: stock_nonneg_def)
next
  case (Inr r)
  then obtain c d1 acc d3 where cd: "get_or_create_cart d u = (c, d1)"
    and v: "validate d1 (items_of d1 (cart_id c)) 0 = Inr acc"
    and run: "commit_lines (d1\<lparr>orders := orders d1 @ [new_order d1 u acc]\<rparr>) u
                (order_id (new_order d1 u acc)) (items_of d1 (cart_id c)) = Inr d3"
    and res: "checkout d u = (Inr (order_id (new_order d1 u acc), py_round2 acc),
                              delete_items d3 (items_of d1 (cart_id c)))"
    by (rule checkout_Inr)
  note fr = get_or_create_cart_frame [OF cd]
  from cart_inv_get_or_create(1) [OF assms(1) cd]
  have "distinct (map ci_product_id (items_of d1 (cart_id c)))" by (simp add: cart_inv_items)
  moreover from v have "\<forall>it\<in>set (items_of d1 (cart_id c)).
      line_ok (d1\<lparr>orders := orders d1 @ [new_order d1 u acc]\<rparr>) it"
    by (simp add: validate_Inr line_ok_def get_product_def)
  moreover have "stock_nonneg (d1\<lparr>orders := orders d1 @ [new_order d1 u acc]\<rparr>)"
    using assms(2) fr(3) by (simp add: stock_nonneg_def)
  ultimately have "stock_nonneg d3" using commit_lines_nonneg [OF run] by blast
  with res show ?thesis by (simp add: delete_items_def stock_nonneg_def)
qed

text \<open>
  C4: a successful checkout appends exactly one order, owned by the user, whose
  total is the sum of current price times quantity over the cart's lines,
  rounded to two decimals; the response carries that order's id and total.
\<close>

theorem checkout_order_total:
  assumes "fst (checkout d u) = Inr (oid, t)"
  shows "\<exists>c. user_cart (snd (checkout d u)) u = Some c \<and>
             t = py_round2 (lines_total d (items_of d (cart_id c))) \<and>
             orders (snd (checkout d u)) =
               orders d @ [\<lparr>order_id = oid, order_user_id = u, order_total = t\<rparr>]"
proof -
  from assms obtain c d1 acc d3 where cd: "get_or_create_cart d u = (c, d1)"
    and v: "validate d1 (items_of d1 (cart_id c)) 0 = Inr acc"
    and run: "commit_lines (d1\<lparr>orders := orders d1 @ [new_order d1 u acc]\<rparr>) u
                (order_id (new_order d1 u acc)) (items_of d1 (cart_id c)) = Inr d3"
    and res: "checkout d u = (Inr (order_id (new_order d1 u acc), py_round2 acc),
                              delete_items d3 (items_of d1 (cart_id c)))"
    by (rule checkout_Inr)
  note fr = get_or_create_cart_frame [OF cd]
  have "acc = lines_total d (items_of d (cart_id c))"
    using v by (simp add: validate_Inr items_of_cong [OF fr(2)] lines_total_cong [OF fr(3)])
  moreover have "user_cart (delete_items d3 (items_of d1 (cart_id c))) u = Some c"
    using commit_lines_frame(3) [OF run] fr(1) by (simp add: delete_items_def user_cart_def)
  ultimately show ?thesis
    using assms res commit_lines_frame(1) [OF run] fr(4)
    by (simp add: delete_items_def new_order_def)
qed

text \<open>
  C5: after a successful checkout the user's cart is empty: no quantity of any
  product is left in it.
\<close>

theorem checkout_clears_cart:
  assumes "fst (checkout d u) = Inr r"
  shows "cart_qty (snd (checkout d u)) u j = 0"
proof -
  from assms obtain c d1 acc d3 where cd: "get_or_create_cart d u = (c, d1)"
    and run: "commit_lines (d1\<lparr>orders := orders d1 @ [new_order d1 u acc]\<rparr>) u
                (order_id (new_order d1 u acc)) (items_of d1 (cart_id c)) = Inr d3"
    and res: "checkout d u = (Inr (order_id (new_order d1 u acc), py_round2 acc),
                              delete_items d3 (items_of d1 (cart_id c)))"
    by (rule checkout_Inr)
  note fr = get_or_create_cart_frame [OF cd]
  have "items_of d1 (cart_id c) = items_of d3 (cart_id c)"
    using commit_lines_frame(2) [OF run] by (simp add: items_of_def)
  then have "items_of (snd (checkout d u)) (cart_id c) = []"
    using res items_of_delete_items [of d3 "cart_id c"] by simp
  moreover have "user_cart (snd (checkout d u)) u = Some c"
    using res commit_lines_frame(3) [OF run] fr(1) by (simp add: delete_items_def user_cart_def)
  ultimately show ?thesis
    by (simp add: cart_qty_def qty_in_def items_of_def filter_empty_conv)
qed

text \<open>
  C6: a successful checkout writes one order item per cart line, in line order,
  recording the order id, the product, the quantity and the price the product
  had at checkout, and one \<open>purchase\<close> event per line for the user and the
  product; the earlier order items and events are kept as they were.
\<close>

theorem checkout_order_lines:
  assumes "fst (checkout d u) = Inr (oid, t)"
  shows "\<exists>c new_items new_events. user_cart (snd (checkout d u)) u = Some c \<and>
           order_items (snd (checkout d u)) = order_items d @ new_items \<and>
           map oi_view new_items = map (snapshot d oid) (items_of d (cart_id c)) \<and>
           events (snd (checkout d u)) = events d @ new_events \<and>
           map ev_view new_events =
             map (\<lambda>it. (Some u, ''purchase'', Some (ci_product_id it))) (items_of d (cart_id c))"
proof -
  from assms obtain c d1 acc d3 where cd: "get_or_create_cart d u = (c, d1)"
    and run: "commit_lines (d1\<lparr>orders := orders d1 @ [new_order d1 u acc]\<rparr>) u
                (order_id (new_order d1 u acc)) (items_of d1 (cart_id c)) = Inr d3"
    and res: "checkout d u = (Inr (order_id (new_order d1 u acc), py_round2 acc),
                              delete_items d3 (items_of d1 (cart_id c)))"
    by (rule checkout_Inr)
  note fr = get_or_create_cart_frame [OF cd]
  have oid: "oid = order_id (new_order d1 u acc)" using assms res by simp
  have its: "items_of d1 (cart_id c) = items_of d (cart_id c)" by (rule items_of_cong [OF fr(2)])
  have snap: "snapshot (d1\<lparr>orders := orders d1 @ [new_order d1 u acc]\<rparr>) oid = snapshot d oid"
    using fr(3) by (simp add: snapshot_def get_product_def fun_eq_iff)
  obtain ni where ni: "order_items d3 = order_items d1 @ ni"
    "map oi_view ni = map (snapshot (d1\<lparr>orders := orders d1 @ [new_order d1 u acc]\<rparr>) oid)
                       (items_of d1 (cart_id c))"
    using commit_lines_order_items [OF run] oid by auto
  obtain ne where ne: "events d3 = events d1 @ ne"
    "map ev_view ne = map (\<lambda>it. (Some u, ''purchase'', Some (ci_product_id it))) (items_of d1 (cart_id c))"
    using commit_lines_events [OF run] by auto
  have "user_cart (snd (checkout d u)) u = Some c"
    using res commit_lines_frame(3) [OF run] fr(1) by (simp add: delete_items_def user_cart_def)
  with ni ne res fr(5,6) its snap show ?thesis
    by (simp add: delete_items_def)
qed

text \<open>
  C7: a failed checkout says why: either the cart is empty, or the error is the
  one the first failing line raises, every line before it having passed;
  for a line whose quantity exceeds the stock that error is
  \<open>HTTPException 400 ("Insufficient stock for " + title)\<close> naming the product.
\<close>

theorem checkout_error_names_line:
  assumes "fst (checkout d u) = Inl e"
  shows "\<exists>c. user_cart (snd (checkout d u)) u = Some c \<and>
           (items_of d (cart_id c) = [] \<and> e = HTTPException 400 ''Cart is empty'' \<or>
            (\<exists>pre it post. items_of d (cart_id c) = pre @ it # post \<and>
               (\<forall>x\<in>set pre. line_ok d x) \<and> line_error d it = Some e))"
  using checkout_Inl(2) [OF assms] by (simp add: validate_Inl)

end
