(* ===== verification/Concurrency.thy ===== *)
theory Concurrency
  imports Checkout
begin

text \<open>
  Checkout requests running concurrently (FastAPI runs each synchronous handler
  in a worker thread, each with its own \<open>Session\<close>). A request of
  \<open>checkout\<close> (\<open>src/main.py\<close>, lines 117--142) is a thread whose steps are
  the statements it sends to the database; every step reads or writes the
  committed database atomically, and the steps of different requests
  interleave in any order.
  \<^item> The session's identity map \<open>co_map\<close> holds the products the request has
    loaded; \<open>session.get\<close> answers from it before reading the database
    (\<open>sget\<close>). \<open>session.commit()\<close> expires it (line 131).
  \<^item> The validation loop reads each product once (lines 124--128); the order is
    committed on its own (lines 129--131); the commit loop loads the products
    again and decrements the loaded value in the session (lines 133--137); the
    final commit (line 141) writes each loaded product's stock as an absolute
    value (SQL \<open>UPDATE product SET stock = :v\<close>), inserts the order items and
    events and deletes the cart lines, in one transaction.
\<close>

datatype co_pc = CoStart | CoValidate | CoOrder | CoLoad | CoCommit | CoDone

record co_thread =
  co_user :: uid
  co_pc :: co_pc
  co_items :: "cart_item list"
  co_todo :: "cart_item list"
  co_acc :: real
  co_map :: "product list"
  co_order :: row_id
  co_lines :: "(pid \<times> int \<times> real) list"
  co_res :: "(error + (row_id \<times> real)) option"

definition co_init :: "uid \<Rightarrow> co_thread" where
  "co_init u = \<lparr>co_user = u, co_pc = CoStart, co_items = [], co_todo = [], co_acc = 0,
                co_map = [], co_order = 0, co_lines = [], co_res = None\<rparr>"

text \<open>\<open>session.get(Product, i)\<close>: the identity map first, then the database.\<close>

definition sget :: "db \<Rightarrow> product list \<Rightarrow> pid \<Rightarrow> product option \<times> product list" where
  "sget d m i =
     (case find (\<lambda>p. p_id p = i) m of
        Some p \<Rightarrow> (Some p, m)
      | None \<Rightarrow> (case get_product d i of None \<Rightarrow> (None, m) | Some p \<Rightarrow> (Some p, m @ [p])))"

definition co_fail :: "co_thread \<Rightarrow> error \<Rightarrow> co_thread" where
  "co_fail t e = t\<lparr>co_pc := CoDone, co_res := Some (Inl e)\<rparr>"

text \<open>The final commit: absolute stock writes, then the inserts, then the deletes.\<close>

definition write_stocks :: "db \<Rightarrow> product list \<Rightarrow> db" where
  "write_stocks d m = fold (\<lambda>p d. set_stock d (p_id p) (stock p)) m d"

definition add_lines :: "db \<Rightarrow> uid \<Rightarrow> row_id \<Rightarrow> (pid \<times> int \<times> real) list \<Rightarrow> db" where
  "add_lines d u oid ls =
     fold (\<lambda>(i, q, pr) d. add_event (add_order_item d oid i q pr) (Some u) ''purchase'' (Some i)) ls d"

definition commit_session :: "db \<Rightarrow> co_thread \<Rightarrow> db" where
  "commit_session d t =
     delete_items (add_lines (write_stocks d (co_map t)) (co_user t) (co_order t) (co_lines t)) (co_items t)"

definition co_step :: "db \<Rightarrow> co_thread \<Rightarrow> db \<times> co_thread" where
  "co_step d t =
     (case co_pc t of
        CoStart \<Rightarrow>
          (let (c, d1) = get_or_create_cart d (co_user t); its = items_of d1 (cart_id c)
           in if its = [] then (d1, co_fail t (HTTPException 400 ''Cart is empty''))
              else (d1, t\<lparr>co_pc := CoValidate, co_items := its, co_todo := its, co_acc := 0, co_map := []\<rparr>))
      | CoValidate \<Rightarrow>
          (case co_todo t of
             [] \<Rightarrow> (d, t\<lparr>co_pc := CoOrder\<rparr>)
           | it # rest \<Rightarrow>
               (case sget d (co_map t) (ci_product_id it) of
                  (None, m) \<Rightarrow> (d, co_fail t AttributeError)
                | (Some p, m) \<Rightarrow>
                    if stock p < ci_qty it
                    then (d, co_fail t (HTTPException 400 (''Insufficient stock for '' @ title p)))
                    else (d, t\<lparr>co_todo := rest, co_acc := co_acc t + price p * of_int (ci_qty it),
                               co_map := m\<rparr>)))
      | CoOrder \<Rightarrow>
          (let ord = new_order d (co_user t) (co_acc t)
           in (d\<lparr>orders := orders d @ [ord]\<rparr>,
               t\<lparr>co_pc := CoLoad, co_order := order_id ord, co_todo := co_items t, co_map := [],
                 co_lines := []\<rparr>))
      | CoLoad \<Rightarrow>
          (case co_todo t of
             [] \<Rightarrow> (d, t\<lparr>co_pc := CoCommit\<rparr>)
           | it # rest \<Rightarrow>
               (case sget d (co_map t) (ci_product_id it) of
                  (None, m) \<Rightarrow> (d, co_fail t AttributeError)
                | (Some p, m) \<Rightarrow>
                    (d, t\<lparr>co_todo := rest,
                          co_map := update_where (\<lambda>x. p_id x = p_id p)
                                      (\<lambda>x. x\<lparr>stock := stock p - ci_qty it\<rparr>) m,
                          co_lines := co_lines t @ [(p_id p, ci_qty it, price p)]\<rparr>)))
      | CoCommit \<Rightarrow>
          (commit_session d t,
           t\<lparr>co_pc := CoDone, co_res := Some (Inr (co_order t, py_round2 (co_acc t)))\<rparr>)
      | CoDone \<Rightarrow> (d, t))"

subsection \<open>Interleaving\<close>

record sys =
  sdb :: db
  thr :: "co_thread list"

definition sys_init :: "db \<Rightarrow> uid list \<Rightarrow> sys" where
  "sys_init d us = \<lparr>sdb = d, thr = map co_init us\<rparr>"

text \<open>Request \<open>i\<close> takes its next step.\<close>

definition step_at :: "sys \<Rightarrow> nat \<Rightarrow> sys" where
  "step_at s i =
     (if i < length (thr s)
      then (let (d', t') = co_step (sdb s) (thr s ! i) in \<lparr>sdb = d', thr = (thr s)[i := t']\<rparr>)
      else s)"

text \<open>A schedule: the order in which the requests take their steps.\<close>

definition run :: "sys \<Rightarrow> nat list \<Rightarrow> sys" where
  "run s sched = fold (\<lambda>i s. step_at s i) sched s"

inductive reach :: "sys \<Rightarrow> sys \<Rightarrow> bool" where
  reach_refl: "reach s s"
| reach_step: "reach s s' \<Longrightarrow> i < length (thr s') \<Longrightarrow> reach s (step_at s' i)"

text \<open>A request running alone for \<open>n\<close> steps.\<close>

fun co_run :: "nat \<Rightarrow> db \<Rightarrow> co_thread \<Rightarrow> db \<times> co_thread" where
  "co_run 0 d t = (d, t)"
| "co_run (Suc n) d t = (case co_step d t of (d', t') \<Rightarrow> co_run n d' t')"

text \<open>The identity map of the validation phase holds rows as the database has them.\<close>

definition map_consistent :: "db \<Rightarrow> product list \<Rightarrow> bool" where
  "map_consistent d m \<longleftrightarrow> (\<forall>p\<in>set m. get_product d (p_id p) = Some p)"

text \<open>The identity map of the load phase holds copies of database rows, with their own stock, one per id.\<close>

definition load_inv :: "db \<Rightarrow> product list \<Rightarrow> bool" where
  "load_inv d m \<longleftrightarrow> distinct (map p_id m) \<and>
     (\<forall>p\<in>set m. \<exists>q. get_product d (p_id p) = Some q \<and> p = q\<lparr>stock := stock p\<rparr>)"

text \<open>Referential integrity of order items, and its strengthening to requests in flight.\<close>

definition oi_ref :: "db \<Rightarrow> bool" where
  "oi_ref d \<longleftrightarrow> (\<forall>x\<in>set (order_items d). oi_order_id x \<in> set (map order_id (orders d)))"

definition sys_inv :: "sys \<Rightarrow> bool" where
  "sys_inv s \<longleftrightarrow> oi_ref (sdb s) \<and>
     (\<forall>t\<in>set (thr s). co_pc t \<in> {CoLoad, CoCommit} \<longrightarrow> co_order t \<in> set (map order_id (orders (sdb s))))"

lemmas co_simps = co_step_def sget_def co_fail_def commit_session_def write_stocks_def add_lines_def
  new_order_def step_at_def

lemma reach_run: "reach s s' \<Longrightarrow> reach s (run s' sched)"
proof (induction sched arbitrary: s')
  case Nil
  then show ?case by (simp add: run_def)
next
  case (Cons i sched)
  have "reach s (step_at s' i)"
  proof (cases "i < length (thr s')")
    case True
    with Cons.prems show ?thesis by (rule reach_step)
  next
    case False
    with Cons.prems show ?thesis by (simp add: step_at_def)
  qed
  then have "reach s (run (step_at s' i) sched)" by (rule Cons.IH)
  then show ?case by (simp add: run_def)
qed

lemma reach_run_init: "reach s (run s sched)"
  by (rule reach_run [OF reach_refl])

subsection \<open>Lemmas: the final commit\<close>

lemma set_stock_same: "set_stock (set_stock d i a) i b = set_stock d i b"
  by (simp add: set_stock_def update_where_def comp_def)

lemma set_stock_commute:
  "i \<noteq> j \<Longrightarrow> set_stock (set_stock d i a) j b = set_stock (set_stock d j b) i a"
  by (simp add: set_stock_def update_where_def comp_def)

lemma set_stock_add_event: "set_stock (add_event d v t r) i n = add_event (set_stock d i n) v t r"
  by (simp add: set_stock_def add_event_def)

lemma set_stock_add_order_item:
  "set_stock (add_order_item d oid pr q pe) i n = add_order_item (set_stock d i n) oid pr q pe"
  by (simp add: set_stock_def add_order_item_def)

lemma products_add_lines [simp]: "products (add_lines d u oid ls) = products d"
  by (induction ls arbitrary: d) (auto simp: add_lines_def)

lemma add_lines_snoc:
  "add_lines d u oid (ls @ [(i, q, pr)]) =
     add_event (add_order_item (add_lines d u oid ls) oid i q pr) (Some u) ''purchase'' (Some i)"
  by (simp add: add_lines_def)

lemma add_lines_Cons:
  "add_lines d u oid ((i, q, pr) # ls) =
     add_lines (add_event (add_order_item d oid i q pr) (Some u) ''purchase'' (Some i)) u oid ls"
  by (simp add: add_lines_def)

lemma add_lines_set_stock: "add_lines (set_stock d i n) u oid ls = set_stock (add_lines d u oid ls) i n"
proof (induction ls arbitrary: d)
  case Nil
  then show ?case by (simp add: add_lines_def)
next
  case (Cons l ls)
  obtain j q pr where l: "l = (j, q, pr)" by (cases l) auto
  show ?case
    by (simp add: l add_lines_Cons Cons.IH [symmetric] set_stock_add_event set_stock_add_order_item)
qed

lemma write_stocks_Cons: "write_stocks d (p # m) = write_stocks (set_stock d (p_id p) (stock p)) m"
  by (simp add: write_stocks_def)

lemma write_stocks_snoc: "write_stocks d (m @ [p]) = set_stock (write_stocks d m) (p_id p) (stock p)"
  by (simp add: write_stocks_def)

lemma write_stocks_set_stock:
  "i \<notin> p_id ` set m \<Longrightarrow> write_stocks (set_stock d i x) m = set_stock (write_stocks d m) i x"
proof (induction m arbitrary: d)
  case Nil
  then show ?case by (simp add: write_stocks_def)
next
  case (Cons a m)
  then have ne: "i \<noteq> p_id a" and nm: "i \<notin> p_id ` set m" by auto
  have "write_stocks (set_stock d i x) (a # m) =
        write_stocks (set_stock (set_stock d (p_id a) (stock a)) i x) m"
    by (simp add: write_stocks_Cons set_stock_commute [OF ne])
  also have "\<dots> = set_stock (write_stocks (set_stock d (p_id a) (stock a)) m) i x"
    by (rule Cons.IH [OF nm])
  finally show ?case by (simp add: write_stocks_Cons)
qed

lemma write_stocks_update:
  assumes "distinct (map p_id m)" and "i \<in> p_id ` set m"
  shows "write_stocks d (update_where (\<lambda>x. p_id x = i) (\<lambda>x. x\<lparr>stock := n\<rparr>) m) =
         set_stock (write_stocks d m) i n"
  using assms
proof (induction m arbitrary: d)
  case Nil
  then show ?case by simp
next
  case (Cons p m)
  show ?case
  proof (cases "p_id p = i")
    case True
    with Cons.prems have "i \<notin> p_id ` set m" by auto
    then have "update_where (\<lambda>x. p_id x = i) (\<lambda>x. x\<lparr>stock := n\<rparr>) m = m"
      by (auto intro: update_where_no_match)
    with True \<open>i \<notin> p_id ` set m\<close> show ?thesis
      by (simp add: update_where_Cons write_stocks_Cons write_stocks_set_stock set_stock_same)
  next
    case False
    with Cons.prems have "distinct (map p_id m)" "i \<in> p_id ` set m" by auto
    with False Cons.IH show ?thesis
      by (simp add: update_where_Cons write_stocks_Cons)
  qed
qed

lemma get_product_write_stocks:
  "load_inv d m \<Longrightarrow>
   get_product (write_stocks d m) i = (case find (\<lambda>p. p_id p = i) m of Some p \<Rightarrow> Some p | None \<Rightarrow> get_product d i)"
proof (induction m rule: rev_induct)
  case Nil
  then show ?case by (simp add: write_stocks_def)
next
  case (snoc p m)
  then have inv: "load_inv d m" and pm: "p_id p \<notin> p_id ` set m"
    and q: "\<exists>q. get_product d (p_id p) = Some q \<and> p = q\<lparr>stock := stock p\<rparr>"
    by (auto simp: load_inv_def)
  from q obtain q where q: "get_product d (p_id p) = Some q" "p = q\<lparr>stock := stock p\<rparr>" by blast
  have "find (\<lambda>x. p_id x = p_id p) m = None" using pm by (auto simp: find_None_iff image_iff)
  with snoc.IH [OF inv] q show ?case
    by (auto simp: write_stocks_snoc get_product_set_stock find_append_eq
             split: option.splits)
qed

subsection \<open>Lemmas: a request running alone\<close>

lemma co_run_done: "co_pc t = CoDone \<Longrightarrow> co_run n d t = (d, t)"
  by (induction n) (simp_all add: co_step_def)

lemma co_run_add:
  "co_run (a + b) d t = (case co_run a d t of (d', t') \<Rightarrow> co_run b d' t')"
  by (induction a arbitrary: d t) (simp_all split: prod.split)

lemma co_run_Suc_step: "co_step d t = (d', t') \<Longrightarrow> co_run (Suc n) d t = co_run n d' t'"
  by simp

lemma sget_consistent:
  assumes "map_consistent d m"
  shows "fst (sget d m i) = get_product d i \<and> map_consistent d (snd (sget d m i))"
proof (cases "find (\<lambda>p. p_id p = i) m")
  case (Some q)
  then have "q \<in> set m" "p_id q = i" by (auto dest: find_Some_in)
  with assms Some show ?thesis by (auto simp: sget_def map_consistent_def)
next
  case None
  with assms show ?thesis
    by (auto simp: sget_def map_consistent_def split: option.splits dest: get_product_Some)
qed

lemma co_run_validate:
  assumes "co_pc t = CoValidate" and "co_todo t = xs" and "map_consistent d (co_map t)"
  shows "case validate d xs (co_acc t) of
           Inr r \<Rightarrow> \<exists>m. co_run (Suc (length xs)) d t =
                     (d, t\<lparr>co_pc := CoOrder, co_todo := [], co_acc := r, co_map := m\<rparr>)
         | Inl e \<Rightarrow> \<exists>t'. co_run (Suc (length xs)) d t = (d, t') \<and> co_pc t' = CoDone \<and>
                          co_res t' = Some (Inl e)"
  using assms
proof (induction xs arbitrary: t)
  case Nil
  then show ?case by (auto simp: co_step_def intro!: exI [of _ "co_map t"])
next
  case (Cons it rest)
  obtain m' where sg: "sget d (co_map t) (ci_product_id it) = (get_product d (ci_product_id it), m')"
    and mc: "map_consistent d m'"
    using sget_consistent [OF Cons.prems(3), of "ci_product_id it"] by (cases "sget d (co_map t) (ci_product_id it)") auto
  show ?case
  proof (cases "get_product d (ci_product_id it)")
    case None
    with sg Cons.prems show ?thesis by (simp add: co_step_def co_fail_def co_run_done)
  next
    case (Some p)
    show ?thesis
    proof (cases "stock p < ci_qty it")
      case True
      with Some sg Cons.prems show ?thesis by (simp add: co_step_def co_fail_def co_run_done)
    next
      case False
      let ?t1 = "t\<lparr>co_todo := rest, co_acc := co_acc t + price p * of_int (ci_qty it), co_map := m'\<rparr>"
      have step: "co_step d t = (d, ?t1)" using Some False sg Cons.prems by (simp add: co_step_def)
      have ih: "case validate d rest (co_acc ?t1) of
           Inr r \<Rightarrow> \<exists>m. co_run (Suc (length rest)) d ?t1 =
                     (d, ?t1\<lparr>co_pc := CoOrder, co_todo := [], co_acc := r, co_map := m\<rparr>)
         | Inl e \<Rightarrow> \<exists>t'. co_run (Suc (length rest)) d ?t1 = (d, t') \<and> co_pc t' = CoDone \<and>
                          co_res t' = Some (Inl e)"
        using Cons.prems mc by (intro Cons.IH) simp_all
      from Some False have "validate d (it # rest) (co_acc t) = validate d rest (co_acc ?t1)" by simp
      with ih co_run_Suc_step [OF step, of "Suc (length rest)"] show ?thesis
        by (simp split: sum.splits)
    qed
  qed
qed

lemma load_inv_Nil [simp]: "load_inv d []"
  by (simp add: load_inv_def)

lemma stock_update_copy: "p = q\<lparr>stock := s\<rparr> \<Longrightarrow> p\<lparr>stock := n\<rparr> = q\<lparr>stock := n\<rparr>"
  by simp

lemma load_inv_update:
  "load_inv d m \<Longrightarrow> load_inv d (update_where (\<lambda>x. p_id x = i) (\<lambda>x. x\<lparr>stock := n\<rparr>) m)"
  by (auto simp: load_inv_def map_update_where_frame set_update_where) (metis stock_update_copy)

lemma sget_load:
  assumes "load_inv d m" and "get_product (write_stocks d m) i = Some p"
  shows "\<exists>m''. sget d m i = (Some p, m'') \<and> load_inv d m'' \<and> i \<in> p_id ` set m'' \<and> p_id p = i \<and>
           set_stock (write_stocks d m'') i x = set_stock (write_stocks d m) i x"
proof (cases "find (\<lambda>q. p_id q = i) m")
  case (Some q)
  with assms have "q = p" by (simp add: get_product_write_stocks)
  with Some assms(1) show ?thesis by (auto simp: sget_def dest: find_Some_in)
next
  case None
  with assms have g: "get_product d i = Some p" by (simp add: get_product_write_stocks)
  then have pid: "p_id p = i" by (auto dest: get_product_Some)
  from None have "i \<notin> p_id ` set m" by (auto simp: find_None_iff)
  with assms(1) g pid have "load_inv d (m @ [p])" by (auto simp: load_inv_def)
  with None g pid show ?thesis
    by (auto simp: sget_def write_stocks_snoc set_stock_same)
qed

lemma co_run_load:
  assumes "co_pc t = CoLoad" and "co_todo t = xs" and "load_inv d (co_map t)"
    and "commit_lines (add_lines (write_stocks d (co_map t)) (co_user t) (co_order t) (co_lines t))
           (co_user t) (co_order t) xs = Inr ds"
  shows "\<exists>m ls. co_run (Suc (length xs)) d t =
                   (d, t\<lparr>co_pc := CoCommit, co_todo := [], co_map := m, co_lines := ls\<rparr>) \<and>
                 add_lines (write_stocks d m) (co_user t) (co_order t) ls = ds"
  using assms
proof (induction xs arbitrary: t)
  case Nil
  then show ?case by (auto simp: co_step_def intro!: exI [of _ "co_map t"] exI [of _ "co_lines t"])
next
  case (Cons it rest)
  let ?i = "ci_product_id it" and ?q = "ci_qty it" and ?u = "co_user t" and ?o = "co_order t"
  let ?X = "add_lines (write_stocks d (co_map t)) ?u ?o (co_lines t)"
  from Cons.prems(4) obtain p where gp: "get_product ?X ?i = Some p"
    by (auto split: option.splits)
  then have gw: "get_product (write_stocks d (co_map t)) ?i = Some p"
    by (simp add: get_product_def)
  from sget_load [OF Cons.prems(3) gw, of "stock p - ?q"] obtain m'' where
    sg: "sget d (co_map t) ?i = (Some p, m'')" and li: "load_inv d m''" and im: "?i \<in> p_id ` set m''"
    and pid: "p_id p = ?i"
    and ws: "set_stock (write_stocks d m'') ?i (stock p - ?q) = set_stock (write_stocks d (co_map t)) ?i (stock p - ?q)"
    by blast
  let ?m1 = "update_where (\<lambda>x. p_id x = p_id p) (\<lambda>x. x\<lparr>stock := stock p - ?q\<rparr>) m''"
  let ?t1 = "t\<lparr>co_todo := rest, co_map := ?m1, co_lines := co_lines t @ [(p_id p, ?q, price p)]\<rparr>"
  have step: "co_step d t = (d, ?t1)" using Cons.prems(1,2) sg by (simp add: co_step_def)
  from li have dm: "distinct (map p_id m'')" by (simp add: load_inv_def)
  have "add_lines (write_stocks d ?m1) ?u ?o (co_lines ?t1) =
        add_event (add_order_item (set_stock ?X ?i (stock p - ?q)) ?o ?i ?q (price p)) (Some ?u)
          ''purchase'' (Some ?i)"
    using pid ws write_stocks_update [OF dm im]
    by (simp add: add_lines_snoc add_lines_set_stock)
  moreover from Cons.prems(4) gp pid
  have "commit_lines (add_event (add_order_item (set_stock ?X ?i (stock p - ?q)) ?o ?i ?q (price p))
          (Some ?u) ''purchase'' (Some ?i)) ?u ?o rest = Inr ds"
    by (simp add: Let_def)
  ultimately have run1: "commit_lines (add_lines (write_stocks d (co_map ?t1)) (co_user ?t1) (co_order ?t1)
                           (co_lines ?t1)) (co_user ?t1) (co_order ?t1) rest = Inr ds"
    by simp
  have "load_inv d (co_map ?t1)" using li by (simp add: load_inv_update)
  with Cons.prems(1) run1 obtain m ls where
    r: "co_run (Suc (length rest)) d ?t1 =
          (d, ?t1\<lparr>co_pc := CoCommit, co_todo := [], co_map := m, co_lines := ls\<rparr>)"
    and a: "add_lines (write_stocks d m) (co_user ?t1) (co_order ?t1) ls = ds"
    using Cons.IH [of ?t1] by auto
  from co_run_Suc_step [OF step, of "Suc (length rest)"] r a show ?case by auto
qed

lemma length_items_of: "length (items_of d c) \<le> length (cart_items d)"
  by (simp add: items_of_def)

lemma write_stocks_Nil [simp]: "write_stocks d [] = d"
  and add_lines_Nil [simp]: "add_lines d u oid [] = d"
  by (simp_all add: write_stocks_def add_lines_def)

subsection \<open>A request running alone refines \<open>checkout\<close>\<close>

text \<open>
  C27: a checkout request whose steps are not interleaved with another's
  (enough steps: two per cart line and five more) ends in exactly the database
  and the result of the sequential model \<open>checkout\<close>. The statement-level
  model of this theory and the handler model of theory \<open>Checkout\<close> agree, so
  every property of \<open>checkout\<close> holds of requests that run one at a time.
\<close>

theorem solo_refines_checkout:
  assumes "2 * length (cart_items d) + 5 \<le> n"
  shows "\<exists>t. co_run n d (co_init u) = (snd (checkout d u), t) \<and> co_res t = Some (fst (checkout d u))"
proof -
  obtain c d1 where cd: "get_or_create_cart d u = (c, d1)" by fastforce
  note fr = get_or_create_cart_frame [OF cd]
  let ?its = "items_of d1 (cart_id c)"
  have len: "length ?its \<le> length (cart_items d)"
    using length_items_of [of d1 "cart_id c"] fr(2) by simp
  obtain k where n: "n = Suc k" using assms by (cases n) auto
  show ?thesis
  proof (cases "?its = []")
    case True
    have "co_step d (co_init u) = (d1, co_fail (co_init u) (HTTPException 400 ''Cart is empty''))"
      using cd True by (simp add: co_step_def co_init_def Let_def)
    then show ?thesis using checkout_empty [OF cd True] n
      by (simp add: co_run_done co_fail_def)
  next
    case False
    let ?t1 = "(co_init u)\<lparr>co_pc := CoValidate, co_items := ?its, co_todo := ?its, co_acc := 0,
                co_map := []\<rparr>"
    have s1: "co_step d (co_init u) = (d1, ?t1)"
      using cd False by (simp add: co_step_def co_init_def Let_def)
    have "Suc (length ?its) \<le> k" using assms len n by simp
    then obtain k2 where k: "k = Suc (length ?its) + k2" by (auto dest: le_Suc_ex)
    have k2ge: "Suc (Suc (Suc (length ?its))) \<le> k2" using assms len n k by simp
    have v: "case validate d1 ?its (co_acc ?t1) of
           Inr r \<Rightarrow> \<exists>m. co_run (Suc (length ?its)) d1 ?t1 =
                     (d1, ?t1\<lparr>co_pc := CoOrder, co_todo := [], co_acc := r, co_map := m\<rparr>)
         | Inl e \<Rightarrow> \<exists>t'. co_run (Suc (length ?its)) d1 ?t1 = (d1, t') \<and> co_pc t' = CoDone \<and>
                          co_res t' = Some (Inl e)"
      by (rule co_run_validate) (simp_all add: map_consistent_def)
    show ?thesis
    proof (cases "validate d1 ?its 0")
      case (Inl e)
      with v obtain t' where r: "co_run (Suc (length ?its)) d1 ?t1 = (d1, t')" and "co_pc t' = CoDone"
        and "co_res t' = Some (Inl e)" by auto
      have "co_run n d (co_init u) = co_run k2 d1 t'"
        by (simp only: n co_run_Suc_step [OF s1] k co_run_add r prod.case)
      also have "\<dots> = (d1, t')" by (rule co_run_done) fact
      finally show ?thesis using \<open>co_res t' = Some (Inl e)\<close> checkout_invalid [OF cd False Inl] by simp
    next
      case (Inr acc)
      with v obtain m where r2: "co_run (Suc (length ?its)) d1 ?t1 =
                     (d1, ?t1\<lparr>co_pc := CoOrder, co_todo := [], co_acc := acc, co_map := m\<rparr>)" by auto
      let ?t2 = "?t1\<lparr>co_pc := CoOrder, co_todo := [], co_acc := acc, co_map := m\<rparr>"
      let ?o = "new_order d1 u acc"
      let ?d2 = "d1\<lparr>orders := orders d1 @ [?o]\<rparr>"
      let ?t3 = "?t2\<lparr>co_pc := CoLoad, co_order := order_id ?o, co_todo := ?its, co_map := [], co_lines := []\<rparr>"
      have s3: "co_step d1 ?t2 = (?d2, ?t3)" by (simp add: co_step_def co_init_def Let_def)
      from checkout_valid [OF cd False Inr] obtain d3 where
        cl: "commit_lines ?d2 u (order_id ?o) ?its = Inr d3"
        and res: "checkout d u = (Inr (order_id ?o, py_round2 acc), delete_items d3 ?its)" by blast
      have "\<exists>m ls. co_run (Suc (length ?its)) ?d2 ?t3 =
                   (?d2, ?t3\<lparr>co_pc := CoCommit, co_todo := [], co_map := m, co_lines := ls\<rparr>) \<and>
                 add_lines (write_stocks ?d2 m) (co_user ?t3) (co_order ?t3) ls = d3"
        by (rule co_run_load) (simp_all add: cl co_init_def)
      then obtain m' ls where r4: "co_run (Suc (length ?its)) ?d2 ?t3 =
                   (?d2, ?t3\<lparr>co_pc := CoCommit, co_todo := [], co_map := m', co_lines := ls\<rparr>)"
        and a: "add_lines (write_stocks ?d2 m') u (order_id ?o) ls = d3" by (auto simp: co_init_def)
      let ?t4 = "?t3\<lparr>co_pc := CoCommit, co_todo := [], co_map := m', co_lines := ls\<rparr>"
      have s5: "co_step ?d2 ?t4 = (delete_items d3 ?its,
                  ?t4\<lparr>co_pc := CoDone, co_res := Some (Inr (order_id ?o, py_round2 acc))\<rparr>)"
        using a by (simp add: co_step_def commit_session_def co_init_def)
      from k2ge obtain k3 where k2: "k2 = Suc (Suc (length ?its) + Suc k3)"
        by (auto dest!: le_Suc_ex)
      have "co_run n d (co_init u) = co_run k2 d1 ?t2"
        by (simp only: n co_run_Suc_step [OF s1] k co_run_add r2 prod.case)
      also have "\<dots> = co_run (Suc k3) ?d2 ?t4"
        by (simp only: k2 co_run_Suc_step [OF s3] co_run_add r4 prod.case)
      also have "\<dots> = (delete_items d3 ?its,
                  ?t4\<lparr>co_pc := CoDone, co_res := Some (Inr (order_id ?o, py_round2 acc))\<rparr>)"
        by (simp only: co_run_Suc_step [OF s5]) (rule co_run_done, simp)
      finally show ?thesis using res by simp
    qed
  qed
qed

subsection \<open>Referential integrity under every interleaving\<close>

lemma orders_write_stocks [simp]: "orders (write_stocks d m) = orders d"
  and order_items_write_stocks [simp]: "order_items (write_stocks d m) = order_items d"
  by (induction m arbitrary: d) (simp_all add: write_stocks_Cons)

lemma orders_add_lines [simp]: "orders (add_lines d u oid ls) = orders d"
proof (induction ls arbitrary: d)
  case Nil
  then show ?case by simp
next
  case (Cons l ls)
  then show ?case by (cases l) (simp add: add_lines_Cons)
qed

lemma order_items_add_lines:
  "x \<in> set (order_items (add_lines d u oid ls)) \<Longrightarrow> x \<in> set (order_items d) \<or> oi_order_id x = oid"
proof (induction ls arbitrary: d)
  case Nil
  then show ?case by simp
next
  case (Cons l ls)
  obtain i q pr where l: "l = (i, q, pr)" by (cases l) auto
  from Cons.prems have "x \<in> set (order_items (add_lines
      (add_event (add_order_item d oid i q pr) (Some u) ''purchase'' (Some i)) u oid ls))"
    by (simp add: l add_lines_Cons)
  from Cons.IH [OF this] show ?case by (auto simp: add_order_item_def)
qed

lemma co_step_orders: "co_step d t = (d', t') \<Longrightarrow> set (orders d) \<subseteq> set (orders d')"
  by (auto simp: co_step_def commit_session_def delete_items_def Let_def
           split: co_pc.splits list.splits option.splits prod.splits if_splits
           dest: get_or_create_cart_frame(4))

lemma co_step_order_items_frame:
  "co_step d t = (d', t') \<Longrightarrow> co_pc t \<noteq> CoCommit \<Longrightarrow> order_items d' = order_items d"
  by (auto simp: co_step_def Let_def
           split: co_pc.splits list.splits option.splits prod.splits if_splits
           dest: get_or_create_cart_frame(6))

lemma co_step_order_items:
  assumes "co_step d t = (d', t')" and "x \<in> set (order_items d')"
  shows "x \<in> set (order_items d) \<or> (co_pc t = CoCommit \<and> oi_order_id x = co_order t)"
proof (cases "co_pc t = CoCommit")
  case True
  with assms(1) have "d' = commit_session d t" by (simp add: co_step_def)
  with assms(2) have "x \<in> set (order_items (add_lines (write_stocks d (co_map t)) (co_user t) (co_order t) (co_lines t)))"
    by (simp add: commit_session_def delete_items_def)
  from order_items_add_lines [OF this] True show ?thesis by simp
next
  case False
  with assms co_step_order_items_frame [OF assms(1)] show ?thesis by simp
qed

lemma co_step_thread:
  "co_step d t = (d', t') \<Longrightarrow> co_pc t' \<in> {CoLoad, CoCommit} \<Longrightarrow>
   (co_pc t \<in> {CoLoad, CoCommit} \<and> co_order t' = co_order t) \<or>
   co_order t' \<in> set (map order_id (orders d'))"
  by (auto simp: co_step_def co_fail_def new_order_def Let_def
           split: co_pc.splits list.splits option.splits prod.splits if_splits)

lemma sys_inv_step: "sys_inv s \<Longrightarrow> sys_inv (step_at s i)"
proof (cases "i < length (thr s)")
  case False
  then show "sys_inv s \<Longrightarrow> sys_inv (step_at s i)" by (simp add: step_at_def)
next
  case True
  assume inv: "sys_inv s"
  obtain d' t' where st: "co_step (sdb s) (thr s ! i) = (d', t')" by fastforce
  have ti: "thr s ! i \<in> set (thr s)" using True by simp
  have grow: "set (orders (sdb s)) \<subseteq> set (orders d')" by (rule co_step_orders [OF st])
  have img: "order_id ` set (orders (sdb s)) \<subseteq> order_id ` set (orders d')"
    using grow by (rule image_mono)
  have "oi_ref d'"
    unfolding oi_ref_def
  proof
    fix x assume "x \<in> set (order_items d')"
    from co_step_order_items [OF st this] inv ti img
    show "oi_order_id x \<in> set (map order_id (orders d'))"
      by (auto simp: sys_inv_def oi_ref_def)
  qed
  moreover have "\<forall>t\<in>set ((thr s)[i := t']). co_pc t \<in> {CoLoad, CoCommit} \<longrightarrow>
                   co_order t \<in> set (map order_id (orders d'))"
  proof
    fix t assume "t \<in> set ((thr s)[i := t'])"
    then have "t = t' \<or> t \<in> set (thr s)" by (auto dest: set_update_subset_insert [THEN subsetD])
    then show "co_pc t \<in> {CoLoad, CoCommit} \<longrightarrow> co_order t \<in> set (map order_id (orders d'))"
    proof
      assume "t = t'"
      from inv ti have prev: "co_pc (thr s ! i) \<in> {CoLoad, CoCommit} \<longrightarrow>
                          co_order (thr s ! i) \<in> order_id ` set (orders (sdb s))"
        by (simp add: sys_inv_def)
      show ?thesis
      proof
        assume "co_pc t \<in> {CoLoad, CoCommit}"
        with \<open>t = t'\<close> co_step_thread [OF st]
        have "(co_pc (thr s ! i) \<in> {CoLoad, CoCommit} \<and> co_order t' = co_order (thr s ! i)) \<or>
              co_order t' \<in> set (map order_id (orders d'))" by simp
        then show "co_order t \<in> set (map order_id (orders d'))"
        proof
          assume h: "co_pc (thr s ! i) \<in> {CoLoad, CoCommit} \<and> co_order t' = co_order (thr s ! i)"
          with prev have "co_order (thr s ! i) \<in> order_id ` set (orders (sdb s))" by blast
          then have "co_order (thr s ! i) \<in> order_id ` set (orders d')" by (rule subsetD [OF img])
          with h \<open>t = t'\<close> show ?thesis by simp
        next
          assume "co_order t' \<in> set (map order_id (orders d'))"
          with \<open>t = t'\<close> show ?thesis by simp
        qed
      qed
    next
      assume "t \<in> set (thr s)"
      with inv have "co_pc t \<in> {CoLoad, CoCommit} \<longrightarrow> co_order t \<in> order_id ` set (orders (sdb s))"
        by (simp add: sys_inv_def)
      then show ?thesis using subsetD [OF img] by auto
    qed
  qed
  ultimately show "sys_inv (step_at s i)" using True st by (simp add: step_at_def sys_inv_def)
qed

lemma reach_sys_inv: "reach s s' \<Longrightarrow> sys_inv s \<Longrightarrow> sys_inv s'"
  by (induction rule: reach.induct) (auto intro: sys_inv_step)

text \<open>
  C30: under every interleaving of checkout requests, every order item refers
  to a committed order: the order row is committed (line 131) before any of its
  items is inserted (line 141).
\<close>

theorem concurrent_order_items_ref:
  assumes "reach (sys_init d us) s" and "oi_ref d"
  shows "oi_ref (sdb s)"
proof -
  have "sys_inv (sys_init d us)" using assms(2) by (simp add: sys_inv_def sys_init_def co_init_def)
  with assms(1) have "sys_inv s" by (rule reach_sys_inv)
  then show ?thesis by (simp add: sys_inv_def)
qed

end
