(* ===== verification/Seed.thy ===== *)
theory Seed
  imports Models
begin

text \<open>
  The startup handler \<open>on_startup\<close> of \<open>src/main.py\<close> (lines 19--43): it
  seeds the admin user, the "Gadgets" category with four demo products, and the
  \<open>experiments\<close> feature flag, each only when it is missing, in one commit.
  The argon2 hash of the admin password is an input: hashing is not modelled.
  Non-ASCII characters of the seed strings are their UTF-8 bytes.
  The seeded database is the concrete catalog the examples of the other
  theories run on.
\<close>

definition empty_db :: db where
  "empty_db = \<lparr>users = [], categories = [], products = [], carts = [], cart_items = [],
               orders = [], order_items = [], events = [], flags = []\<rparr>"

definition fire_emoji :: string where
  "fire_emoji = [CHR 0xF0, CHR 0x9F, CHR 0x94, CHR 0xA5]"

definition em_dash :: string where
  "em_dash = [CHR 0xE2, CHR 0x80, CHR 0x94]"

definition nb_hyphen :: string where
  "nb_hyphen = [CHR 0xE2, CHR 0x80, CHR 0x91]"

text \<open>A product as the constructor on lines 32--35 builds it (no id yet).\<close>

definition demo_product :: "string \<Rightarrow> string \<Rightarrow> real \<Rightarrow> int \<Rightarrow> row_id \<Rightarrow> string \<Rightarrow> product" where
  "demo_product t ds pr st c img =
     \<lparr>p_id = 0, title = t, description = ds, price = pr, image_url = Some img, stock = st,
      category_id = Some c, variant_a_title = None, variant_b_title = None,
      variant_a_desc = None, variant_b_desc = None\<rparr>"

definition demo :: "row_id \<Rightarrow> product list" where
  "demo c =
     [demo_product ''Pocket Drone'' ''Mini foldable drone with HD camera and gesture control.''
        (12999 / 100) 12 c ''https://images.unsplash.com/photo-1518770660439-4636190af475'',
      demo_product ''Smart Mug'' ''Self-heating mug keeps your coffee at the perfect temperature.''
        89 30 c ''https://images.unsplash.com/photo-1511920170033-f8396924c348'',
      demo_product ''Sleep Headband''
        (''Bluetooth sleep mask with ultra'' @ nb_hyphen @ ''thin speakers for side sleepers.'')
        (79 / 2) 50 c ''https://images.unsplash.com/photo-1522335789203-aabd1fc54bc9'',
      demo_product ''Air Quality Clip'' ''Wearable sensor that tracks VOCs, PM2.5, and CO2 with alerts.''
        (599 / 10) 22 c ''https://images.unsplash.com/photo-1520607162513-77705c0f0d4a'']"

text \<open>Lines 37--40: set the two variant titles, then add the product.\<close>

fun add_demo :: "db \<Rightarrow> product list \<Rightarrow> db" where
  "add_demo d [] = d"
| "add_demo d (p # ps) =
     add_demo (d\<lparr>products := products d @
       [p\<lparr>p_id := next_rowid (map p_id (products d)),
          variant_a_title := Some (fire_emoji @ '' '' @ title p),
          variant_b_title := Some (title p @ '' '' @ em_dash @ '' Pro Edition'')\<rparr>]\<rparr>) ps"

definition on_startup :: "string \<Rightarrow> db \<Rightarrow> db" where
  "on_startup admin_hash d =
     (let d1 = (if find (\<lambda>u. email u = ''admin@demo.dev'') (users d) = None
                then d\<lparr>users := users d @ [\<lparr>user_id = next_rowid (map user_id (users d)),
                        email = ''admin@demo.dev'', hashed_password = admin_hash, is_admin = True\<rparr>]\<rparr>
                else d);
          d2 = (if categories d1 = []
                then (let cat = \<lparr>cat_id = next_rowid (map cat_id (categories d1)),
                                 cat_name = ''Gadgets'', slug = ''gadgets''\<rparr>
                      in add_demo (d1\<lparr>categories := categories d1 @ [cat]\<rparr>) (demo (cat_id cat)))
                else d1);
          d3 = (if find (\<lambda>f. flag_name f = ''experiments'') (flags d2) = None
                then d2\<lparr>flags := flags d2 @ [\<lparr>flag_id = next_rowid (map flag_id (flags d2)),
                        flag_name = ''experiments'', enabled = True\<rparr>]\<rparr>
                else d2)
      in d3)"

text \<open>The database right after the first start.\<close>

definition seed_db :: db where
  "seed_db = on_startup ''argon2-hash'' empty_db"

subsection \<open>The seeded catalog\<close>

lemma seed_products_view:
  "map (\<lambda>p. (p_id p, title p, price p, stock p)) (products seed_db) =
     [(1, ''Pocket Drone'', 12999 / 100, 12), (2, ''Smart Mug'', 89, 30),
      (3, ''Sleep Headband'', 79 / 2, 50), (4, ''Air Quality Clip'', 599 / 10, 22)]"
  by (simp add: seed_db_def on_startup_def empty_db_def demo_def demo_product_def next_rowid_def)

lemma seed_products_wf: "products_wf seed_db"
proof -
  have "map p_id (products seed_db) = [1, 2, 3, 4]"
    using arg_cong [OF seed_products_view, of "map fst"] by (simp add: comp_def)
  then show ?thesis by (simp add: products_wf_def)
qed

lemma seed_stock_nonneg: "stock_nonneg seed_db"
proof -
  have "map stock (products seed_db) = [12, 30, 50, 22]"
    using arg_cong [OF seed_products_view, of "map (\<lambda>x. snd (snd (snd x)))"] by (simp add: comp_def)
  then show ?thesis by (auto simp: stock_nonneg_def dest: arg_cong [of _ _ set])
qed

lemma seed_empty_tables [simp]:
  "carts seed_db = []" "cart_items seed_db = []" "orders seed_db = []"
  "order_items seed_db = []" "events seed_db = []"
  by (simp_all add: seed_db_def on_startup_def empty_db_def demo_def)

end
