(* ===== verification/Scenarios.thy ===== *)
theory Scenarios
  imports Concurrency Seed
begin

text \<open>
  Concrete databases on which the handlers run, evaluated by the simplifier:
  the scenarios the checkout contract names, and the instances at which the
  theorems of the component theories are applied. \<open>prod_row\<close> builds a
  product row with the fields the handlers read.
\<close>

definition prod_row :: "pid \<Rightarrow> string \<Rightarrow> real \<Rightarrow> int \<Rightarrow> product" where
  "prod_row i t pr st =
     \<lparr>p_id = i, title = t, description = '''', price = pr, image_url = None, stock = st,
      category_id = None, variant_a_title = None, variant_b_title = None,
      variant_a_desc = None, variant_b_desc = None\<rparr>"

text \<open>Cart of user 1: product A (quantity 3, stock 5) and product B (quantity 2, stock 1).\<close>

definition scen_AB :: db where
  "scen_AB = empty_db\<lparr>products := [prod_row 1 ''A'' 10 5, prod_row 2 ''B'' 7 1],
     carts := [\<lparr>cart_id = 1, cart_user_id = 1\<rparr>],
     cart_items := [\<lparr>ci_id = 1, ci_cart_id = 1, ci_product_id = 1, ci_qty = 3\<rparr>,
                    \<lparr>ci_id = 2, ci_cart_id = 1, ci_product_id = 2, ci_qty = 2\<rparr>]\<rparr>"

text \<open>Cart of user 1: product A only (quantity 2, stock 5, price 10).\<close>

definition scen_A :: db where
  "scen_A = empty_db\<lparr>products := [prod_row 1 ''A'' 10 5],
     carts := [\<lparr>cart_id = 1, cart_user_id = 1\<rparr>],
     cart_items := [\<lparr>ci_id = 1, ci_cart_id = 1, ci_product_id = 1, ci_qty = 2\<rparr>]\<rparr>"

text \<open>Users 1 and 2 each hold 3 of product A, whose stock is 5.\<close>

definition scen_race :: db where
  "scen_race = empty_db\<lparr>products := [prod_row 1 ''A'' 10 5],
     carts := [\<lparr>cart_id = 1, cart_user_id = 1\<rparr>, \<lparr>cart_id = 2, cart_user_id = 2\<rparr>],
     cart_items := [\<lparr>ci_id = 1, ci_cart_id = 1, ci_product_id = 1, ci_qty = 3\<rparr>,
                    \<lparr>ci_id = 2, ci_cart_id = 2, ci_product_id = 1, ci_qty = 3\<rparr>]\<rparr>"

text \<open>
  Two requests, users 1 and 2, each checking out 3 units of A (stock 5). A
  one-line checkout takes seven steps: start, validate the line, end of
  validation, commit the order, load the line, end of loading, final commit.
\<close>

definition race :: sys where
  "race = sys_init scen_race [1, 2]"

text \<open>Both validate against stock 5; request 0 commits; request 1 loads the new stock.\<close>

definition oversell_schedule :: "nat list" where
  "oversell_schedule = [0, 0, 1, 1, 0, 0, 0, 0, 0, 1, 1, 1, 1, 1]"

text \<open>Both validate, both load stock 5 before either commits.\<close>

definition lost_update_schedule :: "nat list" where
  "lost_update_schedule = [0, 0, 1, 1, 0, 0, 0, 1, 1, 1, 0, 0, 1, 1]"

lemmas handler_simps = checkout_def get_or_create_cart_def user_cart_def items_of_def
  get_product_def Let_def set_stock_def add_order_item_def add_event_def next_rowid_def
  delete_items_def py_round2_def model_simps add_to_cart_def merge_item_def
  stock_of_def cart_qty_def qty_in_def cart_inv_def stock_nonneg_def

lemmas scenario_simps = scen_AB_def scen_A_def scen_race_def empty_db_def prod_row_def

lemma checkout_scen_A:
  "checkout scen_A 1 =
     (Inr (1, 20),
      scen_A\<lparr>products := [prod_row 1 ''A'' 10 3], cart_items := [],
             orders := [\<lparr>order_id = 1, order_user_id = 1, order_total = 20\<rparr>],
             order_items := [\<lparr>oi_id = 1, oi_order_id = 1, oi_product_id = 1, oi_qty = 2,
                              price_each = 10\<rparr>],
             events := [\<lparr>ev_id = 1, ev_user_id = Some 1, ev_type = ''purchase'',
                         ev_product_id = Some 1, meta = None\<rparr>]\<rparr>)"
  by (simp add: handler_simps scenario_simps)

lemma checkout_scen_AB:
  "checkout scen_AB 1 = (Inl (HTTPException 400 ''Insufficient stock for B''), scen_AB)"
  by (simp add: handler_simps scenario_simps)

subsection \<open>The checkout scenarios of the contract\<close>

text \<open>
  A cart with A (quantity 3, stock 5) and B (quantity 2, stock 1) fails
  with "Insufficient stock for B"; the database is left exactly as it was: A's
  stock is still 5 and no order exists.
\<close>

theorem scenario_insufficient_B:
  "fst (checkout scen_AB 1) = Inl (HTTPException 400 ''Insufficient stock for B'') \<and>
   snd (checkout scen_AB 1) = scen_AB \<and> stock_of (snd (checkout scen_AB 1)) 1 = Some 5 \<and>
   orders (snd (checkout scen_AB 1)) = []"
  by (simp add: checkout_scen_AB) (simp add: scenario_simps stock_of_def get_product_def)

text \<open>
  A cart with A only (quantity 2, stock 5, price 10) succeeds: the stock
  becomes 3, one order with total 20, one order item at price 10, one
  \<open>purchase\<close> event, and the cart is empty.
\<close>

theorem scenario_single_line:
  "fst (checkout scen_A 1) = Inr (1, 20) \<and>
   stock_of (snd (checkout scen_A 1)) 1 = Some 3 \<and>
   map order_total (orders (snd (checkout scen_A 1))) = [20] \<and>
   map oi_view (order_items (snd (checkout scen_A 1))) = [(1, 1, 2, 10)] \<and>
   map ev_view (events (snd (checkout scen_A 1))) = [(Some 1, ''purchase'', Some 1)] \<and>
   cart_qty (snd (checkout scen_A 1)) 1 1 = 0"
  by (simp add: checkout_scen_A)
     (simp add: scenario_simps stock_of_def get_product_def oi_view_def ev_view_def
                cart_qty_def user_cart_def qty_in_def)

text \<open>
  Two checkouts of 3 units each against a stock of 5, run one after the
  other: the first succeeds, the second fails with "Insufficient stock for A",
  and the stock ends at 2.
\<close>

theorem scenario_serial_race:
  "fst (checkout scen_race 1) = Inr (1, 30) \<and>
   fst (checkout (snd (checkout scen_race 1)) 2) = Inl (HTTPException 400 ''Insufficient stock for A'') \<and>
   stock_of (snd (checkout (snd (checkout scen_race 1)) 2)) 1 = Some 2"
  by (simp add: handler_simps scenario_simps)

subsection \<open>Concurrent checkouts\<close>

lemmas race_simps = race_def oversell_schedule_def lost_update_schedule_def run_def sys_init_def
  co_init_def co_simps handler_simps scenario_simps

text \<open>
  C28: concurrent checkouts oversell. Two checkouts of 3 units against a stock
  of 5 can both succeed, and the stock ends at -1: validation reads the stock
  outside the transaction that decrements it, and the decrement is computed
  from a value loaded after another request committed.
\<close>

theorem concurrent_oversell:
  "\<exists>s. reach race s \<and> map co_res (thr s) = [Some (Inr (1, 30)), Some (Inr (2, 30))] \<and>
       stock_of (sdb s) 1 = Some (-1) \<and> length (orders (sdb s)) = 2"
proof
  let ?s = "run race oversell_schedule"
  have "map co_res (thr ?s) = [Some (Inr (1, 30)), Some (Inr (2, 30))] \<and>
        stock_of (sdb ?s) 1 = Some (-1) \<and> length (orders (sdb ?s)) = 2"
    by (simp add: race_simps)
  with reach_run_init show "reach race ?s \<and> map co_res (thr ?s) = [Some (Inr (1, 30)), Some (Inr (2, 30))] \<and>
       stock_of (sdb ?s) 1 = Some (-1) \<and> length (orders (sdb ?s)) = 2" by blast
qed

text \<open>
  C29: concurrent checkouts lose an update. Two checkouts of 3 units against
  a stock of 5 can both succeed while the stock ends at 2: both load 5 and
  each writes 5 - 3, so six units are sold and only three are taken off.
\<close>

theorem concurrent_lost_update:
  "\<exists>s. reach race s \<and> map co_res (thr s) = [Some (Inr (1, 30)), Some (Inr (2, 30))] \<and>
       stock_of (sdb s) 1 = Some 2 \<and> sum_list (map oi_qty (order_items (sdb s))) = 6"
proof
  let ?s = "run race lost_update_schedule"
  have "map co_res (thr ?s) = [Some (Inr (1, 30)), Some (Inr (2, 30))] \<and>
        stock_of (sdb ?s) 1 = Some 2 \<and> sum_list (map oi_qty (order_items (sdb ?s))) = 6"
    by (simp add: race_simps)
  with reach_run_init show "reach race ?s \<and> map co_res (thr ?s) = [Some (Inr (1, 30)), Some (Inr (2, 30))] \<and>
       stock_of (sdb ?s) 1 = Some 2 \<and> sum_list (map oi_qty (order_items (sdb ?s))) = 6" by blast
qed

text \<open>
  C31: the order is visible before the stock moves. A reachable state holds a
  committed order with no order item while the stock is still 5: the order and
  the decrement are two commits, not one atomic unit.
\<close>

theorem order_before_decrement:
  "\<exists>s. reach race s \<and> orders (sdb s) = [\<lparr>order_id = 1, order_user_id = 1, order_total = 30\<rparr>] \<and>
       order_items (sdb s) = [] \<and> stock_of (sdb s) 1 = Some 5"
proof
  let ?s = "run race [0, 0, 0, 0]"
  have "orders (sdb ?s) = [\<lparr>order_id = 1, order_user_id = 1, order_total = 30\<rparr>] \<and>
       order_items (sdb ?s) = [] \<and> stock_of (sdb ?s) 1 = Some 5"
    by (simp add: race_simps)
  with reach_run_init show "reach race ?s \<and> orders (sdb ?s) = [\<lparr>order_id = 1, order_user_id = 1, order_total = 30\<rparr>] \<and>
       order_items (sdb ?s) = [] \<and> stock_of (sdb ?s) 1 = Some 5" by blast
qed

subsection \<open>The theorems applied at concrete databases\<close>

theorem checkout_all_or_nothing_witness:
  "fst (checkout seed_db 1) = Inl (HTTPException 400 ''Cart is empty'') \<and>
   products (snd (checkout seed_db 1)) = products seed_db \<and> orders (snd (checkout seed_db 1)) = []"
proof -
  have h: "fst (checkout seed_db 1) = Inl (HTTPException 400 ''Cart is empty'')"
    by (simp add: handler_simps)
  from h checkout_all_or_nothing [OF h] show ?thesis by simp
qed

theorem checkout_stock_witness:
  "cart_inv scen_A \<and> fst (checkout scen_A 1) = Inr (1, 20) \<and>
   stock_of (snd (checkout scen_A 1)) 1 = Some 3"
proof -
  have i: "cart_inv scen_A" by (simp add: handler_simps scenario_simps)
  have h: "fst (checkout scen_A 1) = Inr (1, 20)" by (simp add: checkout_scen_A)
  have "map_option (\<lambda>s. s - cart_qty scen_A 1 1) (stock_of scen_A 1) = Some 3"
    by (simp add: handler_simps scenario_simps)
  with i h checkout_stock [OF i h, of 1] show ?thesis by simp
qed

theorem checkout_stock_nonneg_witness:
  "cart_inv scen_AB \<and> stock_nonneg scen_AB \<and> stock_nonneg (snd (checkout scen_AB 1))"
proof -
  have i: "cart_inv scen_AB" and n: "stock_nonneg scen_AB" by (simp_all add: handler_simps scenario_simps)
  from i n checkout_stock_nonneg [OF i n, of 1] show ?thesis by simp
qed

theorem checkout_order_total_witness:
  "fst (checkout scen_A 1) = Inr (1, 20) \<and>
   orders (snd (checkout scen_A 1)) = [\<lparr>order_id = 1, order_user_id = 1, order_total = 20\<rparr>]"
proof -
  have h: "fst (checkout scen_A 1) = Inr (1, 20)" by (simp add: checkout_scen_A)
  from h checkout_order_total [OF h] show ?thesis by (auto simp: scenario_simps)
qed

theorem checkout_clears_cart_witness:
  "fst (checkout scen_A 1) = Inr (1, 20) \<and> cart_qty (snd (checkout scen_A 1)) 1 1 = 0"
proof -
  have h: "fst (checkout scen_A 1) = Inr (1, 20)" by (simp add: checkout_scen_A)
  from h checkout_clears_cart [OF h, of 1] show ?thesis by simp
qed

theorem checkout_order_lines_witness:
  "fst (checkout scen_A 1) = Inr (1, 20) \<and>
   map oi_view (order_items (snd (checkout scen_A 1))) = [snapshot scen_A 1 (hd (cart_items scen_A))]"
proof -
  have h: "fst (checkout scen_A 1) = Inr (1, 20)" by (simp add: checkout_scen_A)
  from checkout_order_lines [OF h] obtain c ni where
    "user_cart (snd (checkout scen_A 1)) 1 = Some c"
    "order_items (snd (checkout scen_A 1)) = order_items scen_A @ ni"
    "map oi_view ni = map (snapshot scen_A 1) (items_of scen_A (cart_id c))"
    by blast
  moreover have "cart_id c = 1" if "user_cart (snd (checkout scen_A 1)) 1 = Some c" for c
    using that by (simp add: checkout_scen_A) (auto simp: scenario_simps user_cart_def)
  ultimately show ?thesis using h by (simp add: scenario_simps items_of_def)
qed

theorem checkout_error_names_line_witness:
  "fst (checkout scen_AB 1) = Inl (HTTPException 400 ''Insufficient stock for B'') \<and>
   line_error scen_AB (cart_items scen_AB ! 1) = Some (HTTPException 400 ''Insufficient stock for B'')"
proof -
  have h: "fst (checkout scen_AB 1) = Inl (HTTPException 400 ''Insufficient stock for B'')"
    by (simp add: checkout_scen_AB)
  from checkout_error_names_line [OF h] h show ?thesis
    by (auto simp: scenario_simps line_error_def get_product_def)
qed

theorem add_to_cart_error_unchanged_witness:
  "fst (add_to_cart scen_A 1 1 100) \<noteq> Inr () \<and> snd (add_to_cart scen_A 1 1 100) = scen_A"
proof -
  have h: "fst (add_to_cart scen_A 1 1 100) \<noteq> Inr ()" by (simp add: handler_simps scenario_simps)
  from h add_to_cart_error_unchanged [OF h] show ?thesis by simp
qed

theorem add_to_cart_preserves_inv_witness:
  "cart_inv seed_db \<and> cart_inv (snd (add_to_cart seed_db 7 2 1))"
proof -
  have i: "cart_inv seed_db" by (simp add: cart_inv_def)
  from i add_to_cart_preserves_inv [OF i, of 7 2 1] show ?thesis by simp
qed

theorem add_to_cart_merges_witness:
  "cart_inv scen_A \<and> fst (add_to_cart scen_A 1 1 1) = Inr () \<and>
   cart_qty (snd (add_to_cart scen_A 1 1 1)) 1 1 = 3"
proof -
  have i: "cart_inv scen_A" and h: "fst (add_to_cart scen_A 1 1 1) = Inr ()"
    and q: "cart_qty scen_A 1 1 = 2"
    by (simp_all add: handler_simps scenario_simps)
  from i h q add_to_cart_merges [OF i h, of 1] show ?thesis by simp
qed

theorem solo_refines_checkout_witness:
  "2 * length (cart_items scen_A) + 5 \<le> (7::nat) \<and>
   (\<exists>t. co_run 7 scen_A (co_init 1) = (snd (checkout scen_A 1), t) \<and> co_res t = Some (Inr (1, 20)))"
proof -
  have h: "2 * length (cart_items scen_A) + 5 \<le> (7::nat)" by (simp add: scenario_simps)
  from h solo_refines_checkout [OF h, of 1] show ?thesis by (simp add: checkout_scen_A)
qed

theorem concurrent_order_items_ref_witness:
  "reach (sys_init scen_race [1, 2]) (run race oversell_schedule) \<and> oi_ref scen_race \<and>
   oi_ref (sdb (run race oversell_schedule))"
proof -
  have r: "reach (sys_init scen_race [1, 2]) (run race oversell_schedule)"
    using reach_run_init [of race oversell_schedule] by (simp add: race_def)
  have o: "oi_ref scen_race" by (simp add: oi_ref_def scenario_simps)
  from r o concurrent_order_items_ref [OF r o] show ?thesis by simp
qed

end
