(* ===== verification/Tfidf.thy ===== *)
theory Tfidf
  imports Models "HOL-Library.List_Lexorder" "HOL-Library.Char_ord"
begin

text \<open>
  The text vectorizer \<open>src/recs.py\<close> calls (lines 12--13):
  \<open>TfidfVectorizer(stop_words='english').fit_transform(docs)\<close>, with the
  library's defaults written out, and \<open>cosine_similarity\<close> (line 18).
  \<^item> Analysis: the text is lower-cased, split into tokens by the pattern
    \<open>(?u)\b\w\w+\b\<close> (maximal runs of word characters, at least two long), and
    the stop words are dropped. Word characters are ASCII letters, digits and
    \<open>_\<close>; a byte outside ASCII separates words (Python's \<open>\w\<close> also counts
    non-ASCII letters as word characters, so a word with accented letters spelt in
    UTF-8 yields a term there and none here; every non-ASCII character of the
    seeded catalog is punctuation, where the two agree). The stop-word list is an
    input: the code passes scikit-learn's English list.
  \<^item> The vocabulary is the sorted set of all terms; an empty vocabulary makes
    \<open>fit_transform\<close> raise \<open>ValueError\<close>.
  \<^item> A document's row holds, for each term, its count times the smoothed inverse
    document frequency \<open>ln ((1 + n) / (1 + df)) + 1\<close>, and is scaled to unit
    Euclidean length (a zero row stays zero).
  \<^item> \<open>cosine_similarity\<close> scales both rows to unit length again and takes their
    dot product.
  Floats are exact reals.
\<close>

subsection \<open>Analysis\<close>

definition is_word_char :: "char \<Rightarrow> bool" where
  "is_word_char c \<longleftrightarrow>
     (CHR ''a'' \<le> c \<and> c \<le> CHR ''z'') \<or> (CHR ''A'' \<le> c \<and> c \<le> CHR ''Z'') \<or>
     (CHR ''0'' \<le> c \<and> c \<le> CHR ''9'') \<or> c = CHR ''_''"

text \<open>\<open>str.lower\<close> on ASCII letters: an upper-case letter gets bit 5 set (code + 32).\<close>

fun lower :: "char \<Rightarrow> char" where
  "lower (Char b0 b1 b2 b3 b4 b5 b6 b7) =
     (if CHR ''A'' \<le> Char b0 b1 b2 b3 b4 b5 b6 b7 \<and> Char b0 b1 b2 b3 b4 b5 b6 b7 \<le> CHR ''Z''
      then Char b0 b1 b2 b3 b4 True b6 b7 else Char b0 b1 b2 b3 b4 b5 b6 b7)"

text \<open>The maximal runs of word characters, left to right; \<open>cur\<close> is the run being read.\<close>

fun word_runs :: "string \<Rightarrow> string \<Rightarrow> string list" where
  "word_runs [] cur = (if cur = [] then [] else [cur])"
| "word_runs (c # cs) cur =
     (if is_word_char c then word_runs cs (cur @ [c])
      else if cur = [] then word_runs cs [] else cur # word_runs cs [])"

definition tokenize :: "string \<Rightarrow> string list" where
  "tokenize s = filter (\<lambda>w. 2 \<le> length w) (word_runs s [])"

definition analyze :: "string list \<Rightarrow> string \<Rightarrow> string list" where
  "analyze sw doc = filter (\<lambda>t. t \<notin> set sw) (tokenize (map lower doc))"

subsection \<open>The vectorizer\<close>

definition vocabulary :: "string list \<Rightarrow> string list \<Rightarrow> string list" where
  "vocabulary sw docs = sort (remdups (concat (map (analyze sw) docs)))"

text \<open>Document frequency: in how many documents a term occurs.\<close>

definition doc_freq :: "string list list \<Rightarrow> string \<Rightarrow> nat" where
  "doc_freq toks t = length (filter (\<lambda>ts. t \<in> set ts) toks)"

definition idf :: "nat \<Rightarrow> nat \<Rightarrow> real" where
  "idf n df = ln ((1 + real n) / (1 + real df)) + 1"

definition l2_normalize :: "real list \<Rightarrow> real list" where
  "l2_normalize v =
     (let nr = sqrt (sum_list (map (\<lambda>x. x\<^sup>2) v)) in if nr = 0 then v else map (\<lambda>x. x / nr) v)"

definition tfidf_row :: "string list \<Rightarrow> real list \<Rightarrow> string list \<Rightarrow> real list" where
  "tfidf_row voc idfs ts = l2_normalize (map2 (\<lambda>t w. real (count_list ts t) * w) voc idfs)"

definition fit_transform :: "string list \<Rightarrow> string list \<Rightarrow> error + real list list" where
  "fit_transform sw docs =
     (let toks = map (analyze sw) docs; voc = vocabulary sw docs
      in if voc = []
         then Inl (ValueError ''empty vocabulary; perhaps the documents only contain stop words'')
         else (let idfs = map (\<lambda>t. idf (length docs) (doc_freq toks t)) voc
               in Inr (map (tfidf_row voc idfs) toks)))"

subsection \<open>Cosine similarity\<close>

definition dot :: "real list \<Rightarrow> real list \<Rightarrow> real" where
  "dot u v = sum_list (map2 (*) u v)"

definition cosine :: "real list \<Rightarrow> real list \<Rightarrow> real" where
  "cosine u v = dot (l2_normalize u) (l2_normalize v)"

text \<open>The squared Euclidean length of a row.\<close>

definition sumsq :: "real list \<Rightarrow> real" where
  "sumsq v = sum_list (map (\<lambda>x. x\<^sup>2) v)"

subsection \<open>Lemmas: lengths and dot products\<close>

lemma sumsq_Cons [simp]: "sumsq (x # v) = x\<^sup>2 + sumsq v"
  and sumsq_Nil [simp]: "sumsq [] = 0"
  by (simp_all add: sumsq_def)

lemma dot_Cons [simp]: "dot (a # u) (b # v) = a * b + dot u v"
  and dot_Nil [simp]: "dot [] v = 0" "dot u [] = 0"
  by (simp_all add: dot_def)

lemma sumsq_nonneg: "0 \<le> sumsq v"
  by (induction v) simp_all

lemma l2_normalize_cases:
  "l2_normalize v = v \<and> sumsq v = 0 \<or>
   (0 < sqrt (sumsq v) \<and> l2_normalize v = map (\<lambda>x. x / sqrt (sumsq v)) v)"
  using sumsq_nonneg [of v] by (auto simp: l2_normalize_def sumsq_def Let_def)

lemma l2_normalize_nonneg: "\<forall>x\<in>set v. 0 \<le> x \<Longrightarrow> \<forall>x\<in>set (l2_normalize v). 0 \<le> x"
  using l2_normalize_cases [of v] by auto

lemma dot_nonneg: "\<forall>x\<in>set u. 0 \<le> x \<Longrightarrow> \<forall>x\<in>set v. 0 \<le> x \<Longrightarrow> 0 \<le> dot u v"
proof (induction u arbitrary: v)
  case Nil
  then show ?case by simp
next
  case (Cons a u)
  then show ?case by (cases v) simp_all
qed

lemma dot_zero_products:
  "\<forall>(a, b)\<in>set (zip u v). a * b = 0 \<Longrightarrow> dot u v = 0"
proof (induction u arbitrary: v)
  case Nil
  then show ?case by simp
next
  case (Cons a u)
  then show ?case by (cases v) simp_all
qed

lemma dot_pos:
  assumes "\<forall>x\<in>set u. 0 \<le> x" and "\<forall>x\<in>set v. 0 \<le> x"
    and "(a, b) \<in> set (zip u v)" and "0 < a" and "0 < b"
  shows "0 < dot u v"
  using assms
proof (induction u arbitrary: v)
  case Nil
  then show ?case by simp
next
  case (Cons x u)
  then obtain y v' where v: "v = y # v'" by (cases v) auto
  from Cons.prems v have nn: "0 \<le> x * y" "0 \<le> dot u v'"
    by (simp_all add: dot_nonneg)
  show ?case
  proof (cases "(a, b) = (x, y)")
    case True
    with Cons.prems nn v show ?thesis by (simp add: add_pos_nonneg)
  next
    case False
    with Cons.prems v have "0 < dot u v'" by (intro Cons.IH) auto
    with nn v show ?thesis by simp
  qed
qed


lemma l2_normalize_scale: "\<exists>c>0. l2_normalize v = map (\<lambda>x. x / c) v"
proof (cases "sumsq v = 0")
  case True
  with l2_normalize_cases [of v] have "l2_normalize v = map (\<lambda>x. x / 1) v" by auto
  then show ?thesis by (intro exI [of _ 1]) simp
next
  case False
  with l2_normalize_cases [of v]
  have "0 < sqrt (sumsq v)" "l2_normalize v = map (\<lambda>x. x / sqrt (sumsq v)) v" by auto
  then show ?thesis by blast
qed

lemma l2_normalize_zero_products:
  assumes "\<forall>(a, b)\<in>set (zip u v). a * b = 0"
  shows "\<forall>(a, b)\<in>set (zip (l2_normalize u) (l2_normalize v)). a * b = 0"
proof -
  obtain c d where "l2_normalize u = map (\<lambda>x. x / c) u" "l2_normalize v = map (\<lambda>x. x / d) v"
    using l2_normalize_scale [of u] l2_normalize_scale [of v] by blast
  with assms show ?thesis by (auto simp: zip_map_map)
qed

lemma l2_normalize_pos_pair:
  assumes "(a, b) \<in> set (zip u v)" "0 < a" "0 < b"
  shows "\<exists>a' b'. (a', b') \<in> set (zip (l2_normalize u) (l2_normalize v)) \<and> 0 < a' \<and> 0 < b'"
proof -
  obtain c d where "0 < c" "0 < d"
    "l2_normalize u = map (\<lambda>x. x / c) u" "l2_normalize v = map (\<lambda>x. x / d) v"
    using l2_normalize_scale [of u] l2_normalize_scale [of v] by blast
  with assms show ?thesis
    by (intro exI [of _ "a / c"] exI [of _ "b / d"]) (force simp: zip_map_map)
qed

subsection \<open>Lemmas: cosine similarity\<close>

lemma cosine_zero_products: "\<forall>(a, b)\<in>set (zip u v). a * b = 0 \<Longrightarrow> cosine u v = 0"
  unfolding cosine_def by (intro dot_zero_products l2_normalize_zero_products)

lemma cosine_pos:
  assumes "\<forall>x\<in>set u. 0 \<le> x" "\<forall>x\<in>set v. 0 \<le> x"
    and "(a, b) \<in> set (zip u v)" "0 < a" "0 < b"
  shows "0 < cosine u v"
proof -
  obtain a' b' where "(a', b') \<in> set (zip (l2_normalize u) (l2_normalize v))" "0 < a'" "0 < b'"
    using l2_normalize_pos_pair [OF assms(3-5)] by blast
  with assms(1,2) show ?thesis
    unfolding cosine_def by (intro dot_pos l2_normalize_nonneg)
qed

subsection \<open>Lemmas: the rows of the matrix\<close>

lemma map2_map_same: "map2 g xs (map f xs) = map (\<lambda>x. g x (f x)) xs"
  by (induction xs) simp_all

lemma count_weight_pos: "0 < w \<Longrightarrow> t \<in> set ts \<Longrightarrow> 0 < real (count_list ts t) * w"
  using count_list_0_iff [of ts t] by simp

lemma doc_freq_le: "doc_freq toks t \<le> length toks"
  by (simp add: doc_freq_def)

lemma idf_ge_1: "df \<le> n \<Longrightarrow> 1 \<le> idf n df"
  by (simp add: idf_def)

lemma fit_transform_Inr:
  assumes "fit_transform sw docs = Inr X"
  shows "vocabulary sw docs \<noteq> [] \<and>
    X = map (tfidf_row (vocabulary sw docs)
               (map (\<lambda>t. idf (length docs) (doc_freq (map (analyze sw) docs) t)) (vocabulary sw docs)))
            (map (analyze sw) docs)"
  using assms by (simp add: fit_transform_def Let_def split: if_splits)

text \<open>The row of a token list with weights \<open>f\<close>, before scaling.\<close>

lemma tfidf_row_weights:
  "tfidf_row voc (map f voc) ts = l2_normalize (map (\<lambda>t. real (count_list ts t) * f t) voc)"
  by (simp add: tfidf_row_def map2_map_same)

lemma tfidf_row_disjoint:
  "set ts1 \<inter> set ts2 = {} \<Longrightarrow> cosine (tfidf_row voc (map f voc) ts1) (tfidf_row voc (map f voc) ts2) = 0"
  unfolding tfidf_row_weights
  by (intro cosine_zero_products l2_normalize_zero_products)
     (auto simp: zip_map_map zip_same_conv_map count_list_0_iff)

lemma tfidf_row_shared:
  assumes "\<forall>t\<in>set voc. 0 < f t" "t \<in> set ts1" "t \<in> set ts2" "t \<in> set voc"
  shows "0 < cosine (tfidf_row voc (map f voc) ts1) (tfidf_row voc (map f voc) ts2)"
proof -
  let ?r = "\<lambda>ts. map (\<lambda>t. real (count_list ts t) * f t) voc"
  have pos: "0 < real (count_list ts1 t) * f t" "0 < real (count_list ts2 t) * f t"
    using assms by (simp_all add: count_weight_pos)
  have "(real (count_list ts1 t) * f t, real (count_list ts2 t) * f t) \<in> set (zip (?r ts1) (?r ts2))"
    using assms(4) by (auto simp: zip_map_map zip_same_conv_map)
  then obtain a b where "(a, b) \<in> set (zip (l2_normalize (?r ts1)) (l2_normalize (?r ts2)))" "0 < a" "0 < b"
    using l2_normalize_pos_pair pos by blast
  moreover have "\<forall>x\<in>set (l2_normalize (?r ts)). 0 \<le> x" for ts
    using assms(1) by (intro l2_normalize_nonneg) (auto intro: mult_nonneg_nonneg less_imp_le)
  ultimately show ?thesis
    unfolding tfidf_row_weights by (intro cosine_pos)
qed


lemma vocabulary_set: "set (vocabulary sw docs) = (\<Union>d\<in>set docs. set (analyze sw d))"
  by (auto simp: vocabulary_def)

lemma fit_transform_row:
  assumes "fit_transform sw docs = Inr X" "i < length docs"
  defines "f \<equiv> \<lambda>t. idf (length docs) (doc_freq (map (analyze sw) docs) t)"
  shows "length X = length docs \<and> (\<forall>t. 0 < f t) \<and>
    X ! i = tfidf_row (vocabulary sw docs) (map f (vocabulary sw docs)) (analyze sw (docs ! i))"
proof -
  have "0 < f t" for t
    using idf_ge_1 [OF doc_freq_le, of "map (analyze sw) docs" t] by (simp add: f_def)
  with fit_transform_Inr [OF assms(1)] assms(2) show ?thesis by (simp add: f_def)
qed

lemma fit_transform_term_in_vocabulary:
  "i < length docs \<Longrightarrow> t \<in> set (analyze sw (docs ! i)) \<Longrightarrow> t \<in> set (vocabulary sw docs)"
  by (auto simp: vocabulary_set)

lemma row_cosine_disjoint:
  assumes "fit_transform sw docs = Inr X" "i < length docs" "j < length docs"
    and "set (analyze sw (docs ! i)) \<inter> set (analyze sw (docs ! j)) = {}"
  shows "cosine (X ! i) (X ! j) = 0"
  using fit_transform_row [OF assms(1,2)] fit_transform_row [OF assms(1,3)]
    tfidf_row_disjoint [OF assms(4)] by simp

lemma row_cosine_shared:
  assumes "fit_transform sw docs = Inr X" "i < length docs" "j < length docs"
    and "t \<in> set (analyze sw (docs ! i))" "t \<in> set (analyze sw (docs ! j))"
  shows "0 < cosine (X ! i) (X ! j)"
proof -
  let ?f = "\<lambda>t. idf (length docs) (doc_freq (map (analyze sw) docs) t)"
  have pos: "\<forall>t\<in>set (vocabulary sw docs). 0 < ?f t"
    using fit_transform_row [OF assms(1,2)] by simp
  show ?thesis
    using fit_transform_row [OF assms(1,2)] fit_transform_row [OF assms(1,3)]
      tfidf_row_shared [OF pos assms(4,5) fit_transform_term_in_vocabulary [OF assms(2,4)]] by simp
qed

lemma vocabulary_Nil_iff: "vocabulary sw docs = [] \<longleftrightarrow> concat (map (analyze sw) docs) = []"
  by (metis vocabulary_def length_sort length_0_conv remdups_eq_nil_iff)

lemma fit_transform_ok:
  "concat (map (analyze sw) docs) \<noteq> [] \<Longrightarrow> \<exists>X. fit_transform sw docs = Inr X"
  by (simp add: fit_transform_def vocabulary_Nil_iff Let_def)

subsection \<open>Properties of the vectorizer\<close>

text \<open>The vectorizer fails exactly when no document has a term outside the stop
  words: \<open>fit_transform\<close> raises \<open>ValueError\<close> on an empty vocabulary and
  succeeds otherwise.\<close>

theorem fit_transform_error_iff:
  "(\<exists>e. fit_transform sw docs = Inl e) \<longleftrightarrow> concat (map (analyze sw) docs) = []"
  by (simp add: fit_transform_def vocabulary_Nil_iff Let_def)

end
