(* ===== verification/Recs.thy ===== *)
theory Recs
  imports Tfidf
begin

text \<open>
  The recommender \<open>recommend_for_product\<close> of \<open>src/recs.py\<close> (lines 7--26) and
  the product page \<open>product_page\<close> of \<open>src/main.py\<close> (lines 51--57) that calls it
  with \<open>n = 4\<close>. The products are read in storage (row id) order; the descriptions
  go through the vectorizer of theory \<open>Tfidf\<close>; \<open>idx_map\<close> is the dict
  comprehension of line 14 (a later product with the same id overwrites an earlier
  one); \<open>sims.argsort()[::-1]\<close> is modelled as a stable ascending sort of the
  indices by similarity, reversed (numpy guarantees no order among ties; the
  theorems below hold for any order of ties); \<open>pick\<close> is the selection loop of lines 20--25, whose
  length test runs after every index, appended or not.
\<close>

definition argsort_desc :: "real list \<Rightarrow> nat list" where
  "argsort_desc sims = rev (sort_key (\<lambda>j. sims ! j) [0..<length sims])"

definition idx_map :: "product list \<Rightarrow> pid \<Rightarrow> nat option" where
  "idx_map ps = map_of (rev (zip (map p_id ps) [0..<length ps]))"

fun pick :: "product list \<Rightarrow> pid \<Rightarrow> int \<Rightarrow> nat list \<Rightarrow> product list \<Rightarrow> product list" where
  "pick ps product_id n [] out = out"
| "pick ps product_id n (j # js) out =
     (let out' = (if p_id (ps ! j) \<noteq> product_id then out @ [ps ! j] else out)
      in if n \<le> int (length out') then out' else pick ps product_id n js out')"

definition recommend_for_product :: "string list \<Rightarrow> db \<Rightarrow> pid \<Rightarrow> int \<Rightarrow> error + product list" where
  "recommend_for_product sw d product_id n =
     (let ps = products d
      in if ps = [] then Inr []
         else (case fit_transform sw (map description ps) of
                 Inl e \<Rightarrow> Inl e
               | Inr X \<Rightarrow>
                   (case idx_map ps product_id of
                      None \<Rightarrow> Inr (py_take n ps)
                    | Some idx \<Rightarrow>
                        (let sims = map (cosine (X ! idx)) X
                         in Inr (pick ps product_id n (argsort_desc sims) [])))))"

definition product_page :: "string list \<Rightarrow> db \<Rightarrow> pid \<Rightarrow> error + product \<times> product list" where
  "product_page sw d pid =
     (case get_product d pid of
        None \<Rightarrow> Inl (HTTPException 404 ''Product not found'')
      | Some p \<Rightarrow>
          (case recommend_for_product sw d pid 4 of
             Inl e \<Rightarrow> Inl e
           | Inr recs \<Rightarrow> Inr (p, recs)))"

text \<open>The indices the loop may append: those of products other than the query.\<close>

definition candidates :: "product list \<Rightarrow> pid \<Rightarrow> nat list \<Rightarrow> nat list" where
  "candidates ps product_id js = filter (\<lambda>j. p_id (ps ! j) \<noteq> product_id) js"

subsection \<open>Lemmas: sorted index lists\<close>

lemma sorted_wrt_hd:
  "sorted_wrt P xs \<Longrightarrow> y \<in> set xs \<Longrightarrow> (\<forall>x\<in>set xs. x \<noteq> y \<longrightarrow> \<not> P x y) \<Longrightarrow> hd xs = y"
  by (cases xs) auto

lemma argsort_desc_set: "set (argsort_desc s) = {0..<length s}"
  by (simp add: argsort_desc_def)

lemma argsort_desc_distinct: "distinct (argsort_desc s)"
  by (simp add: argsort_desc_def)

lemma argsort_desc_sorted: "sorted_wrt (\<lambda>a b. s ! b \<le> s ! a) (argsort_desc s)"
proof -
  have "sorted (map (\<lambda>j. s ! j) (sort_key (\<lambda>j. s ! j) [0..<length s]))"
    by (rule sorted_sort_key)
  then show ?thesis by (simp add: argsort_desc_def sorted_map sorted_wrt_rev)
qed

subsection \<open>Lemmas: the index map\<close>

lemma idx_map_Some: "idx_map ps pid = Some i \<Longrightarrow> i < length ps \<and> p_id (ps ! i) = pid"
  by (auto simp: idx_map_def set_zip dest!: map_of_SomeD)

lemma idx_map_None: "idx_map ps pid = None \<longleftrightarrow> pid \<notin> set (map p_id ps)"
  unfolding idx_map_def map_of_eq_None_iff set_rev by (simp flip: set_map)

subsection \<open>Lemmas: the selection loop\<close>

lemma pick_prefix:
  "int (length out) < n \<Longrightarrow>
   pick ps product_id n js out =
     out @ map (\<lambda>j. ps ! j) (take (nat n - length out) (candidates ps product_id js))"
proof (induction js arbitrary: out)
  case Nil
  then show ?case by (simp add: candidates_def)
next
  case (Cons j js)
  have m: "nat n - length out = Suc (nat n - Suc (length out))"
    using Cons.prems by linarith
  show ?case
  proof (cases "p_id (ps ! j) \<noteq> product_id")
    case cand: True
    show ?thesis
    proof (cases "n \<le> int (length out) + 1")
      case True
      then have "nat n - Suc (length out) = 0" by linarith
      with cand m True show ?thesis by (simp add: candidates_def)
    next
      case False
      with Cons.IH [of "out @ [ps ! j]"] cand m show ?thesis by (simp add: candidates_def)
    qed
  next
    case False
    with Cons.IH [of out] Cons.prems show ?thesis by (simp add: candidates_def)
  qed
qed

lemma pick_nonpos:
  "n \<le> 0 \<Longrightarrow> pick ps product_id n js [] =
     (case js of [] \<Rightarrow> [] | j # _ \<Rightarrow> if p_id (ps ! j) \<noteq> product_id then [ps ! j] else [])"
  by (cases js) (simp_all add: Let_def)


lemma pick_take:
  "\<exists>m. pick ps product_id n js [] = map (\<lambda>j. ps ! j) (take m (candidates ps product_id js)) \<and>
       (0 < n \<longrightarrow> m = nat n) \<and> m \<le> max 1 (nat n)"
proof (cases "0 < n")
  case True
  then show ?thesis using pick_prefix [of "[]" n] by auto
next
  case False
  then show ?thesis
  proof (cases js)
    case Nil
    with False show ?thesis by (intro exI [of _ 0]) simp
  next
    case (Cons j js')
    show ?thesis
    proof (cases "p_id (ps ! j) \<noteq> product_id")
      case True
      with False Cons show ?thesis
        by (intro exI [of _ 1]) (simp add: pick_nonpos candidates_def)
    next
      case cand: False
      with False Cons show ?thesis
        by (intro exI [of _ 0]) (simp add: pick_nonpos)
    qed
  qed
qed

subsection \<open>Lemmas: the shape of a recommendation\<close>

lemma recommend_Inr:
  assumes "recommend_for_product sw d pid n = Inr out"
  shows "(idx_map (products d) pid = None \<and> out = py_take n (products d)) \<or>
         (\<exists>idx X. idx_map (products d) pid = Some idx \<and>
            fit_transform sw (map description (products d)) = Inr X \<and>
            out = pick (products d) pid n (argsort_desc (map (cosine (X ! idx)) X)) [])"
  using assms
  by (auto simp: recommend_for_product_def idx_map_def py_take_def Let_def
           split: if_splits sum.splits option.splits)

lemma recommend_Inl:
  "recommend_for_product sw d pid n = Inl e \<longleftrightarrow>
     products d \<noteq> [] \<and> fit_transform sw (map description (products d)) = Inl e"
  by (auto simp: recommend_for_product_def Let_def split: sum.splits option.splits)

lemma candidates_set:
  "set (candidates ps pid js) = {j \<in> set js. p_id (ps ! j) \<noteq> pid}"
  by (auto simp: candidates_def)

lemma candidates_sorted:
  "sorted_wrt (\<lambda>a b. s ! b \<le> s ! a) (candidates ps pid (argsort_desc s))"
  unfolding candidates_def by (intro sorted_wrt_filter argsort_desc_sorted)

lemma candidates_distinct: "distinct (candidates ps pid (argsort_desc s))"
  by (simp add: candidates_def argsort_desc_distinct)

lemma distinct_map_nth:
  assumes "distinct (map f xs)" "distinct is" "set is \<subseteq> {..<length xs}"
  shows "distinct (map (\<lambda>i. f (xs ! i)) is)"
proof -
  have "inj_on (\<lambda>i. f (xs ! i)) (set is)"
  proof (rule inj_onI)
    fix a b assume "a \<in> set is" "b \<in> set is" "f (xs ! a) = f (xs ! b)"
    with assms(3) show "a = b"
      using nth_eq_iff_index_eq [OF assms(1), of a b] by auto
  qed
  with assms(2) show ?thesis by (simp add: distinct_map)
qed

text \<open>The sorted similarity list has one entry per product.\<close>

lemma length_sims:
  "fit_transform sw (map description ps) = Inr X \<Longrightarrow> length (map (cosine (X ! idx)) X) = length ps"
  by (auto dest: fit_transform_Inr)

lemma recommend_pick_props:
  assumes "fit_transform sw (map description ps) = Inr X"
    and "out = pick ps pid n (argsort_desc (map (cosine (X ! idx)) X)) []"
  obtains m where "out = map (\<lambda>j. ps ! j) (take m (candidates ps pid (argsort_desc (map (cosine (X ! idx)) X))))"
    "0 < n \<Longrightarrow> m = nat n" "m \<le> max 1 (nat n)"
    "set (argsort_desc (map (cosine (X ! idx)) X)) = {0..<length ps}"
  using pick_take [of ps pid n] assms length_sims [OF assms(1)] argsort_desc_set by metis


lemma recommend_present:
  assumes "recommend_for_product sw d pid n = Inr out" "idx_map (products d) pid = Some idx"
  obtains X m ord where "fit_transform sw (map description (products d)) = Inr X"
    "ord = argsort_desc (map (cosine (X ! idx)) X)"
    "out = map (\<lambda>j. products d ! j) (take m (candidates (products d) pid ord))"
    "0 < n \<Longrightarrow> m = nat n" "m \<le> max 1 (nat n)"
    "set ord = {0..<length (products d)}" "distinct ord"
proof -
  obtain X where X: "fit_transform sw (map description (products d)) = Inr X"
    and out: "out = pick (products d) pid n (argsort_desc (map (cosine (X ! idx)) X)) []"
    using recommend_Inr [OF assms(1)] assms(2) by auto
  from recommend_pick_props [OF X out] that X argsort_desc_distinct show ?thesis by metis
qed

text \<open>What a prefix of the candidates contains.\<close>

lemma take_candidates_ids:
  assumes "set js = {0..<length ps}" "distinct js"
  shows "pid \<notin> set (map p_id (map (\<lambda>j. ps ! j) (take m (candidates ps pid js))))"
    and "distinct (map p_id ps) \<Longrightarrow> distinct (map p_id (map (\<lambda>j. ps ! j) (take m (candidates ps pid js))))"
proof -
  show "pid \<notin> set (map p_id (map (\<lambda>j. ps ! j) (take m (candidates ps pid js))))"
    by (auto simp: candidates_set dest: in_set_takeD)
  assume "distinct (map p_id ps)"
  moreover have "distinct (take m (candidates ps pid js))"
    using assms(2) by (simp add: candidates_def)
  moreover have "set (take m (candidates ps pid js)) \<subseteq> {..<length (map p_id ps)}"
    using assms(1) by (auto simp: candidates_set dest: in_set_takeD)
  ultimately show "distinct (map p_id (map (\<lambda>j. ps ! j) (take m (candidates ps pid js))))"
    using distinct_map_nth [of p_id ps] by (simp add: comp_def)
qed

lemma length_candidates:
  assumes "distinct (map p_id ps)" "idx < length ps" "p_id (ps ! idx) = pid"
    and "distinct js" "set js = {0..<length ps}"
  shows "length (candidates ps pid js) = length ps - 1"
proof -
  have key: "p_id (ps ! j) = pid \<longleftrightarrow> j = idx" if "j < length ps" for j
    using nth_eq_iff_index_eq [OF assms(1), of j idx] assms(2,3) that by auto
  have "{j. p_id (ps ! j) \<noteq> pid} \<inter> set js = {0..<length ps} - {idx}"
  proof (rule set_eqI)
    fix j
    show "j \<in> {j. p_id (ps ! j) \<noteq> pid} \<inter> set js \<longleftrightarrow> j \<in> {0..<length ps} - {idx}"
      using key [of j] assms(5) by auto
  qed
  with assms(2,4) show ?thesis
    by (simp add: candidates_def distinct_length_filter)
qed

lemma products_wf_nth_eq:
  "products_wf d \<Longrightarrow> j < length (products d) \<Longrightarrow> k < length (products d) \<Longrightarrow>
   products d ! j = products d ! k \<Longrightarrow> j = k"
  using nth_eq_iff_index_eq [of "map p_id (products d)" j k] by (simp add: products_wf_def)

lemma idx_map_wf:
  "products_wf d \<Longrightarrow> x < length (products d) \<Longrightarrow> idx_map (products d) (p_id (products d ! x)) = Some x"
  using idx_map_None [of "products d" "p_id (products d ! x)"] idx_map_Some [of "products d"]
    nth_eq_iff_index_eq [of "map p_id (products d)"]
  by (cases "idx_map (products d) (p_id (products d ! x))") (auto simp: products_wf_def)

lemma recommend_Inr_ex:
  "concat (map (\<lambda>p. analyze sw (description p)) (products d)) \<noteq> [] \<Longrightarrow>
   \<exists>out. recommend_for_product sw d pid n = Inr out"
proof (cases "recommend_for_product sw d pid n")
  case (Inl e)
  moreover assume "concat (map (\<lambda>p. analyze sw (description p)) (products d)) \<noteq> []"
  ultimately show ?thesis
    using fit_transform_ok [of sw "map description (products d)"] recommend_Inl [of sw d pid n e]
    by (auto simp: comp_def)
qed simp

subsection \<open>Properties of the recommender\<close>


text \<open>C8: a recommendation never contains the query product.\<close>

theorem recommend_excludes_query:
  assumes "recommend_for_product sw d pid n = Inr out"
  shows "pid \<notin> set (map p_id out)"
proof (cases "idx_map (products d) pid")
  case None
  with recommend_Inr [OF assms] have "out = py_take n (products d)" by simp
  with None show ?thesis using set_py_take [of n "products d"] by (auto simp: idx_map_None)
next
  case (Some idx)
  obtain X m ord where "out = map (\<lambda>j. products d ! j) (take m (candidates (products d) pid ord))"
    "set ord = {0..<length (products d)}" "distinct ord"
    using recommend_present [OF assms Some] by metis
  then show ?thesis using take_candidates_ids(1) by metis
qed


text \<open>C9: for \<open>n \<ge> 1\<close> a recommendation holds at most \<open>n\<close> products, no two with
  the same id.\<close>

theorem recommend_at_most_n:
  assumes "products_wf d" "0 < n" "recommend_for_product sw d pid n = Inr out"
  shows "length out \<le> nat n \<and> distinct (map p_id out)"
proof (cases "idx_map (products d) pid")
  case None
  with recommend_Inr [OF assms(3)] assms(2) have "out = take (nat n) (products d)"
    by (simp add: py_take_def)
  with assms(1) show ?thesis by (simp add: products_wf_def take_map [symmetric])
next
  case (Some idx)
  obtain X m ord where out: "out = map (\<lambda>j. products d ! j) (take m (candidates (products d) pid ord))"
    and m: "0 < n \<Longrightarrow> m = nat n"
    and ord: "set ord = {0..<length (products d)}" "distinct ord"
    using recommend_present [OF assms(3) Some] by metis
  have "length out \<le> nat n" using out m assms(2) by simp
  moreover have "distinct (map p_id out)"
    using take_candidates_ids(2) [OF ord] assms(1) out by (simp add: products_wf_def)
  ultimately show ?thesis ..
qed

text \<open>C33: when the query product is in the catalog and \<open>n \<ge> 1\<close>, the
  recommendation has \<open>n\<close> products, or all the other products when there are
  fewer.\<close>

theorem recommend_count:
  assumes "products_wf d" "0 < n" "pid \<in> set (map p_id (products d))"
    and "recommend_for_product sw d pid n = Inr out"
  shows "length out = min (nat n) (length (products d) - 1)"
proof -
  obtain idx where idx: "idx_map (products d) pid = Some idx"
    using assms(3) idx_map_None by fastforce
  obtain X m ord where out: "out = map (\<lambda>j. products d ! j) (take m (candidates (products d) pid ord))"
    and m: "0 < n \<Longrightarrow> m = nat n"
    and ord: "set ord = {0..<length (products d)}" "distinct ord"
    using recommend_present [OF assms(4) idx] by metis
  have "length (candidates (products d) pid ord) = length (products d) - 1"
    using length_candidates [of "products d" idx pid ord] idx_map_Some [OF idx] assms(1) ord
    by (simp add: products_wf_def)
  with out m assms(2) show ?thesis by (simp add: min.commute)
qed


text \<open>C10: the recommendation is the top of the ranking: a candidate left out is no
  more similar to the query than any product returned.\<close>

theorem recommend_ranking:
  assumes "products_wf d" "recommend_for_product sw d pid n = Inr out"
    and "idx_map (products d) pid = Some idx"
    and "fit_transform sw (map description (products d)) = Inr X"
    and "j < length (products d)" "k < length (products d)"
    and "products d ! j \<in> set out" "products d ! k \<notin> set out" "p_id (products d ! k) \<noteq> pid"
  shows "cosine (X ! idx) (X ! k) \<le> cosine (X ! idx) (X ! j)"
proof -
  let ?s = "map (cosine (X ! idx)) X"
  obtain X' m ord where X': "fit_transform sw (map description (products d)) = Inr X'"
    and ordd: "ord = argsort_desc (map (cosine (X' ! idx)) X')"
    and out: "out = map (\<lambda>j. products d ! j) (take m (candidates (products d) pid ord))"
    and ord: "set ord = {0..<length (products d)}"
    using recommend_present [OF assms(2,3)] by metis
  have ordX: "ord = argsort_desc ?s" using X' assms(4) ordd by simp
  let ?cs = "candidates (products d) pid ord"
  have j: "j \<in> set (take m ?cs)"
  proof -
    from assms(7) out obtain j' where j': "j' \<in> set (take m ?cs)" "products d ! j' = products d ! j"
      by auto
    then have "j' < length (products d)"
      using ord by (auto simp: candidates_set dest: in_set_takeD)
    with j' products_wf_nth_eq [OF assms(1) _ assms(5)] show ?thesis by metis
  qed
  have k: "k \<in> set (drop m ?cs)"
  proof -
    have "k \<in> set ?cs" using assms(6,9) ord by (simp add: candidates_set)
    moreover have "k \<notin> set (take m ?cs)" using assms(8) out by auto
    ultimately show ?thesis by (metis UnE append_take_drop_id set_append)
  qed
  have "?s ! k \<le> ?s ! j"
    using sorted_wrt_take_drop [OF candidates_sorted [of ?s "products d" pid, folded ordX] j k] .
  moreover have "length X = length (products d)"
    using length_sims [OF assms(4)] by simp
  ultimately show ?thesis using assms(5,6) by simp
qed


text \<open>C32: the scenario of the specification, in general form: when the query
  product \<open>x\<close> shares a term with \<open>y\<close> and with no other product, \<open>y\<close> comes
  first in its recommendation.\<close>

theorem recommend_shared_first:
  assumes "products_wf d" "0 < n" "x < length (products d)" "y < length (products d)" "x \<noteq> y"
    and "t \<in> set (analyze sw (description (products d ! x)))"
    and "t \<in> set (analyze sw (description (products d ! y)))"
    and "\<forall>k<length (products d). k \<noteq> x \<longrightarrow> k \<noteq> y \<longrightarrow>
           set (analyze sw (description (products d ! x))) \<inter>
           set (analyze sw (description (products d ! k))) = {}"
  shows "\<exists>out. recommend_for_product sw d (p_id (products d ! x)) n = Inr out \<and>
           out \<noteq> [] \<and> hd out = products d ! y"
proof -
  let ?ps = "products d" and ?pid = "p_id (products d ! x)"
  have "t \<in> set (concat (map (analyze sw) (map description ?ps)))"
    using nth_mem [OF assms(3)] assms(6) by auto
  then have "concat (map (analyze sw) (map description ?ps)) \<noteq> []" by (metis empty_iff empty_set)
  then obtain X where X: "fit_transform sw (map description ?ps) = Inr X"
    using fit_transform_ok by blast
  let ?s = "map (cosine (X ! x)) X"
  let ?cs = "candidates ?ps ?pid (argsort_desc ?s)"
  have len: "length X = length ?ps" using length_sims [OF X] by simp
  have rec: "recommend_for_product sw d ?pid n = Inr (pick ?ps ?pid n (argsort_desc ?s) [])"
    using X idx_map_wf [OF assms(1,3)] assms(3)
    by (auto simp: recommend_for_product_def Let_def)
  have ne: "?pid \<noteq> p_id (?ps ! k)" if "k < length ?ps" "k \<noteq> x" for k
    using products_wf_nth_eq [OF assms(1) assms(3) that(1)] that(2) assms(1)
      nth_eq_iff_index_eq [of "map p_id ?ps" x k] assms(3) that(1) by (auto simp: products_wf_def)
  have y: "y \<in> set ?cs"
    using ne [OF assms(4)] assms(4,5) len by (auto simp: candidates_set argsort_desc_set)
  have sy: "0 < ?s ! y"
    using row_cosine_shared [OF X, of x y t] assms(3,4,6,7) len by simp
  have "\<not> ?s ! y \<le> ?s ! c" if "c \<in> set ?cs" "c \<noteq> y" for c
  proof -
    have c: "c < length ?ps" "c \<noteq> x"
      using that(1) len by (auto simp: candidates_set argsort_desc_set)
    then have "?s ! c = 0"
      using row_cosine_disjoint [OF X, of x c] assms(3,8) that(2) len by simp
    with sy show ?thesis by simp
  qed
  then have hd: "hd ?cs = y"
    using sorted_wrt_hd [OF candidates_sorted y] by blast
  obtain m where "pick ?ps ?pid n (argsort_desc ?s) [] = map (\<lambda>j. ?ps ! j) (take m ?cs)" "m = nat n"
    using pick_take [of ?ps ?pid n "argsort_desc ?s"] assms(2) by auto
  with rec hd y assms(2) show ?thesis
    by (cases ?cs) (auto simp: hd_map)
qed


text \<open>C34: the recommender raises exactly when the catalog is non-empty and no
  description has a term outside the stop words; the error is the vectorizer's
  \<open>ValueError\<close>, raised also when the query product is not in the catalog.\<close>

theorem recommend_error_iff:
  "recommend_for_product sw d pid n = Inl e \<longleftrightarrow>
     products d \<noteq> [] \<and> concat (map (\<lambda>p. analyze sw (description p)) (products d)) = [] \<and>
     e = ValueError ''empty vocabulary; perhaps the documents only contain stop words''"
  unfolding recommend_Inl
  by (auto simp: fit_transform_def vocabulary_Nil_iff Let_def comp_def)

text \<open>For a query product that is not in the catalog the recommender returns
  the slice \<open>products[:n]\<close> of the catalog in storage order.\<close>

theorem recommend_fallback:
  assumes "pid \<notin> set (map p_id (products d))" "recommend_for_product sw d pid n = Inr out"
  shows "out = py_take n (products d)"
proof -
  have "idx_map (products d) pid = None" using assms(1) by (simp add: idx_map_None)
  with recommend_Inr [OF assms(2)] show ?thesis by simp
qed

text \<open>C35: for \<open>n \<le> 0\<close> the loop appends before it tests the length, so the
  first ranked index decides: the recommendation is empty when that index is
  the query's, and otherwise it is that one product, which is at least as
  similar to the query as every product, the query itself included. So a
  product is returned only on a tie at the top (another product as similar to
  the query as the query is to itself); when the query is strictly the most
  similar, the result is empty. Neither part depends on the order of ties.\<close>

theorem recommend_nonpositive_n:
  assumes "n \<le> 0" "recommend_for_product sw d pid n = Inr out"
    and "idx_map (products d) pid = Some idx"
    and "fit_transform sw (map description (products d)) = Inr X"
  shows "(out = [] \<or> (\<exists>j<length (products d). out = [products d ! j] \<and> p_id (products d ! j) \<noteq> pid \<and>
            (\<forall>k<length (products d). cosine (X ! idx) (X ! k) \<le> cosine (X ! idx) (X ! j)))) \<and>
         ((\<forall>k<length (products d). k \<noteq> idx \<longrightarrow> cosine (X ! idx) (X ! k) < cosine (X ! idx) (X ! idx)) \<longrightarrow>
            out = [])"
proof -
  let ?ps = "products d"
  let ?s = "map (cosine (X ! idx)) X"
  let ?ord = "argsort_desc ?s"
  have out: "out = pick ?ps pid n ?ord []"
    using recommend_Inr [OF assms(2)] assms(3,4) by auto
  have len: "length ?s = length ?ps" by (rule length_sims [OF assms(4)])
  have i: "idx < length ?ps" "p_id (?ps ! idx) = pid" using idx_map_Some [OF assms(3)] by auto
  have set_ord: "set ?ord = {0..<length ?ps}" using argsort_desc_set [of ?s] len by simp
  then obtain j0 rest where ord: "?ord = j0 # rest" using i(1) by (cases ?ord) auto
  have j0: "j0 < length ?ps" using set_ord ord by auto
  have top: "cosine (X ! idx) (X ! k) \<le> cosine (X ! idx) (X ! j0)" if "k < length ?ps" for k
  proof -
    have "k \<in> set ?ord" using set_ord that by simp
    then have "?s ! k \<le> ?s ! j0" using argsort_desc_sorted [of ?s] ord by auto
    then show ?thesis using that j0 len by simp
  qed
  have "out = (case ?ord of [] \<Rightarrow> [] | j # _ \<Rightarrow> if p_id (?ps ! j) \<noteq> pid then [?ps ! j] else [])"
    using out pick_nonpos [OF assms(1), of ?ps pid ?ord] by (simp only:)
  then have pick1: "out = (if p_id (?ps ! j0) \<noteq> pid then [?ps ! j0] else [])"
    by (simp only: ord list.case)
  have "out = [] \<or> (\<exists>j<length ?ps. out = [?ps ! j] \<and> p_id (?ps ! j) \<noteq> pid \<and>
            (\<forall>k<length ?ps. cosine (X ! idx) (X ! k) \<le> cosine (X ! idx) (X ! j)))"
    using pick1 j0 top by auto
  moreover have "out = []"
    if strict: "\<forall>k<length ?ps. k \<noteq> idx \<longrightarrow> cosine (X ! idx) (X ! k) < cosine (X ! idx) (X ! idx)"
  proof -
    have "j0 = idx" using strict top [OF i(1)] j0 by force
    then show ?thesis using pick1 i(2) by simp
  qed
  ultimately show ?thesis by blast
qed

end
