(* ===== verification/RecScenarios.thy ===== *)
theory RecScenarios
  imports Recs Seed
begin

text \<open>
  Concrete catalogs on which the recommender of theory \<open>Recs\<close> runs: the
  scenario of the specification (a query product sharing its vocabulary with one
  other product only), a catalog of identical descriptions (all similarities are 1,
  so the whole computation evaluates), and a catalog of stop words only. The
  stop-word list is a parameter of the model; these examples use short lists.
\<close>

definition rec_item :: "pid \<Rightarrow> string \<Rightarrow> product" where
  "rec_item i ds = (demo_product ''Item'' ds 10 5 1 ''img'')\<lparr>p_id := i\<rparr>"

text \<open>Product 1 shares the term \<open>camera\<close> with product 2 and no term with 3 or 4.\<close>

definition spec_db :: db where
  "spec_db = empty_db\<lparr>products := [rec_item 1 ''Drone with camera'', rec_item 2 ''Camera strap'',
                                   rec_item 3 ''Coffee mug'', rec_item 4 ''Sleep mask'']\<rparr>"

definition dup_db :: db where
  "dup_db = empty_db\<lparr>products := [rec_item 1 ''aa'', rec_item 2 ''aa'', rec_item 3 ''aa'']\<rparr>"

definition stop_db :: db where
  "stop_db = empty_db\<lparr>products := [rec_item 1 ''The'', rec_item 2 '''']\<rparr>"

lemmas analysis_simps = analyze_def tokenize_def is_word_char_def rec_item_def demo_product_def
  empty_db_def

lemmas eval_simps = analysis_simps recommend_for_product_def fit_transform_def vocabulary_def
  idx_map_def argsort_desc_def tfidf_row_def l2_normalize_def cosine_def dot_def idf_def
  doc_freq_def Let_def

lemma dup_db_matrix: "fit_transform [] (map description (products dup_db)) = Inr [[1], [1], [1]]"
  by (simp add: eval_simps dup_db_def)

lemma spec_db_ok:
  "concat (map (\<lambda>p. analyze [''with''] (description p)) (products spec_db)) \<noteq> []"
  by (simp add: analysis_simps spec_db_def)

lemma spec_db_wf: "products_wf spec_db"
  by (simp add: products_wf_def spec_db_def rec_item_def)


subsection \<open>Behaviour on concrete catalogs\<close>

text \<open>Asked for \<open>n = 0\<close> recommendations on a catalog of three identical
  descriptions, the recommender returns one product: the products tie with the
  query at the top of the ranking.\<close>

lemma dup_zero: "recommend_for_product [] dup_db 1 0 = Inr [rec_item 3 ''aa'']"
  by (simp add: eval_simps dup_db_def)

text \<open>When every description is a stop word or empty, the page of an existing
  product fails with the vectorizer's \<open>ValueError\<close>.\<close>

theorem product_page_stopwords_error:
  "product_page [''the''] stop_db 1 =
     Inl (ValueError ''empty vocabulary; perhaps the documents only contain stop words'')"
  by (simp add: eval_simps product_page_def get_product_def stop_db_def)

text \<open>For an unknown query product and a negative \<open>n\<close> the fallback slice
  \<open>products[:n]\<close> drops products from the end: \<open>n = -1\<close> returns two products.\<close>

theorem recommend_negative_n:
  "recommend_for_product [] dup_db 9 (-1) = Inr [rec_item 1 ''aa'', rec_item 2 ''aa'']"
  by (simp add: eval_simps dup_db_def py_take_def)

subsection \<open>The vectorizer and the recommender at concrete inputs\<close>

theorem recommend_excludes_query_witness:
  "\<exists>out. recommend_for_product [''with''] spec_db 1 4 = Inr out \<and> 1 \<notin> set (map p_id out)"
proof -
  obtain out where out: "recommend_for_product [''with''] spec_db 1 4 = Inr out"
    using recommend_Inr_ex [OF spec_db_ok] by blast
  show ?thesis using out recommend_excludes_query [OF out] by blast
qed

theorem recommend_at_most_n_witness:
  "\<exists>out. recommend_for_product [''with''] spec_db 1 2 = Inr out \<and>
         length out \<le> 2 \<and> distinct (map p_id out)"
proof -
  obtain out where out: "recommend_for_product [''with''] spec_db 1 2 = Inr out"
    using recommend_Inr_ex [OF spec_db_ok] by blast
  show ?thesis using out recommend_at_most_n [OF spec_db_wf _ out] by simp
qed

theorem recommend_count_witness:
  "\<exists>out. recommend_for_product [''with''] spec_db 1 4 = Inr out \<and> length out = 3"
proof -
  obtain out where out: "recommend_for_product [''with''] spec_db 1 4 = Inr out"
    using recommend_Inr_ex [OF spec_db_ok] by blast
  have "1 \<in> set (map p_id (products spec_db))" by (simp add: spec_db_def rec_item_def)
  then show ?thesis using out recommend_count [OF spec_db_wf _ _ out]
    by (simp add: spec_db_def)
qed

theorem recommend_ranking_witness:
  "recommend_for_product [] dup_db 1 1 = Inr [rec_item 3 ''aa''] \<and>
   cosine ([[1], [1], [1]] ! 0) ([[1], [1], [1]] ! 1) \<le> cosine ([[1], [1], [1]] ! 0) ([[1], [1], [1]] ! (2::nat))"
proof -
  have wf: "products_wf dup_db" by (simp add: products_wf_def dup_db_def rec_item_def)
  have r: "recommend_for_product [] dup_db 1 1 = Inr [rec_item 3 ''aa'']"
    by (simp add: eval_simps dup_db_def)
  have i: "idx_map (products dup_db) 1 = Some 0"
    by (simp add: idx_map_def dup_db_def rec_item_def)
  have "cosine ([[1], [1], [1]] ! 0) ([[1], [1], [1]] ! 1) \<le> cosine ([[1], [1], [1]] ! 0) ([[1], [1], [1]] ! (2::nat))"
    using recommend_ranking [OF wf r i dup_db_matrix, of 2 1]
    by (simp add: dup_db_def rec_item_def demo_product_def)
  with r show ?thesis by simp
qed

theorem recommend_shared_first_witness:
  "\<exists>out. recommend_for_product [''with''] spec_db 1 4 = Inr out \<and>
         out \<noteq> [] \<and> hd out = rec_item 2 ''Camera strap''"
  using recommend_shared_first [OF spec_db_wf, of 4 0 1 "''camera''" "[''with'']"]
  by (simp add: analysis_simps spec_db_def less_Suc_eq)

theorem recommend_fallback_witness:
  "\<exists>out. recommend_for_product [''with''] spec_db 9 2 = Inr out \<and>
         out = [rec_item 1 ''Drone with camera'', rec_item 2 ''Camera strap'']"
proof -
  obtain out where out: "recommend_for_product [''with''] spec_db 9 2 = Inr out"
    using recommend_Inr_ex [OF spec_db_ok] by blast
  have "9 \<notin> set (map p_id (products spec_db))" by (simp add: spec_db_def rec_item_def)
  then show ?thesis using out recommend_fallback [OF _ out]
    by (simp add: spec_db_def py_take_def)
qed

theorem recommend_nonpositive_n_witness:
  "(0::int) \<le> 0 \<and> recommend_for_product [] dup_db 1 0 = Inr [rec_item 3 ''aa''] \<and>
   idx_map (products dup_db) 1 = Some 0 \<and>
   fit_transform [] (map description (products dup_db)) = Inr [[1], [1], [1]] \<and>
   [rec_item 3 ''aa''] = [products dup_db ! 2] \<and> p_id (products dup_db ! 2) \<noteq> 1 \<and>
   cosine ([[1], [1], [1]] ! 0) ([[1], [1], [1]] ! 0) \<le> cosine ([[1], [1], [1]] ! 0) ([[1], [1], [1]] ! 2)"
proof -
  have n: "(0::int) \<le> 0" by simp
  have i: "idx_map (products dup_db) 1 = Some 0"
    by (simp add: idx_map_def dup_db_def rec_item_def)
  have r: "(out = [] \<or> (\<exists>j<length (products dup_db). out = [products dup_db ! j] \<and>
              p_id (products dup_db ! j) \<noteq> 1 \<and>
              (\<forall>k<length (products dup_db). cosine ([[1], [1], [1]] ! 0) ([[1], [1], [1]] ! k) \<le>
                 cosine ([[1], [1], [1]] ! 0) ([[1], [1], [1]] ! j))))"
    if "out = [rec_item 3 ''aa'']" for out
    using recommend_nonpositive_n [OF n _ i dup_db_matrix, of out] dup_zero that by blast
  have "cosine ([[1], [1], [1]] ! 0) ([[1], [1], [1]] ! 0) \<le> cosine ([[1], [1], [1]] ! 0) ([[1], [1], [1]] ! 2)"
    using r [OF refl] by (auto simp: dup_db_def rec_item_def demo_product_def less_Suc_eq)
  then show ?thesis using dup_zero i dup_db_matrix
    by (simp add: dup_db_def rec_item_def demo_product_def)
qed

end
