(* ===== verification/PyLib.thy ===== *)
theory PyLib
  imports Models
begin

text \<open>
  The Python builtins and standard-library functions the handlers call on
  text, as the CPython implementation defines them. Strings are byte lists
  (UTF-8 encoded); the functions below act on ASCII exactly.
  \<^item> \<open>py_strip\<close> is \<open>str.strip()\<close> on ASCII whitespace (tab, line feed, vertical
    tab, form feed, carriage return, the separators 0x1C--0x1F, space).
  \<^item> \<open>py_int\<close> is \<open>int(s)\<close> for a string \<open>s\<close>: surrounding whitespace, an
    optional sign, decimal digits with single underscores between them
    (leading zeros allowed). Any other string raises \<open>ValueError\<close> (the
    message is shortened: CPython appends the \<open>repr\<close> of the input).
  \<^item> \<open>py_str_int\<close> is \<open>str(n)\<close> for an integer.
  \<^item> \<open>py_float\<close> is \<open>float(s)\<close> on decimal literals; \<open>py_decode\<close> is
    \<open>bytes.decode("utf-8")\<close>; \<open>py_splitlines\<close> is \<open>str.splitlines()\<close>;
    \<open>csv_reader\<close> is the reader of the \<open>csv\<close> module with the default
    dialect, \<open>dict_reader\<close> is \<open>csv.DictReader\<close> and \<open>py_get\<close> is
    \<open>dict.get\<close> on its rows.
  \<^item> \<open>csv_text\<close> is what \<open>csv.writer\<close> with minimal quoting writes; the program
    never writes CSV, and the writer serves as the inverse in the round trip
    \<open>csv_roundtrip\<close> of the reader.
  Non-ASCII whitespace and non-ASCII decimal digits, which CPython also
  accepts in \<open>int()\<close>, are not modelled: the model raises \<open>ValueError\<close> on them.
\<close>

subsection \<open>Characters\<close>

definition is_digit :: "char \<Rightarrow> bool" where
  "is_digit c \<longleftrightarrow> 48 \<le> (of_char c :: nat) \<and> (of_char c :: nat) \<le> 57"

definition digit_val :: "char \<Rightarrow> nat" where
  "digit_val c = (of_char c :: nat) - 48"

definition digit_char :: "nat \<Rightarrow> char" where
  "digit_char n = ''0123456789'' ! n"

definition is_space :: "char \<Rightarrow> bool" where
  "is_space c \<longleftrightarrow> (let k = (of_char c :: nat) in (9 \<le> k \<and> k \<le> 13) \<or> (28 \<le> k \<and> k \<le> 32))"

definition py_strip :: "string \<Rightarrow> string" where
  "py_strip s = rev (dropWhile is_space (rev (dropWhile is_space s)))"

text \<open>An optional sign in front of a number.\<close>

definition py_sign :: "string \<Rightarrow> int \<times> string" where
  "py_sign t = (case t of
                  c # cs \<Rightarrow> if c = CHR ''-'' then (-1, cs) else if c = CHR ''+'' then (1, cs) else (1, t)
                | [] \<Rightarrow> (1, []))"

subsection \<open>\<open>int()\<close> and \<open>str()\<close> on integers\<close>

text \<open>Digits with single underscores between them, as \<open>int()\<close> accepts them.\<close>

fun valid_digits :: "string \<Rightarrow> bool" where
  "valid_digits [] = False"
| "valid_digits (c # cs) =
     (is_digit c \<and> (case cs of [] \<Rightarrow> True
                   | d # ds \<Rightarrow> if d = CHR ''_'' then valid_digits ds else valid_digits cs))"

definition digits_value :: "string \<Rightarrow> nat" where
  "digits_value ds = foldl (\<lambda>acc c. 10 * acc + digit_val c) 0 (filter (\<lambda>c. c \<noteq> CHR ''_'') ds)"

definition py_int :: "string \<Rightarrow> error + int" where
  "py_int s =
     (let (sg, ds) = py_sign (py_strip s)
      in if valid_digits ds then Inr (sg * int (digits_value ds))
         else Inl (ValueError ''invalid literal for int() with base 10''))"

fun nat_str :: "nat \<Rightarrow> string" where
  "nat_str n = (if n < 10 then [digit_char n] else nat_str (n div 10) @ [digit_char (n mod 10)])"

declare nat_str.simps [simp del]

definition py_str_int :: "int \<Rightarrow> string" where
  "py_str_int i = (if i < 0 then CHR ''-'' # nat_str (nat (- i)) else nat_str (nat i))"

subsection \<open>\<open>float()\<close> on decimal literals\<close>

text \<open>
  \<open>float(s)\<close>: surrounding whitespace, an optional sign, a mantissa
  \<open>digits[.digits]\<close> or \<open>.digits\<close>, an optional exponent \<open>e[sign]digits\<close>;
  digit groups may hold single underscores. The value is exact (floats are
  reals in this development). The literals \<open>inf\<close>, \<open>infinity\<close> and
  \<open>nan\<close>, which CPython accepts, have no real value: the model raises
  \<open>ValueError\<close> on them.
\<close>

definition is_exp_mark :: "char \<Rightarrow> bool" where
  "is_exp_mark c \<longleftrightarrow> c = CHR ''e'' \<or> c = CHR ''E''"

definition py_exponent :: "string \<Rightarrow> int option" where
  "py_exponent r = (case r of
                      [] \<Rightarrow> Some 0
                    | _ # es \<Rightarrow> (let (sg, ds) = py_sign es
                                in if valid_digits ds then Some (sg * int (digits_value ds)) else None))"

definition py_mantissa :: "string \<Rightarrow> (nat \<times> nat) option" where
  "py_mantissa m =
     (let ip = takeWhile (\<lambda>c. c \<noteq> CHR ''.'') m; r = dropWhile (\<lambda>c. c \<noteq> CHR ''.'') m
      in if r = [] then (if valid_digits ip then Some (digits_value ip, 0) else None)
         else (let fp = tl r
               in if (ip = [] \<or> valid_digits ip) \<and> (fp = [] \<or> valid_digits fp) \<and> \<not> (ip = [] \<and> fp = [])
                  then Some (digits_value (ip @ fp), length (filter (\<lambda>c. c \<noteq> CHR ''_'') fp))
                  else None))"

definition py_float :: "string \<Rightarrow> error + real" where
  "py_float s =
     (let (sg, b) = py_sign (py_strip s);
          m = takeWhile (\<lambda>c. \<not> is_exp_mark c) b; r = dropWhile (\<lambda>c. \<not> is_exp_mark c) b
      in case (py_mantissa m, py_exponent r) of
           (Some (v, k), Some e) \<Rightarrow>
             Inr (of_int sg * real v / 10 ^ k * (if 0 \<le> e then 10 ^ nat e else 1 / 10 ^ nat (- e)))
         | _ \<Rightarrow> Inl (ValueError ''could not convert string to float''))"

subsection \<open>Decoding, lines and CSV\<close>

text \<open>
  \<open>bytes.decode("utf-8")\<close> accepts exactly the well-formed UTF-8 sequences
  (Unicode table 3-7) and raises \<open>UnicodeDecodeError\<close> otherwise; the text
  keeps its UTF-8 bytes. \<open>utf8_len\<close> is the length of the sequence a lead
  byte starts and \<open>utf8_second\<close> the range of its second byte.
\<close>

definition in_range :: "nat \<Rightarrow> nat \<Rightarrow> char \<Rightarrow> bool" where
  "in_range lo hi c \<longleftrightarrow> lo \<le> (of_char c :: nat) \<and> (of_char c :: nat) \<le> hi"

definition utf8_len :: "char \<Rightarrow> nat" where
  "utf8_len c = (let b = (of_char c :: nat) in
     if b < 128 then 1 else if 194 \<le> b \<and> b \<le> 223 then 2 else if 224 \<le> b \<and> b \<le> 239 then 3
     else if 240 \<le> b \<and> b \<le> 244 then 4 else 0)"

definition utf8_second :: "char \<Rightarrow> nat \<times> nat" where
  "utf8_second c = (let b = (of_char c :: nat) in
     if b = 224 then (160, 191) else if b = 237 then (128, 159)
     else if b = 240 then (144, 191) else if b = 244 then (128, 143) else (128, 191))"

function utf8_valid :: "string \<Rightarrow> bool" where
  "utf8_valid [] = True"
| "utf8_valid (c # cs) =
     (let n = utf8_len c
      in n \<noteq> 0 \<and> n - 1 \<le> length cs \<and>
         (n = 1 \<or> (in_range (fst (utf8_second c)) (snd (utf8_second c)) (hd cs) \<and>
                   (\<forall>d\<in>set (take (n - 2) (tl cs)). in_range 128 191 d))) \<and>
         utf8_valid (drop (n - 1) cs))"
  by pat_completeness auto
termination
  by (relation "measure length") auto

definition py_decode :: "string \<Rightarrow> error + string" where
  "py_decode s = (if utf8_valid s then Inr s else Inl UnicodeDecodeError)"

text \<open>
  \<open>str.splitlines()\<close>: the line boundaries are LF, CR, CR LF, VT, FF, the
  separators 0x1C--0x1E, and U+0085, U+2028, U+2029 (whose UTF-8 bytes are
  matched); the boundaries are dropped and a last empty line is not kept.
  \<open>line_break_len\<close> is the length of the boundary a text starts with.
\<close>

definition line_break_len :: "string \<Rightarrow> nat" where
  "line_break_len s = (case s of
       [] \<Rightarrow> 0
     | c # cs \<Rightarrow>
         (let b = (of_char c :: nat) in
          if b = 13 then (if take 1 cs = [CHR 0x0A] then 2 else 1)
          else if b \<in> {10, 11, 12, 28, 29, 30} then 1
          else if b = 194 \<and> take 1 cs = [CHR 0x85] then 2
          else if b = 226 \<and> (take 2 cs = [CHR 0x80, CHR 0xA8] \<or> take 2 cs = [CHR 0x80, CHR 0xA9]) then 3
          else 0))"

function split_lines :: "string \<Rightarrow> string \<Rightarrow> string list" where
  "split_lines [] cur = (if cur = [] then [] else [cur])"
| "split_lines (c # cs) cur =
     (let k = line_break_len (c # cs)
      in if k = 0 then split_lines cs (cur @ [c]) else cur # split_lines (drop k (c # cs)) [])"
  by pat_completeness auto
termination
  by (relation "measure (\<lambda>(s, _). length s)") auto

definition py_splitlines :: "string \<Rightarrow> string list" where
  "py_splitlines s = split_lines s []"

text \<open>
  The reader of the \<open>csv\<close> module with the default dialect (delimiter
  \<open>,\<close>, quote character \<open>"\<close>, doubled quotes, not strict), as its C state
  machine \<open>parse_process_char\<close> runs over the lines it is given. A line from
  \<open>splitlines\<close> holds no CR or LF, so the states for line ends inside a line
  never arise. At the end of a line a quoted field continues on the next line
  (with no separator, since the lines carry no line end); otherwise the field
  is saved and the record ends. At the end of the input a pending quoted field
  is saved. Fields longer than the field size limit (131072) are not modelled.
\<close>

datatype csv_state = StartRecord | StartField | InField | InQuotedField | QuoteInQuotedField

fun csv_char :: "csv_state \<times> string \<times> string list \<Rightarrow> char \<Rightarrow> csv_state \<times> string \<times> string list" where
  "csv_char (st, fld, fs) c =
     (case st of
        InField \<Rightarrow> if c = CHR '','' then (StartField, [], fs @ [fld]) else (InField, fld @ [c], fs)
      | InQuotedField \<Rightarrow> if c = CHR 0x22 then (QuoteInQuotedField, fld, fs) else (InQuotedField, fld @ [c], fs)
      | QuoteInQuotedField \<Rightarrow>
          if c = CHR 0x22 then (InQuotedField, fld @ [c], fs)
          else if c = CHR '','' then (StartField, [], fs @ [fld]) else (InField, fld @ [c], fs)
      | _ \<Rightarrow> if c = CHR 0x22 then (InQuotedField, fld, fs)
             else if c = CHR '','' then (StartField, [], fs @ [fld]) else (InField, fld @ [c], fs))"

text \<open>The end of a line: the record it completes, or the state to go on with.\<close>

definition csv_eol :: "csv_state \<times> string \<times> string list \<Rightarrow> string list option" where
  "csv_eol x = (case x of
                  (StartRecord, _, fs) \<Rightarrow> Some fs
                | (InQuotedField, _, _) \<Rightarrow> None
                | (_, fld, fs) \<Rightarrow> Some (fs @ [fld]))"

fun csv_read :: "csv_state \<times> string \<times> string list \<Rightarrow> string list \<Rightarrow> string list list" where
  "csv_read (st, fld, fs) [] =
     (if st = InQuotedField \<or> fld \<noteq> [] then [fs @ [fld]] else [])"
| "csv_read x (l # ls) =
     (let y = foldl csv_char x l
      in case csv_eol y of
           Some r \<Rightarrow> r # csv_read (StartRecord, [], []) ls
         | None \<Rightarrow> csv_read y ls)"

definition csv_reader :: "string list \<Rightarrow> string list list" where
  "csv_reader ls = csv_read (StartRecord, [], []) ls"

text \<open>
  \<open>csv.DictReader\<close>: the first record names the fields; every later record
  that is not empty becomes a dict. A key of the header maps to the record's
  value at its last position (\<open>dict(zip(...))\<close>); the keys past the end of a
  short record map to \<open>None\<close> (\<open>restval\<close>), written after the zip. A row is a
  function from keys to \<open>None\<close> (absent), \<open>Some None\<close>, or \<open>Some (Some v)\<close>;
  the extra values of a long record go to the key \<open>None\<close> (\<open>restkey\<close>),
  which no string lookup reaches and the model leaves out.
\<close>

type_synonym csv_row = "string \<Rightarrow> string option option"

definition mk_dict :: "string list \<Rightarrow> string list \<Rightarrow> csv_row" where
  "mk_dict hdr r k =
     (if k \<in> set (drop (length r) hdr) then Some None
      else map_option Some (map_of (rev (zip hdr r)) k))"

definition dict_reader :: "string list \<Rightarrow> csv_row list" where
  "dict_reader ls = (case csv_reader ls of
                       [] \<Rightarrow> []
                     | hdr # rs \<Rightarrow> map (mk_dict hdr) (filter (\<lambda>r. r \<noteq> []) rs))"

text \<open>\<open>row.get(k, default)\<close>.\<close>

definition py_get :: "csv_row \<Rightarrow> string \<Rightarrow> string option \<Rightarrow> string option" where
  "py_get row k dflt = (case row k of None \<Rightarrow> dflt | Some v \<Rightarrow> v)"

text \<open>
  The writer side, \<open>csv.writer\<close> with the default dialect as it writes a
  record: a field holding the delimiter or the quote character is quoted with
  its quotes doubled, a record of one empty field is written \<open>""\<close>, and
  each record ends a line.
\<close>

definition csv_field :: "string \<Rightarrow> string" where
  "csv_field f =
     (if CHR '','' \<in> set f \<or> CHR 0x22 \<in> set f
      then CHR 0x22 # concat (map (\<lambda>c. if c = CHR 0x22 then [c, c] else [c]) f) @ [CHR 0x22]
      else f)"

fun csv_join :: "string list \<Rightarrow> string" where
  "csv_join [] = []"
| "csv_join [f] = csv_field f"
| "csv_join (f # g # fs) = csv_field f @ CHR '','' # csv_join (g # fs)"

definition csv_line :: "string list \<Rightarrow> string" where
  "csv_line r = (if r = [[]] then [CHR 0x22, CHR 0x22] else csv_join r)"

definition csv_text :: "string list list \<Rightarrow> string" where
  "csv_text rs = concat (map (\<lambda>r. csv_line r @ [CHR 0x0A]) rs)"

text \<open>A byte that cannot start a line boundary.\<close>

definition csv_safe :: "char \<Rightarrow> bool" where
  "csv_safe c \<longleftrightarrow> (of_char c :: nat) \<notin> {10, 11, 12, 13, 28, 29, 30, 194, 226}"

text \<open>The states after a field has been read, before its delimiter.\<close>

definition field_end :: "csv_state \<Rightarrow> csv_state \<Rightarrow> string \<Rightarrow> bool" where
  "field_end st0 st f \<longleftrightarrow> (st = InField \<and> f \<noteq> []) \<or> st = QuoteInQuotedField \<or> (st = st0 \<and> f = [])"

subsection \<open>Lemmas: digits\<close>

lemma digit_char_props:
  assumes "n < 10"
  shows "is_digit (digit_char n)" "digit_val (digit_char n) = n" "\<not> is_space (digit_char n)"
    "digit_char n \<noteq> CHR ''_''" "digit_char n \<noteq> CHR ''-''" "digit_char n \<noteq> CHR ''+''"
  using assms
  by (auto simp: is_digit_def digit_val_def digit_char_def is_space_def eval_nat_numeral less_Suc_eq)

lemma nat_str_props:
  "nat_str n \<noteq> [] \<and> (\<forall>c\<in>set (nat_str n). is_digit c \<and> \<not> is_space c \<and> c \<noteq> CHR ''_'' \<and>
     c \<noteq> CHR ''-'' \<and> c \<noteq> CHR ''+'')"
proof (induction n rule: nat_str.induct)
  case (1 n)
  then show ?case
    by (cases "n < 10") (auto simp: nat_str.simps [of n] digit_char_props)
qed

lemma valid_digits_all: "ds \<noteq> [] \<Longrightarrow> \<forall>c\<in>set ds. is_digit c \<and> c \<noteq> CHR ''_'' \<Longrightarrow> valid_digits ds"
  by (induction ds rule: valid_digits.induct) (auto split: list.splits)

lemma valid_digits_chars: "valid_digits ds \<Longrightarrow> c \<in> set ds \<Longrightarrow> is_digit c \<or> c = CHR ''_''"
proof (induction ds rule: valid_digits.induct)
  case 1
  then show ?case by simp
next
  case (2 x cs)
  show ?case
  proof (cases cs)
    case Nil
    with 2 show ?thesis by simp
  next
    case (Cons d ds)
    with 2 show ?thesis by (cases "d = CHR ''_''") auto
  qed
qed

lemma dropWhile_keeps: "c \<in> set xs \<Longrightarrow> \<not> P c \<Longrightarrow> c \<in> set (dropWhile P xs)"
  by (induction xs) auto

lemma py_strip_keeps: "c \<in> set s \<Longrightarrow> \<not> is_space c \<Longrightarrow> c \<in> set (py_strip s)"
  by (simp add: py_strip_def dropWhile_keeps)

lemma py_sign_keeps:
  "py_sign t = (sg, ds) \<Longrightarrow> c \<in> set t \<Longrightarrow> c \<noteq> CHR ''+'' \<Longrightarrow> c \<noteq> CHR ''-'' \<Longrightarrow> c \<in> set ds"
  by (auto simp: py_sign_def split: list.splits if_splits)

text \<open>\<open>int()\<close> refuses a string holding a character that is not a digit,
  whitespace, a sign or an underscore.\<close>

lemma py_int_bad_char:
  assumes "c \<in> set s" "\<not> is_digit c" "\<not> is_space c" "c \<notin> {CHR ''+'', CHR ''-'', CHR ''_''}"
  shows "py_int s = Inl (ValueError ''invalid literal for int() with base 10'')"
proof -
  obtain sg ds where sd: "py_sign (py_strip s) = (sg, ds)" by fastforce
  have "c \<in> set ds" using py_sign_keeps [OF sd py_strip_keeps [OF assms(1,3)]] assms(4) by simp
  then have "\<not> valid_digits ds" using valid_digits_chars assms(2,4) by blast
  then show ?thesis using sd by (simp add: py_int_def)
qed

lemma foldl_digits_append:
  "foldl (\<lambda>acc c. 10 * acc + digit_val c) a (xs @ [c]) = 10 * foldl (\<lambda>acc c. 10 * acc + digit_val c) a xs + digit_val c"
  by simp

lemma digits_value_nat_str: "digits_value (nat_str n) = n"
proof (induction n rule: nat_str.induct)
  case (1 n)
  have nu: "filter (\<lambda>c. c \<noteq> CHR ''_'') (nat_str m) = nat_str m" for m
    using nat_str_props [of m] by (simp add: filter_id_conv)
  show ?case
  proof (cases "n < 10")
    case True
    then show ?thesis by (simp add: digits_value_def digit_char_props nat_str.simps [of n])
  next
    case False
    with "1.IH" have "foldl (\<lambda>acc c. 10 * acc + digit_val c) 0 (nat_str (n div 10)) = n div 10"
      by (simp add: digits_value_def nu)
    with False show ?thesis
      using nu [of n] by (simp add: digits_value_def digit_char_props nat_str.simps [of n])
  qed
qed


lemma py_strip_id: "s = [] \<or> (\<not> is_space (hd s) \<and> \<not> is_space (last s)) \<Longrightarrow> py_strip s = s"
proof (cases s rule: rev_cases)
  case (snoc ys y)
  moreover assume "s = [] \<or> (\<not> is_space (hd s) \<and> \<not> is_space (last s))"
  ultimately show ?thesis
    by (cases ys) (simp_all add: py_strip_def)
qed (simp add: py_strip_def)

lemma nat_str_strip:
  "py_strip (nat_str n) = nat_str n" "py_strip (CHR ''-'' # nat_str n) = CHR ''-'' # nat_str n"
proof -
  have ne: "nat_str n \<noteq> []" using nat_str_props [of n] by blast
  have "\<not> is_space (hd (nat_str n))" "\<not> is_space (last (nat_str n))"
    using nat_str_props [of n] hd_in_set [OF ne] last_in_set [OF ne] by blast+
  moreover have "\<not> is_space (CHR ''-'')" by (simp add: is_space_def)
  ultimately show "py_strip (nat_str n) = nat_str n" "py_strip (CHR ''-'' # nat_str n) = CHR ''-'' # nat_str n"
    using ne by (simp_all add: py_strip_id)
qed

lemma py_int_nat_str: "py_int (nat_str n) = Inr (int n)"
proof -
  obtain c cs where nc: "nat_str n = c # cs" using nat_str_props [of n] by (cases "nat_str n") auto
  have "c \<noteq> CHR ''-'' \<and> c \<noteq> CHR ''+''" using nat_str_props [of n] nc by auto
  moreover have "valid_digits (nat_str n)"
    using nat_str_props [of n] by (intro valid_digits_all) auto
  ultimately show ?thesis
    using nat_str_strip(1) [of n] digits_value_nat_str [of n] nc by (simp add: py_int_def py_sign_def)
qed

text \<open>\<open>int(str(n)) = n\<close>.\<close>

lemma py_int_str_int: "py_int (py_str_int i) = Inr i"
proof (cases "i < 0")
  case True
  have "valid_digits (nat_str (nat (- i)))"
    using nat_str_props [of "nat (- i)"] by (intro valid_digits_all) auto
  with True show ?thesis
    using nat_str_strip(2) [of "nat (- i)"] digits_value_nat_str [of "nat (- i)"]
    by (simp add: py_int_def py_str_int_def py_sign_def)
next
  case False
  then show ?thesis using py_int_nat_str [of "nat i"] by (simp add: py_str_int_def)
qed


subsection \<open>Lemmas: lines and CSV records\<close>

lemma line_break_len_safe: "csv_safe c \<Longrightarrow> line_break_len (c # cs) = 0"
  by (simp add: line_break_len_def csv_safe_def Let_def)

lemma line_break_len_LF: "line_break_len (CHR 0x0A # cs) = 1"
  by (simp add: line_break_len_def)

lemma split_lines_safe:
  "\<forall>c\<in>set l. csv_safe c \<Longrightarrow> split_lines (l @ CHR 0x0A # rest) cur = (cur @ l) # split_lines rest []"
proof (induction l arbitrary: cur)
  case Nil
  then show ?case by (simp add: line_break_len_LF)
next
  case (Cons c l)
  then show ?case by (simp add: line_break_len_safe)
qed

lemma splitlines_lines:
  "\<forall>l\<in>set ls. \<forall>c\<in>set l. csv_safe c \<Longrightarrow> py_splitlines (concat (map (\<lambda>l. l @ [CHR 0x0A]) ls)) = ls"
proof (induction ls)
  case Nil
  then show ?case by (simp add: py_splitlines_def)
next
  case (Cons l ls)
  then show ?case using split_lines_safe [of l _ "[]"] by (simp add: py_splitlines_def)
qed

lemma foldl_plain:
  "CHR '','' \<notin> set f \<Longrightarrow> CHR 0x22 \<notin> set f \<Longrightarrow> f \<noteq> [] \<Longrightarrow> st \<in> {StartRecord, StartField, InField} \<Longrightarrow>
   (st = InField \<or> fld = []) \<Longrightarrow> foldl csv_char (st, fld, fs) f = (InField, fld @ f, fs)"
proof (induction f arbitrary: st fld)
  case Nil
  then show ?case by simp
next
  case (Cons c f)
  then have step: "csv_char (st, fld, fs) c = (InField, fld @ [c], fs)"
    by (cases st) auto
  show ?case
  proof (cases f)
    case Nil
    with step show ?thesis by simp
  next
    case (Cons d f')
    with step Cons.prems Cons.IH [of InField "fld @ [c]"] show ?thesis by simp
  qed
qed

lemma foldl_quoted_body:
  "foldl csv_char (InQuotedField, fld, fs) (concat (map (\<lambda>c. if c = CHR 0x22 then [c, c] else [c]) f)) =
   (InQuotedField, fld @ f, fs)"
  by (induction f arbitrary: fld) auto

lemma foldl_field:
  assumes "st \<in> {StartRecord, StartField}"
  obtains st' where "foldl csv_char (st, [], fs) (csv_field f) = (st', f, fs)" "field_end st st' f"
proof (cases "CHR '','' \<in> set f \<or> CHR 0x22 \<in> set f")
  case True
  have "foldl csv_char (st, [], fs) (csv_field f) = (QuoteInQuotedField, f, fs)"
    using True assms by (auto simp: csv_field_def foldl_quoted_body)
  then show ?thesis using that by (auto simp: field_end_def)
next
  case False
  show ?thesis
  proof (cases "f = []")
    case True
    then show ?thesis using that False by (auto simp: csv_field_def field_end_def)
  next
    case ne: False
    have "foldl csv_char (st, [], fs) (csv_field f) = (InField, f, fs)"
      using False ne assms foldl_plain [of f st "[]" fs] by (auto simp: csv_field_def)
    then show ?thesis using that ne by (auto simp: field_end_def)
  qed
qed

lemma field_end_comma:
  "field_end st0 st f \<Longrightarrow> st0 \<in> {StartRecord, StartField} \<Longrightarrow> csv_char (st, f, fs) (CHR '','') = (StartField, [], fs @ [f])"
  by (auto simp: field_end_def)

lemma field_end_eol:
  "field_end st0 st f \<Longrightarrow> st0 = StartField \<or> f \<noteq> [] \<Longrightarrow> csv_eol (st, f, fs) = Some (fs @ [f])"
  by (auto simp: field_end_def csv_eol_def)

lemma csv_join_read:
  assumes "st \<in> {StartRecord, StartField}" "r \<noteq> []" "st = StartField \<or> r \<noteq> [[]]"
  shows "csv_eol (foldl csv_char (st, [], fs) (csv_join r)) = Some (fs @ r)"
  using assms
proof (induction r arbitrary: st fs rule: csv_join.induct)
  case 1
  then show ?case by simp
next
  case (2 f)
  obtain st' where "foldl csv_char (st, [], fs) (csv_field f) = (st', f, fs)" "field_end st st' f"
    using foldl_field [OF "2.prems"(1)] by blast
  with "2.prems" show ?case by (auto simp: field_end_eol)
next
  case (3 f g fs')
  obtain st' where st': "foldl csv_char (st, [], fs) (csv_field f) = (st', f, fs)" "field_end st st' f"
    using foldl_field [OF "3.prems"(1)] by blast
  have "csv_eol (foldl csv_char (StartField, [], fs @ [f]) (csv_join (g # fs'))) = Some ((fs @ [f]) @ g # fs')"
    by (rule "3.IH") auto
  moreover have "csv_char (st', f, fs) (CHR '','') = (StartField, [], fs @ [f])"
    using field_end_comma [OF st'(2)] "3.prems"(1) by blast
  ultimately show ?case using st'(1) by (simp del: csv_char.simps)
qed

lemma csv_line_read: "csv_eol (foldl csv_char (StartRecord, [], []) (csv_line r)) = Some r"
proof (cases "r = [[]] \<or> r = []")
  case True
  then show ?thesis by (auto simp: csv_line_def csv_eol_def)
next
  case False
  then show ?thesis using csv_join_read [of StartRecord r "[]"] by (simp add: csv_line_def)
qed

lemma csv_field_set: "set (csv_field f) \<subseteq> insert (CHR 0x22) (set f)"
  unfolding csv_field_def by (auto split: if_splits)

lemma csv_join_set: "set (csv_join r) \<subseteq> {CHR 0x22, CHR '',''} \<union> \<Union> (set ` set r)"
proof (induction r rule: csv_join.induct)
  case (2 f)
  then show ?case using csv_field_set [of f] by auto
next
  case (3 f g fs)
  then show ?case using csv_field_set [of f] by auto
qed simp

lemma csv_line_set: "set (csv_line r) \<subseteq> {CHR 0x22, CHR '',''} \<union> \<Union> (set ` set r)"
  using csv_join_set [of r] by (auto simp: csv_line_def)

lemma csv_line_safe:
  assumes "\<forall>f\<in>set r. \<forall>c\<in>set f. csv_safe c"
  shows "\<forall>c\<in>set (csv_line r). csv_safe c"
proof -
  have q: "csv_safe (CHR 0x22)" "csv_safe (CHR '','')" by (simp_all add: csv_safe_def)
  with assms csv_line_set [of r] show ?thesis by blast
qed

text \<open>ASCII text is valid UTF-8, and the CSV text of ASCII fields is ASCII.\<close>

lemma utf8_ascii: "\<forall>c\<in>set s. (of_char c :: nat) < 128 \<Longrightarrow> utf8_valid s"
  by (induction s) (simp_all add: utf8_len_def)

lemma csv_text_ascii:
  assumes "\<forall>r\<in>set rs. \<forall>f\<in>set r. \<forall>c\<in>set f. (of_char c :: nat) < 128"
  shows "utf8_valid (csv_text rs)"
proof (rule utf8_ascii, rule ballI)
  fix c assume "c \<in> set (csv_text rs)"
  then obtain r where r: "r \<in> set rs" "c \<in> set (csv_line r) \<or> c = CHR 0x0A"
    by (auto simp: csv_text_def split: if_splits) (meson ex_in_conv set_empty)
  then have "c \<in> {CHR 0x22, CHR '','', CHR 0x0A} \<or> (\<exists>f\<in>set r. c \<in> set f)"
    using csv_line_set [of r] by blast
  then show "(of_char c :: nat) < 128" using assms r(1) by auto
qed

subsection \<open>The CSV reader reads back what the writer writes\<close>

text \<open>What the CSV writer writes, split into lines and read back by the
  reader, gives the records back, for fields whose bytes cannot start a line
  boundary (quotes and commas included).\<close>

lemma csv_roundtrip:
  assumes "\<forall>r\<in>set rs. \<forall>f\<in>set r. \<forall>c\<in>set f. csv_safe c"
  shows "csv_reader (py_splitlines (csv_text rs)) = rs"
proof -
  have "csv_text rs = concat (map (\<lambda>l. l @ [CHR 0x0A]) (map csv_line rs))"
    by (simp add: csv_text_def comp_def)
  moreover have "\<forall>l\<in>set (map csv_line rs). \<forall>c\<in>set l. csv_safe c"
    using assms csv_line_safe by auto
  ultimately have "py_splitlines (csv_text rs) = map csv_line rs"
    by (simp only: splitlines_lines)
  moreover have "csv_read (StartRecord, [], []) (map csv_line rs) = rs"
    by (induction rs) (simp_all add: csv_line_read)
  ultimately show ?thesis by (simp add: csv_reader_def)
qed

end
