(* ===== verification/Auth.thy ===== *)
theory Auth
  imports PyLib
begin

text \<open>
  Authentication: \<open>src/auth.py\<close> and the handlers \<open>api_signup\<close> and
  \<open>api_login\<close> of \<open>src/main.py\<close> (lines 60--76).
  \<^item> The settings read from the environment at import (lines 13--15) are the
    record \<open>settings\<close>; \<open>default_settings\<close> holds the defaults the code gives.
  \<^item> Cryptography is symbolic. A token \<open>Jwt sub exp key\<close> is the HS256-signed
    payload \<open>{"sub": sub, "exp": exp}\<close>: \<open>jwt.decode\<close> accepts it only under the
    key that signed it and while the current time (whole seconds, as
    \<open>python-jose\<close> compares them) is not past \<open>exp\<close>; any other string is
    \<open>Malformed\<close> and fails to decode. A password hash is the stand-in
    \<open>$argon2id$\<close> followed by the password, injective like the real hash; the
    salt and one-wayness of argon2 are not modelled. \<open>passlib\<close> identifies the
    scheme by that prefix and raises \<open>ValueError\<close> on a hash it cannot identify.
  \<^item> \<open>get_current_user\<close> raises 401 without a token or on a token that fails to
    decode (\<open>JWTError\<close>), lets the \<open>TypeError\<close> or \<open>ValueError\<close> of \<open>int()\<close>
    on the subject through (only \<open>JWTError\<close> is caught), and raises 404 for an
    unknown user id; \<open>get_current_admin\<close> adds 403 for a user who is not admin.
\<close>

record settings =
  secret_key :: string
  token_minutes :: int

definition default_settings :: settings where
  "default_settings = \<lparr>secret_key = ''change-me'', token_minutes = 60\<rparr>"

datatype jwt = Jwt "string option" int string | Malformed string

definition hash_password :: "string \<Rightarrow> string" where
  "hash_password pw = ''$argon2id$'' @ pw"

definition verify_password :: "string \<Rightarrow> string \<Rightarrow> error + bool" where
  "verify_password plain hashed =
     (if take 10 hashed = ''$argon2id$'' then Inr (hashed = hash_password plain)
      else Inl (ValueError ''hash could not be identified''))"

definition create_access_token :: "settings \<Rightarrow> string \<Rightarrow> int \<Rightarrow> jwt" where
  "create_access_token cfg sub now = Jwt (Some sub) (now + 60 * token_minutes cfg) (secret_key cfg)"

text \<open>\<open>jwt.decode(token, SECRET_KEY, algorithms=[ALGORITHM])\<close>: the subject claim,
  or \<open>None\<close> for the \<open>JWTError\<close> it raises.\<close>

definition jwt_decode :: "settings \<Rightarrow> jwt \<Rightarrow> int \<Rightarrow> string option option" where
  "jwt_decode cfg tok now =
     (case tok of
        Jwt sub expiry key \<Rightarrow> if key = secret_key cfg \<and> now \<le> expiry then Some sub else None
      | Malformed _ \<Rightarrow> None)"

definition get_user :: "db \<Rightarrow> uid \<Rightarrow> user option" where
  "get_user d i = find (\<lambda>u. user_id u = i) (users d)"

definition get_current_user :: "db \<Rightarrow> settings \<Rightarrow> jwt option \<Rightarrow> int \<Rightarrow> error + user" where
  "get_current_user d cfg tok now =
     (case tok of
        None \<Rightarrow> Inl (HTTPException 401 ''Not authenticated'')
      | Some (Malformed []) \<Rightarrow> Inl (HTTPException 401 ''Not authenticated'')
      | Some t \<Rightarrow>
          (case jwt_decode cfg t now of
             None \<Rightarrow> Inl (HTTPException 401 ''Invalid token'')
           | Some None \<Rightarrow> Inl (TypeError ''int() argument must be a string, a bytes-like object or a real number, not NoneType'')
           | Some (Some sub) \<Rightarrow>
               (case py_int sub of
                  Inl e \<Rightarrow> Inl e
                | Inr uid \<Rightarrow>
                    (case get_user d uid of
                       None \<Rightarrow> Inl (HTTPException 404 ''User not found'')
                     | Some u \<Rightarrow> Inr u))))"

definition get_current_admin :: "db \<Rightarrow> settings \<Rightarrow> jwt option \<Rightarrow> int \<Rightarrow> error + user" where
  "get_current_admin d cfg tok now =
     (case get_current_user d cfg tok now of
        Inl e \<Rightarrow> Inl e
      | Inr u \<Rightarrow> if is_admin u then Inr u else Inl (HTTPException 403 ''Admins only''))"

definition user_by_email :: "db \<Rightarrow> string \<Rightarrow> user option" where
  "user_by_email d e = find (\<lambda>u. email u = e) (users d)"

definition api_signup :: "db \<Rightarrow> settings \<Rightarrow> string \<Rightarrow> string \<Rightarrow> int \<Rightarrow> (error + jwt \<times> string) \<times> db" where
  "api_signup d cfg e pw now =
     (if user_by_email d e \<noteq> None then (Inl (HTTPException 400 ''Email already registered''), d)
      else (let u = \<lparr>user_id = next_rowid (map user_id (users d)), email = e,
                     hashed_password = hash_password pw, is_admin = False\<rparr>;
                d' = d\<lparr>users := users d @ [u]\<rparr>
            in (Inr (create_access_token cfg (py_str_int (user_id u)) now, ''bearer''), d')))"

definition api_login :: "db \<Rightarrow> settings \<Rightarrow> string \<Rightarrow> string \<Rightarrow> int \<Rightarrow> error + jwt \<times> string" where
  "api_login d cfg e pw now =
     (case user_by_email d e of
        None \<Rightarrow> Inl (HTTPException 400 ''Invalid credentials'')
      | Some u \<Rightarrow>
          (case verify_password pw (hashed_password u) of
             Inl err \<Rightarrow> Inl err
           | Inr False \<Rightarrow> Inl (HTTPException 400 ''Invalid credentials'')
           | Inr True \<Rightarrow> Inr (create_access_token cfg (py_str_int (user_id u)) now, ''bearer'')))"

subsection \<open>Lemmas\<close>

lemma verify_hash: "verify_password pw (hash_password pw') = Inr (pw' = pw)"
  by (auto simp: verify_password_def hash_password_def)

lemma get_user_append_fresh:
  "i \<notin> set (map user_id (users d)) \<Longrightarrow> user_id u = i \<Longrightarrow>
   get_user (d\<lparr>users := users d @ [u]\<rparr>) i = Some u"
proof -
  assume "i \<notin> set (map user_id (users d))" "user_id u = i"
  moreover then have "find (\<lambda>v. user_id v = i) (users d) = None"
    by (auto simp: find_None_iff image_iff)
  ultimately show ?thesis by (simp add: get_user_def find_append_None)
qed

lemma user_by_email_append:
  "user_by_email d e = None \<Longrightarrow> email u = e \<Longrightarrow> user_by_email (d\<lparr>users := users d @ [u]\<rparr>) e = Some u"
  by (simp add: user_by_email_def find_append_eq)

lemma api_signup_Inr:
  assumes "api_signup d cfg e pw now = (Inr r, d')"
  shows "user_by_email d e = None \<and>
    (let u = \<lparr>user_id = next_rowid (map user_id (users d)), email = e,
              hashed_password = hash_password pw, is_admin = False\<rparr>
     in d' = d\<lparr>users := users d @ [u]\<rparr> \<and>
        r = (create_access_token cfg (py_str_int (user_id u)) now, ''bearer''))"
  using assms by (auto simp: api_signup_def Let_def split: if_splits)

text \<open>Authentication reads only the users table.\<close>

lemma get_current_user_users:
  assumes "users d' = users d"
  shows "get_current_user d' cfg tok now = get_current_user d cfg tok now"
  unfolding get_current_user_def get_user_def by (simp only: assms)

lemma get_current_admin_users:
  assumes "users d' = users d"
  shows "get_current_admin d' cfg tok now = get_current_admin d cfg tok now"
  by (simp only: get_current_admin_def get_current_user_users [OF assms])

lemma current_user_token:
  "now \<le> t \<Longrightarrow> t \<le> now + 60 * token_minutes cfg \<Longrightarrow>
   get_current_user d cfg (Some (create_access_token cfg (py_str_int i) now)) t =
     (case get_user d i of None \<Rightarrow> Inl (HTTPException 404 ''User not found'') | Some u \<Rightarrow> Inr u)"
  by (simp add: get_current_user_def create_access_token_def jwt_decode_def py_int_str_int)


subsection \<open>Properties of authentication\<close>

text \<open>C25: the token \<open>api_signup\<close> returns authenticates the new user, a
  non-admin with the given email, at every time until it expires: the subject
  \<open>str(user.id)\<close> parses back to the id and the fresh id names the new row.\<close>

theorem signup_token_authenticates:
  assumes "api_signup d cfg e pw now = (Inr (tok, ty), d')"
    and "now \<le> t" "t \<le> now + 60 * token_minutes cfg"
  shows "\<exists>u. get_current_user d' cfg (Some tok) t = Inr u \<and> email u = e \<and> \<not> is_admin u \<and>
             u \<in> set (users d') \<and> u \<notin> set (users d)"
proof -
  let ?i = "next_rowid (map user_id (users d))"
  let ?u = "\<lparr>user_id = ?i, email = e, hashed_password = hash_password pw, is_admin = False\<rparr>"
  have d': "d' = d\<lparr>users := users d @ [?u]\<rparr>" and tok: "tok = create_access_token cfg (py_str_int ?i) now"
    using api_signup_Inr [OF assms(1)] by (simp_all add: Let_def)
  have fresh: "?i \<notin> set (map user_id (users d))" by (rule next_rowid_fresh)
  then have "get_user d' ?i = Some ?u" using d' by (simp add: get_user_append_fresh)
  moreover have "?u \<notin> set (users d)"
    using next_rowid_fresh_image [of user_id "users d"] by (metis image_eqI user.select_convs(1))
  ultimately show ?thesis
    using current_user_token [OF assms(2,3), of d' ?i] tok d' by simp
qed

text \<open>C12: a token signed under another key, or past its expiry, is refused with
  401 \<open>Invalid token\<close>, whatever subject it names.\<close>

theorem invalid_token_rejected:
  assumes "key \<noteq> secret_key cfg \<or> expiry < t"
  shows "get_current_user d cfg (Some (Jwt sub expiry key)) t = Inl (HTTPException 401 ''Invalid token'')"
  using assms by (auto simp: get_current_user_def jwt_decode_def)

text \<open>C26: login succeeds exactly when the first user with the email has the hash
  of the given password; the token it returns names that user.\<close>

theorem login_iff:
  "(\<exists>r. api_login d cfg e pw now = Inr r) \<longleftrightarrow>
     (case user_by_email d e of None \<Rightarrow> False | Some u \<Rightarrow> hashed_password u = hash_password pw)"
proof (cases "user_by_email d e")
  case None
  then show ?thesis by (simp add: api_login_def)
next
  case (Some u)
  then show ?thesis
    by (auto simp: api_login_def verify_password_def hash_password_def split: bool.splits)
qed



end
