(* ===== verification/Notifier.thy ===== *)
theory Notifier
  imports Prelude
begin

text \<open>
  The inventory change notifier \<open>hub\<close> that \<open>src/main.py\<close> imports from
  \<open>app/ws.py\<close> (a module the repository does not contain), modelled from the
  specification (section 4.3): \<open>connect\<close> and \<open>disconnect\<close> register and
  unregister a listener; \<open>broadcast\<close> sends a stock change to every listener
  registered when it starts, iterating over a copy of the registry, one send
  per step, so that registrations may change between sends; a send to a
  listener whose client has gone fails and drops that listener, and never fails
  the broadcast. The steps of all callers interleave (\<open>hub_step\<close> on a
  \<open>hub_ev\<close>); a broadcast in flight is a message with the listeners still to
  visit. The endpoint \<open>inventory_ws\<close> of \<open>src/main.py\<close> is the sequence of
  events one socket's life issues.
\<close>

type_synonym lid = nat

record stock_msg =
  msg_product :: pid
  msg_stock :: int

record hub =
  conns :: "lid list"
  gone :: "lid set"
  inbox :: "lid \<Rightarrow> stock_msg list"
  pending :: "(stock_msg \<times> lid list) list"

datatype hub_ev = Connect lid | Disconnect lid | ClientGone lid | Broadcast stock_msg | Send nat

definition hub_connect :: "hub \<Rightarrow> lid \<Rightarrow> hub" where
  "hub_connect h w = (if w \<in> set (conns h) \<or> w \<in> gone h then h else h\<lparr>conns := conns h @ [w]\<rparr>)"

definition hub_disconnect :: "hub \<Rightarrow> lid \<Rightarrow> hub" where
  "hub_disconnect h w = h\<lparr>conns := removeAll w (conns h)\<rparr>"

definition hub_broadcast :: "hub \<Rightarrow> stock_msg \<Rightarrow> hub" where
  "hub_broadcast h m = h\<lparr>pending := pending h @ [(m, conns h)]\<rparr>"

text \<open>One send of the broadcast in flight at position \<open>i\<close>.\<close>

definition hub_send :: "hub \<Rightarrow> nat \<Rightarrow> hub" where
  "hub_send h i =
     (if length (pending h) \<le> i then h
      else (case pending h ! i of
              (m, []) \<Rightarrow> h\<lparr>pending := take i (pending h) @ drop (Suc i) (pending h)\<rparr>
            | (m, w # ws) \<Rightarrow>
                (let h' = h\<lparr>pending := (pending h)[i := (m, ws)]\<rparr>
                 in if w \<in> gone h then hub_disconnect h' w
                    else h'\<lparr>inbox := (inbox h')(w := inbox h' w @ [m])\<rparr>)))"

fun hub_step :: "hub \<Rightarrow> hub_ev \<Rightarrow> hub" where
  "hub_step h (Connect w) = hub_connect h w"
| "hub_step h (Disconnect w) = hub_disconnect h w"
| "hub_step h (ClientGone w) = h\<lparr>gone := insert w (gone h)\<rparr>"
| "hub_step h (Broadcast m) = hub_broadcast h m"
| "hub_step h (Send i) = hub_send h i"

definition hub_run :: "hub \<Rightarrow> hub_ev list \<Rightarrow> hub" where
  "hub_run h evs = foldl hub_step h evs"

definition hub_init :: hub where
  "hub_init = \<lparr>conns = [], gone = {}, inbox = (\<lambda>_. []), pending = []\<rparr>"

text \<open>The endpoint \<open>inventory_ws\<close> of \<open>src/main.py\<close> (lines 202--209) for a
  socket \<open>w\<close>: it registers the socket, waits on \<open>receive_text\<close> until the client
  goes away and the receive raises, and then unregisters it.\<close>

definition inventory_ws :: "lid \<Rightarrow> hub_ev list" where
  "inventory_ws w = [Connect w, ClientGone w, Disconnect w]"

text \<open>The events other callers interleave with a broadcast's sends: sockets
  connecting, leaving and being unregistered.\<close>

fun hub_local :: "hub_ev \<Rightarrow> bool" where
  "hub_local (Connect _) = True"
| "hub_local (Disconnect _) = True"
| "hub_local (ClientGone _) = True"
| "hub_local (Broadcast _) = False"
| "hub_local (Send _) = False"

text \<open>The registry holds each listener once.\<close>

definition hub_inv :: "hub \<Rightarrow> bool" where
  "hub_inv h \<longleftrightarrow> distinct (conns h)"

subsection \<open>Lemmas\<close>

lemma hub_step_inv: "hub_inv h \<Longrightarrow> hub_inv (hub_step h ev)"
  by (cases ev)
     (auto simp: hub_inv_def hub_connect_def hub_disconnect_def hub_broadcast_def hub_send_def
           distinct_removeAll Let_def split: prod.splits list.splits)

lemma hub_run_inv: "hub_inv h \<Longrightarrow> hub_inv (hub_run h evs)"
  unfolding hub_run_def by (induction evs arbitrary: h) (simp_all add: hub_step_inv)

lemma hub_run_append: "hub_run h (xs @ ys) = hub_run (hub_run h xs) ys"
  by (simp add: hub_run_def)

text \<open>The sends of the first broadcast in flight, listener by listener.\<close>

lemma hub_send_first:
  assumes "pending h = (m, w # ws) # rest"
  shows "hub_send h 0 =
           (if w \<in> gone h then h\<lparr>conns := removeAll w (conns h), pending := (m, ws) # rest\<rparr>
            else h\<lparr>inbox := (inbox h)(w := inbox h w @ [m]), pending := (m, ws) # rest\<rparr>)"
  using assms by (simp add: hub_send_def hub_disconnect_def)

lemma hub_sends_delivered:
  assumes "pending h = (m, ws) # rest" "distinct ws"
  shows "pending (hub_run h (replicate (length ws) (Send 0))) = (m, []) # rest \<and>
         gone (hub_run h (replicate (length ws) (Send 0))) = gone h \<and>
         conns (hub_run h (replicate (length ws) (Send 0))) = filter (\<lambda>w. w \<notin> set ws \<inter> gone h) (conns h) \<and>
         (\<forall>w. inbox (hub_run h (replicate (length ws) (Send 0))) w =
                inbox h w @ (if w \<in> set ws \<and> w \<notin> gone h then [m] else []))"
  using assms
proof (induction ws arbitrary: h)
  case Nil
  then show ?case by (simp add: hub_run_def)
next
  case (Cons w ws)
  let ?h1 = "hub_send h 0"
  have p1: "pending ?h1 = (m, ws) # rest" and g1: "gone ?h1 = gone h"
    using hub_send_first [OF Cons.prems(1)] by simp_all
  have run: "hub_run h (replicate (length (w # ws)) (Send 0)) = hub_run ?h1 (replicate (length ws) (Send 0))"
    by (simp add: hub_run_def)
  have IH: "pending (hub_run ?h1 (replicate (length ws) (Send 0))) = (m, []) # rest \<and>
    gone (hub_run ?h1 (replicate (length ws) (Send 0))) = gone ?h1 \<and>
    conns (hub_run ?h1 (replicate (length ws) (Send 0))) = filter (\<lambda>w. w \<notin> set ws \<inter> gone ?h1) (conns ?h1) \<and>
    (\<forall>x. inbox (hub_run ?h1 (replicate (length ws) (Send 0))) x =
           inbox ?h1 x @ (if x \<in> set ws \<and> x \<notin> gone ?h1 then [m] else []))"
    using Cons.IH [OF p1] Cons.prems(2) by simp
  show ?case
  proof (cases "w \<in> gone h")
    case True
    then have "conns ?h1 = removeAll w (conns h)" "inbox ?h1 = inbox h"
      using hub_send_first [OF Cons.prems(1)] by simp_all
    with IH run g1 True show ?thesis by (auto simp: removeAll_filter_not_eq filter_filter intro!: filter_cong)
  next
    case False
    then have "conns ?h1 = conns h" "inbox ?h1 = (inbox h)(w := inbox h w @ [m])"
      using hub_send_first [OF Cons.prems(1)] by simp_all
    with IH run g1 False Cons.prems(2) show ?thesis by auto
  qed
qed


text \<open>A broadcast started from a hub with none in flight, followed by its sends.\<close>

lemma broadcast_then_sends:
  assumes "hub_inv h" "pending h = []"
  shows "pending (hub_run (hub_broadcast h m) (replicate (Suc (length (conns h))) (Send 0))) = [] \<and>
         conns (hub_run (hub_broadcast h m) (replicate (Suc (length (conns h))) (Send 0))) =
           filter (\<lambda>w. w \<notin> gone h) (conns h) \<and>
         (\<forall>w. inbox (hub_run (hub_broadcast h m) (replicate (Suc (length (conns h))) (Send 0))) w =
                inbox h w @ (if w \<in> set (conns h) \<and> w \<notin> gone h then [m] else []))"
proof -
  let ?h0 = "hub_broadcast h m"
  let ?h1 = "hub_run ?h0 (replicate (length (conns h)) (Send 0))"
  have p0: "pending ?h0 = [(m, conns h)]" using assms(2) by (simp add: hub_broadcast_def)
  have d: "distinct (conns h)" using assms(1) by (simp add: hub_inv_def)
  have s: "pending ?h1 = [(m, [])] \<and> gone ?h1 = gone h \<and>
           conns ?h1 = filter (\<lambda>w. w \<notin> set (conns h) \<inter> gone h) (conns h) \<and>
           (\<forall>w. inbox ?h1 w = inbox h w @ (if w \<in> set (conns h) \<and> w \<notin> gone h then [m] else []))"
    using hub_sends_delivered [OF p0 d] by (simp add: hub_broadcast_def)
  have "hub_run ?h0 (replicate (Suc (length (conns h))) (Send 0)) = hub_send ?h1 0"
    by (simp add: hub_run_def replicate_append_same [symmetric] del: replicate_append_same)
  moreover have "filter (\<lambda>w. w \<notin> set (conns h) \<inter> gone h) (conns h) = filter (\<lambda>w. w \<notin> gone h) (conns h)"
    by (auto intro: filter_cong)
  ultimately show ?thesis using s by (simp add: hub_send_def)
qed

text \<open>Registration events leave the broadcasts in flight and the inboxes alone.\<close>

lemma hub_step_local:
  "hub_local e \<Longrightarrow> pending (hub_step h e) = pending h \<and> inbox (hub_step h e) = inbox h"
  by (cases e) (simp_all add: hub_connect_def hub_disconnect_def)

text \<open>One send of the only broadcast in flight visits its next listener, and only it.\<close>

lemma hub_send_single:
  assumes "pending h = [(m, ws)]"
  shows "pending (hub_send h 0) = (case ws of [] \<Rightarrow> [] | _ # r \<Rightarrow> [(m, r)]) \<and>
         (\<forall>w. w \<notin> set ws \<longrightarrow> inbox (hub_send h 0) w = inbox h w)"
  using assms by (cases ws) (simp_all add: hub_send_def hub_disconnect_def Let_def)

lemma inventory_ws_events: "(\<exists>w. e \<in> set (inventory_ws w)) \<longleftrightarrow> hub_local e"
  by (cases e) (auto simp: inventory_ws_def)

lemma sends_progress:
  assumes "pending h = [] \<or> (\<exists>ws'. pending h = [(m, ws')] \<and> set ws' \<subseteq> set ws \<and>
             length ws' < length (filter (\<lambda>e. e = Send 0) es))"
    and "\<forall>e\<in>set es. e = Send 0 \<or> hub_local e"
  shows "pending (hub_run h es) = [] \<and> (\<forall>w. w \<notin> set ws \<longrightarrow> inbox (hub_run h es) w = inbox h w)"
  using assms
proof (induction es arbitrary: h)
  case Nil
  then show ?case by (auto simp: hub_run_def)
next
  case (Cons e es)
  have run: "hub_run h (e # es) = hub_run (hub_step h e) es" by (simp add: hub_run_def)
  show ?case
  proof (cases "e = Send 0")
    case False
    then have l: "hub_local e" using Cons.prems(2) by simp
    then show ?thesis
      using Cons.IH [of "hub_step h e"] Cons.prems False hub_step_local [OF l] run by auto
  next
    case True
    show ?thesis
    proof (cases "pending h")
      case Nil
      then have "hub_step h e = h" using True by (simp add: hub_send_def)
      then show ?thesis using Cons.IH [of h] Cons.prems Nil run by simp
    next
      case (Cons p ps)
      then obtain ws' where p: "pending h = [(m, ws')]" "set ws' \<subseteq> set ws"
        "length ws' < Suc (length (filter (\<lambda>e. e = Send 0) es))"
        using Cons.prems True by auto
      note s = hub_send_single [OF p(1)]
      have "pending (hub_step h e) = [] \<or> (\<exists>ws''. pending (hub_step h e) = [(m, ws'')] \<and>
              set ws'' \<subseteq> set ws \<and> length ws'' < length (filter (\<lambda>e. e = Send 0) es))"
        using s p True by (cases ws') auto
      then show ?thesis
        using Cons.IH [of "hub_step h e"] Cons.prems(2) s p True run by auto
    qed
  qed
qed

subsection \<open>Properties of the notifier\<close>

text \<open>A broadcast reaches every live listener: started with no other
  broadcast in flight, and given one send per listener registered at its start
  and one to finish, it appends the message exactly once to the inbox of every
  such listener whose client is still there, drops the listeners whose client
  has gone, and leaves no broadcast in flight.\<close>

theorem broadcast_delivers:
  fixes h :: hub and m :: stock_msg
  assumes "hub_inv h" "pending h = []"
  defines "h' \<equiv> hub_run h (Broadcast m # replicate (Suc (length (conns h))) (Send 0))"
  shows "pending h' = [] \<and> conns h' = filter (\<lambda>w. w \<notin> gone h) (conns h) \<and>
         (\<forall>w. inbox h' w = inbox h w @ (if w \<in> set (conns h) \<and> w \<notin> gone h then [m] else []))"
proof -
  have "h' = hub_run (hub_broadcast h m) (replicate (Suc (length (conns h))) (Send 0))"
    by (simp add: h'_def hub_run_def)
  then show ?thesis using broadcast_then_sends [OF assms(1,2), of m] by simp
qed


text \<open>C15: a broadcast always finishes: with only it in flight, however sockets
  connect, leave and are unregistered between its sends (the events of
  \<open>inventory_ws\<close> lifecycles), it is no longer in
  flight once it has been given one send more than the listeners of its
  snapshot; and no listener outside that snapshot (one that connected after it
  started) receives anything from it.\<close>

theorem broadcast_terminates:
  assumes "pending h = [(m, ws)]"
    and "\<forall>e\<in>set es. e = Send 0 \<or> (\<exists>w. e \<in> set (inventory_ws w))"
    and "length ws < length (filter (\<lambda>e. e = Send 0) es)"
  shows "pending (hub_run h es) = [] \<and> (\<forall>w. w \<notin> set ws \<longrightarrow> inbox (hub_run h es) w = inbox h w)"
  using sends_progress [of h m ws es] assms by (simp add: inventory_ws_events)

end
