(* ===== verification/Admin.thy ===== *)
theory Admin
  imports Auth Notifier
begin

text \<open>
  The admin handlers of \<open>src/main.py\<close> (lines 151--187), each behind the
  \<open>get_current_admin\<close> dependency of theory \<open>Auth\<close>, which FastAPI resolves
  before the body runs.
  \<^item> \<open>admin_toggle_stock\<close> (151--160) sets a product's stock to 0 when it is
    positive and to 10 otherwise, commits, and starts a broadcast of the change
    on the notifier (\<open>anyio.from_thread.run(hub.broadcast, ...)\<close>); a missing
    product makes \<open>p.stock\<close> raise \<open>AttributeError\<close> before anything changes.
  \<^item> \<open>admin_upload\<close> (162--176) decodes the file, reads it with
    \<open>csv.DictReader\<close> over \<open>splitlines()\<close>, builds one product per row
    (\<open>parse_row\<close>: \<open>float\<close> of the price, \<open>int\<close> of the stock, defaults for absent
    columns, \<open>None\<close> for the missing values of a short row) and commits once. An
    exception in the loop, or a \<open>NULL\<close> title or description refused by SQLite
    at the commit (\<open>insert_products\<close>), rolls the whole upload back.
  \<^item> \<open>admin_flags\<close> (178--187) updates the enabled bit of the flag with the
    name, or adds the flag.
\<close>

definition admin_toggle_stock :: "db \<Rightarrow> hub \<Rightarrow> settings \<Rightarrow> jwt option \<Rightarrow> int \<Rightarrow> pid \<Rightarrow>
    (error + int) \<times> db \<times> hub" where
  "admin_toggle_stock d h cfg tok now pid =
     (case get_current_admin d cfg tok now of
        Inl e \<Rightarrow> (Inl e, d, h)
      | Inr _ \<Rightarrow>
          (case get_product d pid of
             None \<Rightarrow> (Inl AttributeError, d, h)
           | Some p \<Rightarrow>
               (let s = (if 0 < stock p then 0 else 10);
                    d' = set_stock d (p_id p) s
                in (Inr s, d', hub_broadcast h \<lparr>msg_product = p_id p, msg_stock = s\<rparr>))))"

text \<open>The product a CSV row describes, before SQLite sees it.\<close>

record csv_product =
  cp_title :: "string option"
  cp_description :: "string option"
  cp_price :: real
  cp_stock :: int
  cp_image :: "string option"

definition parse_price :: "csv_row \<Rightarrow> error + real" where
  "parse_price r = (case r ''price'' of
                      None \<Rightarrow> Inr 0
                    | Some None \<Rightarrow> Inl (TypeError ''float() argument must be a string or a real number, not NoneType'')
                    | Some (Some s) \<Rightarrow> py_float s)"

definition parse_stock :: "csv_row \<Rightarrow> error + int" where
  "parse_stock r = (case r ''stock'' of
                      None \<Rightarrow> Inr 0
                    | Some None \<Rightarrow> Inl (TypeError ''int() argument must be a string, a bytes-like object or a real number, not NoneType'')
                    | Some (Some s) \<Rightarrow> py_int s)"

definition parse_row :: "csv_row \<Rightarrow> error + csv_product" where
  "parse_row r =
     (case parse_price r of
        Inl e \<Rightarrow> Inl e
      | Inr pr \<Rightarrow>
          (case parse_stock r of
             Inl e \<Rightarrow> Inl e
           | Inr st \<Rightarrow>
               Inr \<lparr>cp_title = py_get r ''title'' (Some []), cp_description = py_get r ''description'' (Some []),
                    cp_price = pr, cp_stock = st, cp_image = py_get r ''image_url'' None\<rparr>))"

fun parse_rows :: "csv_row list \<Rightarrow> error + csv_product list" where
  "parse_rows [] = Inr []"
| "parse_rows (r # rs) =
     (case parse_row r of
        Inl e \<Rightarrow> Inl e
      | Inr p \<Rightarrow> (case parse_rows rs of Inl e \<Rightarrow> Inl e | Inr ps \<Rightarrow> Inr (p # ps)))"

text \<open>The commit: each new row is inserted with the next row id, or the
  \<open>NOT NULL\<close> constraint of the first null title or description fails.\<close>

fun insert_products :: "db \<Rightarrow> csv_product list \<Rightarrow> error + db" where
  "insert_products d [] = Inr d"
| "insert_products d (c # cs) =
     (case (cp_title c, cp_description c) of
        (None, _) \<Rightarrow> Inl (IntegrityError ''NOT NULL constraint failed: product.title'')
      | (_, None) \<Rightarrow> Inl (IntegrityError ''NOT NULL constraint failed: product.description'')
      | (Some t, Some ds) \<Rightarrow>
          insert_products
            (d\<lparr>products := products d @
               [\<lparr>p_id = next_rowid (map p_id (products d)), title = t, description = ds,
                 price = cp_price c, image_url = cp_image c, stock = cp_stock c, category_id = None,
                 variant_a_title = None, variant_b_title = None, variant_a_desc = None,
                 variant_b_desc = None\<rparr>]\<rparr>) cs)"

definition admin_upload :: "db \<Rightarrow> settings \<Rightarrow> jwt option \<Rightarrow> int \<Rightarrow> string \<Rightarrow> (error + unit) \<times> db" where
  "admin_upload d cfg tok now content =
     (case get_current_admin d cfg tok now of
        Inl e \<Rightarrow> (Inl e, d)
      | Inr _ \<Rightarrow>
          (case py_decode content of
             Inl e \<Rightarrow> (Inl e, d)
           | Inr text \<Rightarrow>
               (case parse_rows (dict_reader (py_splitlines text)) of
                  Inl e \<Rightarrow> (Inl e, d)
                | Inr cs \<Rightarrow>
                    (case insert_products d cs of
                       Inl e \<Rightarrow> (Inl e, d)
                     | Inr d' \<Rightarrow> (Inr (), d')))))"

definition admin_flags :: "db \<Rightarrow> settings \<Rightarrow> jwt option \<Rightarrow> int \<Rightarrow> string \<Rightarrow> bool \<Rightarrow> (error + unit) \<times> db" where
  "admin_flags d cfg tok now name en =
     (case get_current_admin d cfg tok now of
        Inl e \<Rightarrow> (Inl e, d)
      | Inr _ \<Rightarrow>
          (case find (\<lambda>f. flag_name f = name) (flags d) of
             None \<Rightarrow> (Inr (), d\<lparr>flags := flags d @ [\<lparr>flag_id = next_rowid (map flag_id (flags d)),
                                                     flag_name = name, enabled = en\<rparr>]\<rparr>)
           | Some f \<Rightarrow> (Inr (), d\<lparr>flags := update_where (\<lambda>g. flag_id g = flag_id f)
                                                 (\<lambda>g. g\<lparr>enabled := en\<rparr>) (flags d)\<rparr>)))"

text \<open>Flag names and ids are unique (the \<open>unique=True\<close> index and the primary key).\<close>

definition flags_wf :: "db \<Rightarrow> bool" where
  "flags_wf d \<longleftrightarrow> distinct (map flag_name (flags d)) \<and> distinct (map flag_id (flags d))"

definition flag_enabled :: "db \<Rightarrow> string \<Rightarrow> bool option" where
  "flag_enabled d name = map_option enabled (find (\<lambda>f. flag_name f = name) (flags d))"

text \<open>A CSV row whose values have the types of the \<open>Product\<close> columns: a title
  and a description that are not \<open>NULL\<close>, a price \<open>float()\<close> accepts and a
  stock \<open>int()\<close> accepts (or the defaults when the column is absent).\<close>

definition row_typed :: "csv_row \<Rightarrow> bool" where
  "row_typed r \<longleftrightarrow> py_get r ''title'' (Some []) \<noteq> None \<and> py_get r ''description'' (Some []) \<noteq> None \<and>
                   \<not> isl (parse_price r) \<and> \<not> isl (parse_stock r)"


subsection \<open>Lemmas\<close>

lemma admin_non_admin:
  "get_current_user d cfg tok now = Inr u \<Longrightarrow> \<not> is_admin u \<Longrightarrow>
   get_current_admin d cfg tok now = Inl (HTTPException 403 ''Admins only'')"
  by (simp add: get_current_admin_def)

lemma get_product_p_id: "get_product d i = Some p \<Longrightarrow> p_id p = i"
  by (auto simp: get_product_def dest: find_Some_in)

lemma parse_rows_length: "parse_rows rs = Inr cs \<Longrightarrow> length cs = length rs"
  by (induction rs arbitrary: cs) (auto split: sum.splits)

lemma insert_products_Inr:
  "insert_products d cs = Inr d' \<Longrightarrow>
   \<exists>new. products d' = products d @ new \<and> length new = length cs \<and>
         d'\<lparr>products := products d\<rparr> = d \<and> (products_wf d \<longrightarrow> products_wf d')"
proof (induction cs arbitrary: d)
  case Nil
  then show ?case by simp
next
  case (Cons c cs)
  obtain t ds where c: "cp_title c = Some t" "cp_description c = Some ds"
    using Cons.prems by (auto split: option.splits)
  let ?p = "\<lparr>p_id = next_rowid (map p_id (products d)), title = t, description = ds,
             price = cp_price c, image_url = cp_image c, stock = cp_stock c, category_id = None,
             variant_a_title = None, variant_b_title = None, variant_a_desc = None,
             variant_b_desc = None\<rparr>"
  let ?d1 = "d\<lparr>products := products d @ [?p]\<rparr>"
  have "insert_products ?d1 cs = Inr d'" using Cons.prems c by simp
  then obtain new where n: "products d' = products ?d1 @ new" "length new = length cs"
    and r: "d'\<lparr>products := products ?d1\<rparr> = ?d1" and w: "products_wf ?d1 \<longrightarrow> products_wf d'"
    using Cons.IH by blast
  have "(d'\<lparr>products := products ?d1\<rparr>)\<lparr>products := products d\<rparr> = ?d1\<lparr>products := products d\<rparr>"
    using r by simp
  then have "d'\<lparr>products := products d\<rparr> = d" by simp
  moreover have "products_wf d \<longrightarrow> products_wf ?d1"
    by (simp add: products_wf_def next_rowid_fresh_image)
  ultimately show ?case using n w
    by (intro exI [of _ "?p # new"]) simp
qed

lemma find_flag_update:
  assumes "find (\<lambda>f. flag_name f = name) (flags d) = Some f" "flags_wf d"
  shows "find (\<lambda>g. flag_name g = n)
           (update_where (\<lambda>g. flag_id g = flag_id f) (\<lambda>g. g\<lparr>enabled := en\<rparr>) (flags d)) =
         (if n = name then Some (f\<lparr>enabled := en\<rparr>) else find (\<lambda>g. flag_name g = n) (flags d))"
proof -
  have f: "f \<in> set (flags d)" "flag_name f = name" using find_Some_in [OF assms(1)] by simp_all
  have inj: "inj_on flag_id (set (flags d))" "inj_on flag_name (set (flags d))"
    using assms(2) by (simp_all add: flags_wf_def distinct_map)
  have key: "\<And>g. g \<in> set (flags d) \<Longrightarrow> flag_id g = flag_id f \<longleftrightarrow> flag_name g = name"
    using f inj by (auto dest: inj_onD)
  have "update_where (\<lambda>g. flag_id g = flag_id f) (\<lambda>g. g\<lparr>enabled := en\<rparr>) (flags d) =
        update_where (\<lambda>g. flag_name g = name) (\<lambda>g. g\<lparr>enabled := en\<rparr>) (flags d)"
    unfolding update_where_def using key by (auto intro: map_cong)
  then show ?thesis
    using find_update_where_key [of flag_name "\<lambda>g. g\<lparr>enabled := en\<rparr>" n name "flags d"] assms(1)
    by simp
qed


lemma row_typed_iff:
  "row_typed r \<longleftrightarrow> (\<exists>c. parse_row r = Inr c \<and> cp_title c \<noteq> None \<and> cp_description c \<noteq> None)"
  by (cases "parse_price r"; cases "parse_stock r") (simp_all add: row_typed_def parse_row_def)

lemma rows_accepted:
  "(\<exists>cs d'. parse_rows rs = Inr cs \<and> insert_products d cs = Inr d') \<longleftrightarrow> (\<forall>r\<in>set rs. row_typed r)"
proof (induction rs arbitrary: d)
  case Nil
  then show ?case by simp
next
  case (Cons r rs)
  show ?case
  proof (cases "row_typed r")
    case False
    then have "\<forall>c. parse_row r = Inr c \<longrightarrow> cp_title c = None \<or> cp_description c = None"
      by (auto simp: row_typed_iff)
    then show ?thesis using False
      by (auto split: sum.splits option.splits)
  next
    case True
    then obtain c t ds where c: "parse_row r = Inr c" "cp_title c = Some t" "cp_description c = Some ds"
      by (auto simp: row_typed_iff)
    then show ?thesis using True Cons.IH by (auto split: sum.splits)
  qed
qed

text \<open>Reading a record of the four columns \<open>title\<close>, \<open>description\<close>,
  \<open>price\<close>, \<open>stock\<close>.\<close>

lemma length4: "length r = 4 \<Longrightarrow> \<exists>a b c e. r = [a, b, c, e]"
  by (auto simp: numeral_eq_Suc length_Suc_conv)

lemma parse_row4:
  "parse_row (mk_dict [''title'', ''description'', ''price'', ''stock''] [a, b, c, e]) =
   (case py_float c of
      Inl err \<Rightarrow> Inl err
    | Inr x \<Rightarrow> (case py_int e of
                 Inl err \<Rightarrow> Inl err
               | Inr n \<Rightarrow> Inr \<lparr>cp_title = Some a, cp_description = Some b, cp_price = x, cp_stock = n,
                              cp_image = None\<rparr>))"
  by (cases "py_float c"; cases "py_int e")
     (simp_all add: parse_row_def parse_price_def parse_stock_def mk_dict_def py_get_def)

lemma parse_rows4:
  assumes "\<forall>r\<in>set rows. length r = 4 \<and> (\<exists>x. py_float (r ! 2) = Inr x) \<and> (\<exists>n. py_int (r ! 3) = Inr n)"
  shows "parse_rows (map (mk_dict [''title'', ''description'', ''price'', ''stock'']) rows) =
         Inr (map (\<lambda>r. \<lparr>cp_title = Some (r ! 0), cp_description = Some (r ! 1),
                        cp_price = projr (py_float (r ! 2)), cp_stock = projr (py_int (r ! 3)),
                        cp_image = None\<rparr>) rows)"
  using assms
proof (induction rows)
  case Nil
  then show ?case by simp
next
  case (Cons r rows)
  obtain a b c e where r: "r = [a, b, c, e]" using Cons.prems length4 by force
  obtain x n where xn: "py_float c = Inr x" "py_int e = Inr n" using Cons.prems r by auto
  show ?case using Cons r xn by (simp add: parse_row4)
qed

lemma insert_products_all:
  assumes "\<forall>c\<in>set cs. cp_title c \<noteq> None \<and> cp_description c \<noteq> None"
  shows "\<exists>d' new. insert_products d cs = Inr d' \<and> products d' = products d @ new \<and>
           map (\<lambda>p. (Some (title p), Some (description p), price p, stock p, image_url p)) new =
           map (\<lambda>c. (cp_title c, cp_description c, cp_price c, cp_stock c, cp_image c)) cs"
  using assms
proof (induction cs arbitrary: d)
  case Nil
  then show ?case by simp
next
  case (Cons c cs)
  obtain t ds where c: "cp_title c = Some t" "cp_description c = Some ds" using Cons.prems by auto
  let ?p = "\<lparr>p_id = next_rowid (map p_id (products d)), title = t, description = ds,
             price = cp_price c, image_url = cp_image c, stock = cp_stock c, category_id = None,
             variant_a_title = None, variant_b_title = None, variant_a_desc = None,
             variant_b_desc = None\<rparr>"
  obtain d' new where "insert_products (d\<lparr>products := products d @ [?p]\<rparr>) cs = Inr d'"
    "products d' = products d @ [?p] @ new"
    "map (\<lambda>p. (Some (title p), Some (description p), price p, stock p, image_url p)) new =
     map (\<lambda>c. (cp_title c, cp_description c, cp_price c, cp_stock c, cp_image c)) cs"
    using Cons.IH [of "d\<lparr>products := products d @ [?p]\<rparr>"] Cons.prems by auto
  then show ?case using c by (intro exI [of _ d'] exI [of _ "?p # new"]) simp
qed

lemma upload_rows_cases:
  assumes "get_current_admin d cfg tok now = Inr a" "utf8_valid content"
  shows "fst (admin_upload d cfg tok now content) = Inr () \<longleftrightarrow>
         (\<exists>cs d'. parse_rows (dict_reader (py_splitlines content)) = Inr cs \<and> insert_products d cs = Inr d')"
proof (cases "parse_rows (dict_reader (py_splitlines content))")
  case (Inl e)
  with assms show ?thesis by (simp add: admin_upload_def py_decode_def)
next
  case (Inr cs)
  with assms show ?thesis
    by (cases "insert_products d cs") (simp_all add: admin_upload_def py_decode_def)
qed

lemma admin_upload_cases:
  assumes "admin_upload d cfg tok now content = (r, d')"
  shows "(\<exists>e. r = Inl e \<and> d' = d) \<or>
         (\<exists>cs. r = Inr () \<and> py_decode content = Inr content \<and>
               parse_rows (dict_reader (py_splitlines content)) = Inr cs \<and> insert_products d cs = Inr d')"
proof (cases "get_current_admin d cfg tok now")
  case (Inl e)
  with assms show ?thesis by (auto simp: admin_upload_def)
next
  case (Inr a)
  show ?thesis
  proof (cases "py_decode content")
    case (Inl e)
    with assms Inr show ?thesis by (auto simp: admin_upload_def)
  next
    case (Inr decoded)
    then have t: "decoded = content" by (simp add: py_decode_def split: if_splits)
    show ?thesis
    proof (cases "parse_rows (dict_reader (py_splitlines content))")
      case (Inl e)
      with assms \<open>get_current_admin d cfg tok now = Inr a\<close> Inr t show ?thesis
        by (auto simp: admin_upload_def)
    next
      case pr: (Inr cs)
      with assms \<open>get_current_admin d cfg tok now = Inr a\<close> Inr t show ?thesis
        by (cases "insert_products d cs") (auto simp: admin_upload_def)
    qed
  qed
qed

subsection \<open>Properties of the admin handlers\<close>

text \<open>An authenticated user who is not an admin gets 403 from the admin
  handlers of this theory, and none of them changes the database or the notifier.\<close>

lemma admin_requires_admin:
  assumes "get_current_user d cfg tok now = Inr u" "\<not> is_admin u"
  shows "admin_toggle_stock d h cfg tok now pid = (Inl (HTTPException 403 ''Admins only''), d, h) \<and>
         admin_upload d cfg tok now content = (Inl (HTTPException 403 ''Admins only''), d) \<and>
         admin_flags d cfg tok now name en = (Inl (HTTPException 403 ''Admins only''), d)"
  using admin_non_admin [OF assms]
  by (simp add: admin_toggle_stock_def admin_upload_def admin_flags_def)

text \<open>C14: a successful stock toggle sets the product's stock to 0 when it was
  positive and to 10 otherwise, leaves every other product's stock alone, and
  its broadcast brings the new stock to every listener registered and still
  connected when it ran.\<close>

theorem toggle_stock_notifies:
  assumes "admin_toggle_stock d h cfg tok now pid = (Inr s, d', h')"
    and "hub_inv h" "pending h = []"
  shows "(\<exists>old. stock_of d pid = Some old \<and> s = (if 0 < old then 0 else 10)) \<and>
         stock_of d' pid = Some s \<and> (\<forall>j. j \<noteq> pid \<longrightarrow> stock_of d' j = stock_of d j) \<and>
         (\<forall>w\<in>set (conns h). w \<notin> gone h \<longrightarrow>
            inbox (hub_run h' (replicate (Suc (length (conns h))) (Send 0))) w =
            inbox h w @ [\<lparr>msg_product = pid, msg_stock = s\<rparr>])"
proof -
  obtain a where "get_current_admin d cfg tok now = Inr a"
    using assms(1) by (cases "get_current_admin d cfg tok now") (auto simp: admin_toggle_stock_def)
  moreover obtain p where p: "get_product d pid = Some p"
    using assms(1) calculation by (cases "get_product d pid") (auto simp: admin_toggle_stock_def)
  ultimately have s: "s = (if 0 < stock p then 0 else 10)" and d': "d' = set_stock d pid s"
    and h': "h' = hub_broadcast h \<lparr>msg_product = pid, msg_stock = s\<rparr>"
    using assms(1) get_product_p_id [OF p] by (auto simp: admin_toggle_stock_def Let_def)
  have "stock_of d pid = Some (stock p)" using p by (simp add: stock_of_def)
  moreover have "stock_of d' pid = Some s" "\<forall>j. j \<noteq> pid \<longrightarrow> stock_of d' j = stock_of d j"
    using d' p by simp_all
  moreover have "\<forall>w\<in>set (conns h). w \<notin> gone h \<longrightarrow>
            inbox (hub_run h' (replicate (Suc (length (conns h))) (Send 0))) w =
            inbox h w @ [\<lparr>msg_product = pid, msg_stock = s\<rparr>]"
    using broadcast_then_sends [OF assms(2,3), of "\<lparr>msg_product = pid, msg_stock = s\<rparr>"] h'
    by simp
  ultimately show ?thesis using s by blast
qed

text \<open>C17: an upload either fails and leaves the database as it was, or appends
  one product per non-empty CSV record after the header, with fresh ids, and
  changes nothing else.\<close>

theorem upload_csv_effect:
  assumes "admin_upload d cfg tok now content = (r, d')" "products_wf d"
  shows "(case r of
            Inl _ \<Rightarrow> d' = d
          | Inr _ \<Rightarrow> (\<exists>new. products d' = products d @ new \<and>
                       length new = length (dict_reader (py_splitlines content)) \<and>
                       d'\<lparr>products := products d\<rparr> = d \<and> products_wf d'))"
  using admin_upload_cases [OF assms(1)]
proof
  assume "\<exists>e. r = Inl e \<and> d' = d"
  then show ?thesis by auto
next
  assume "\<exists>cs. r = Inr () \<and> py_decode content = Inr content \<and>
               parse_rows (dict_reader (py_splitlines content)) = Inr cs \<and> insert_products d cs = Inr d'"
  then obtain cs where r: "r = Inr ()" and pr: "parse_rows (dict_reader (py_splitlines content)) = Inr cs"
    and ins: "insert_products d cs = Inr d'" by blast
  show ?thesis
    using insert_products_Inr [OF ins] parse_rows_length [OF pr] assms(2) r by auto
qed

text \<open>C24: setting a flag keeps flag names and ids unique, gives the flag the
  requested value, and leaves every other flag's value alone.\<close>

theorem admin_flags_upsert:
  assumes "admin_flags d cfg tok now name en = (Inr r, d')" "flags_wf d"
  shows "flags_wf d' \<and> flag_enabled d' name = Some en \<and>
         (\<forall>n. n \<noteq> name \<longrightarrow> flag_enabled d' n = flag_enabled d n)"
proof (cases "find (\<lambda>f. flag_name f = name) (flags d)")
  case None
  with assms(1) have d': "d' = d\<lparr>flags := flags d @ [\<lparr>flag_id = next_rowid (map flag_id (flags d)),
                                                     flag_name = name, enabled = en\<rparr>]\<rparr>"
    by (auto simp: admin_flags_def split: sum.splits)
  have "name \<notin> set (map flag_name (flags d))"
    using None by (auto simp: find_None_iff)
  with assms(2) d' None show ?thesis
    by (auto simp: flags_wf_def flag_enabled_def find_append_eq next_rowid_fresh_image split: option.splits)
next
  case (Some f)
  with assms(1) have d': "d' = d\<lparr>flags := update_where (\<lambda>g. flag_id g = flag_id f)
                                                 (\<lambda>g. g\<lparr>enabled := en\<rparr>) (flags d)\<rparr>"
    by (auto simp: admin_flags_def split: sum.splits)
  have "map flag_name (flags d') = map flag_name (flags d)" "map flag_id (flags d') = map flag_id (flags d)"
    using d' by (simp_all add: update_where_def)
  with assms(2) d' find_flag_update [OF Some assms(2)] show ?thesis
    by (auto simp: flags_wf_def flag_enabled_def)
qed


text \<open>C16: an upload by an admin is accepted exactly when the file is valid UTF-8
  and every CSV record gives values of the types of the \<open>Product\<close> columns
  (\<open>row_typed\<close>); a short row (a \<open>NULL\<close> title or description, or \<open>float(None)\<close>)
  or a cell \<open>float()\<close> or \<open>int()\<close> refuses makes the whole upload fail.\<close>

theorem upload_accepts_typed:
  "fst (admin_upload d cfg tok now content) = Inr () \<longleftrightarrow>
   \<not> isl (get_current_admin d cfg tok now) \<and> utf8_valid content \<and>
   (\<forall>r\<in>set (dict_reader (py_splitlines content)). row_typed r)"
proof (cases "get_current_admin d cfg tok now")
  case (Inl e)
  then show ?thesis by (simp add: admin_upload_def)
next
  case (Inr a)
  show ?thesis
  proof (cases "utf8_valid content")
    case False
    with Inr show ?thesis by (simp add: admin_upload_def py_decode_def)
  next
    case True
    with Inr show ?thesis using upload_rows_cases [OF Inr True] rows_accepted by simp
  qed
qed


text \<open>C18: a catalogue written as CSV with the columns \<open>title\<close>, \<open>description\<close>,
  \<open>price\<close>, \<open>stock\<close> (\<open>csv.writer\<close>, minimal quoting, ASCII fields without
  line-break bytes, prices and stocks that \<open>float()\<close> and \<open>int()\<close> accept) and
  uploaded by an admin is added as exactly those products, in order: titles,
  descriptions, the numbers \<open>float()\<close> and \<open>int()\<close> read, and no image. The
  decoding, \<open>splitlines\<close>, the csv reader and \<open>DictReader\<close> give the records
  back unchanged.\<close>

theorem upload_roundtrip:
  assumes "get_current_admin d cfg tok now = Inr a"
    and "\<forall>r\<in>set rows. \<forall>f\<in>set r. \<forall>c\<in>set f. csv_safe c \<and> (of_char c :: nat) < 128"
    and "\<forall>r\<in>set rows. length r = 4 \<and> (\<exists>x. py_float (r ! 2) = Inr x) \<and> (\<exists>n. py_int (r ! 3) = Inr n)"
  shows "\<exists>d' new.
           admin_upload d cfg tok now (csv_text ([''title'', ''description'', ''price'', ''stock''] # rows)) =
             (Inr (), d') \<and> products d' = products d @ new \<and>
           map (\<lambda>p. (title p, description p, Inr (price p), Inr (stock p), image_url p)) new =
           map (\<lambda>r. (r ! 0, r ! 1, py_float (r ! 2), py_int (r ! 3), None)) rows"
proof -
  let ?hdr = "[''title'', ''description'', ''price'', ''stock'']"
  let ?content = "csv_text (?hdr # rows)"
  let ?cp = "\<lambda>r. \<lparr>cp_title = Some (r ! 0), cp_description = Some (r ! 1),
                  cp_price = projr (py_float (r ! 2)), cp_stock = projr (py_int (r ! 3)), cp_image = None\<rparr>"
  have hdr: "\<forall>f\<in>set ?hdr. \<forall>c\<in>set f. csv_safe c \<and> (of_char c :: nat) < 128"
    by (simp add: csv_safe_def)
  have "csv_reader (py_splitlines ?content) = ?hdr # rows"
    using assms(2) hdr by (intro csv_roundtrip) auto
  moreover have "filter (\<lambda>r. r \<noteq> []) rows = rows" using assms(3) by (intro filter_True) auto
  ultimately have dr: "dict_reader (py_splitlines ?content) = map (mk_dict ?hdr) rows"
    by (simp add: dict_reader_def)
  have utf: "utf8_valid ?content"
    using assms(2) hdr by (intro csv_text_ascii) auto
  obtain d' new where ins: "insert_products d (map ?cp rows) = Inr d'" "products d' = products d @ new"
    and m: "map (\<lambda>p. (Some (title p), Some (description p), price p, stock p, image_url p)) new =
            map (\<lambda>c. (cp_title c, cp_description c, cp_price c, cp_stock c, cp_image c)) (map ?cp rows)"
    using insert_products_all [of "map ?cp rows" d] by auto
  have up: "admin_upload d cfg tok now ?content = (Inr (), d')"
    using assms(1) utf dr parse_rows4 [OF assms(3)] ins(1) by (simp add: admin_upload_def py_decode_def)
  let ?k = "\<lambda>(t, ds, x, n, im). (the t, the ds, Inr x :: error + real, Inr n :: error + int, im :: string option)"
  have "map (\<lambda>p. (title p, description p, Inr (price p) :: error + real, Inr (stock p) :: error + int,
                   image_url p)) new =
        map (\<lambda>r. (r ! 0, r ! 1, Inr (projr (py_float (r ! 2))), Inr (projr (py_int (r ! 3))), None)) rows"
    using arg_cong [OF m, of "map ?k"] by (simp add: comp_def)
  also have "\<dots> = map (\<lambda>r. (r ! 0, r ! 1, py_float (r ! 2), py_int (r ! 3), None)) rows"
    using assms(3) by (auto intro!: map_cong)
  finally show ?thesis using up ins(2) by blast
qed

end
