(* ===== verification/Analytics.thy ===== *)
theory Analytics
  imports Auth
begin

text \<open>
  The analytics handlers of \<open>src/main.py\<close>: \<open>track\<close> (lines 212--216) records an
  event; \<open>analytics_summary\<close> (lines 190--199), behind \<open>get_current_admin\<close>, counts
  the \<open>view\<close> and \<open>purchase\<close> events and ranks products by purchases.
  \<^item> \<open>collections.Counter\<close> over a list is the loop CPython runs
    (\<open>_count_elements\<close>: \<open>mapping[x] = mapping.get(x, 0) + 1\<close>), on a dict in
    insertion order: \<open>counter_add\<close> and \<open>counter\<close>, an association list in the
    order keys first occur. \<open>count_ref\<close> is its specification.
  \<^item> \<open>Counter.most_common(n)\<close> is \<open>heapq.nlargest(n, items, key=count)\<close>,
    which the library documents as \<open>sorted(items, key=count, reverse=True)[:n]\<close>:
    a stable sort by decreasing count, ties in insertion order.
  \<^item> The comprehension keeps the product ids that are truthy: \<open>None\<close> and \<open>0\<close>
    are dropped.
  \<^item> The \<open>user\<close> parameter of \<open>track\<close> is an input (\<open>None\<close> when the request names
    no user).
\<close>

definition track :: "db \<Rightarrow> string \<Rightarrow> pid option \<Rightarrow> uid option \<Rightarrow> (error + unit) \<times> db" where
  "track d event_type product_id u = (Inr (), add_event d u event_type product_id)"

fun counter_add :: "(pid \<times> nat) list \<Rightarrow> pid \<Rightarrow> (pid \<times> nat) list" where
  "counter_add [] k = [(k, 1)]"
| "counter_add ((k', c) # rest) k =
     (if k' = k then (k', c + 1) # rest else (k', c) # counter_add rest k)"

definition counter :: "pid list \<Rightarrow> (pid \<times> nat) list" where
  "counter xs = foldl counter_add [] xs"

definition most_common :: "nat \<Rightarrow> (pid \<times> nat) list \<Rightarrow> (pid \<times> nat) list" where
  "most_common n c = take n (sort_key (\<lambda>(k, v). - int v) c)"

definition purchased_ids :: "event list \<Rightarrow> pid list" where
  "purchased_ids evs = [the (ev_product_id e). e \<leftarrow> evs, ev_product_id e \<noteq> None \<and> ev_product_id e \<noteq> Some 0]"

record summary =
  views :: nat
  purchases :: nat
  top_products :: "(pid \<times> nat) list"

definition analytics_summary :: "db \<Rightarrow> settings \<Rightarrow> jwt option \<Rightarrow> int \<Rightarrow> error + summary" where
  "analytics_summary d cfg tok now =
     (case get_current_admin d cfg tok now of
        Inl e \<Rightarrow> Inl e
      | Inr _ \<Rightarrow>
          (let vs = filter (\<lambda>e. ev_type e = ''view'') (events d);
               ps = filter (\<lambda>e. ev_type e = ''purchase'') (events d);
               c = counter (purchased_ids ps)
           in Inr \<lparr>views = length vs, purchases = length ps, top_products = most_common 5 c\<rparr>))"

text \<open>The specification of \<open>Counter\<close>: each distinct key, in first-occurrence
  order, with its number of occurrences.\<close>

definition count_ref :: "pid list \<Rightarrow> (pid \<times> nat) list" where
  "count_ref xs = map (\<lambda>k. (k, count_list xs k)) (rev (remdups (rev xs)))"

text \<open>The summary the endpoint promises for an event log.\<close>

definition summary_spec :: "event list \<Rightarrow> summary" where
  "summary_spec evs =
     \<lparr>views = length (filter (\<lambda>e. ev_type e = ''view'') evs),
      purchases = length (filter (\<lambda>e. ev_type e = ''purchase'') evs),
      top_products = most_common 5 (count_ref (purchased_ids (filter (\<lambda>e. ev_type e = ''purchase'') evs)))\<rparr>"


subsection \<open>Lemmas\<close>

lemma firsts_snoc:
  "rev (remdups (rev (ys @ [k]))) = (if k \<in> set ys then rev (remdups (rev ys)) else rev (remdups (rev ys)) @ [k])"
  by simp

lemma counter_add_map:
  "distinct ks \<Longrightarrow> counter_add (map (\<lambda>j. (j, f j)) ks) k =
     (if k \<in> set ks then map (\<lambda>j. (j, if j = k then f j + 1 else f j)) ks
      else map (\<lambda>j. (j, f j)) ks @ [(k, 1)])"
  by (induction ks) auto

lemma counter_add_count_ref: "counter_add (count_ref ys) k = count_ref (ys @ [k])"
proof -
  have "distinct (rev (remdups (rev ys)))" by simp
  then show ?thesis
    unfolding count_ref_def firsts_snoc
    by (auto simp: counter_add_map count_list_0_iff intro!: map_cong)
qed

lemma foldl_counter_add: "foldl counter_add (count_ref ys) xs = count_ref (ys @ xs)"
proof (induction xs arbitrary: ys)
  case Nil
  then show ?case by simp
next
  case (Cons x xs)
  then show ?case using Cons.IH [of "ys @ [x]"] by (simp add: counter_add_count_ref)
qed

lemma count_list_pos: "k \<in> set xs \<Longrightarrow> 0 < count_list xs k"
  using count_list_0_iff [of xs k] by simp

lemma count_ref_length: "length (count_ref xs) = card (set xs)"
  by (simp add: count_ref_def length_remdups_card_conv)

lemma count_ref_props:
  "distinct (map fst (count_ref xs)) \<and> set (map fst (count_ref xs)) = set xs \<and>
   (\<forall>(k, c)\<in>set (count_ref xs). c = count_list xs k \<and> 0 < c)"
  by (auto simp: count_ref_def comp_def count_list_pos)

lemma most_common_props:
  assumes "distinct (map fst c)"
  shows "set (most_common n c) \<subseteq> set c \<and> distinct (map fst (most_common n c)) \<and>
         length (most_common n c) = min n (length c) \<and>
         sorted_wrt (\<lambda>a b. snd b \<le> snd a) (most_common n c) \<and>
         (\<forall>x\<in>set c. x \<notin> set (most_common n c) \<longrightarrow> (\<forall>y\<in>set (most_common n c). snd x \<le> snd y))"
proof -
  let ?s = "sort_key (\<lambda>(k, v). - int v) c"
  have set_s: "set ?s = set c" by simp
  have dist: "distinct (map fst ?s)"
    using assms set_s by (simp add: distinct_map)
  have srt: "sorted_wrt (\<lambda>a b. snd b \<le> snd a) ?s"
  proof -
    have "sorted (map (\<lambda>(k, v). - int v) ?s)" by (rule sorted_sort_key)
    then show ?thesis by (simp add: sorted_map case_prod_beta sorted_wrt_mono_rel [of _ _ _])
  qed
  have "distinct ?s" using dist distinct_map by blast
  then have rest: "x \<in> set c \<Longrightarrow> x \<notin> set (take n ?s) \<Longrightarrow> x \<in> set (drop n ?s)" for x
    using set_s by (metis UnE append_take_drop_id set_append)
  have "set (take n ?s) \<subseteq> set c" using set_s set_take_subset by metis
  moreover have "distinct (map fst (take n ?s))" using dist by (simp add: take_map [symmetric])
  moreover have "length (take n ?s) = min n (length c)" by simp
  moreover have "sorted_wrt (\<lambda>a b. snd b \<le> snd a) (take n ?s)" using srt by (rule sorted_wrt_take)
  moreover have "\<forall>x\<in>set c. x \<notin> set (take n ?s) \<longrightarrow> (\<forall>y\<in>set (take n ?s). snd x \<le> snd y)"
    using rest sorted_wrt_take_drop [OF srt] by blast
  moreover have mc: "most_common n c = take n ?s" by (simp add: most_common_def)
  ultimately show ?thesis by (simp only: mc)
qed

lemma counter_count_ref: "counter xs = count_ref xs"
  using foldl_counter_add [of "[]" xs] by (simp add: counter_def count_ref_def)

lemma analytics_summary_admin:
  "get_current_admin d cfg tok now = Inr a \<Longrightarrow> analytics_summary d cfg tok now = Inr (summary_spec (events d))"
  by (simp add: analytics_summary_def summary_spec_def Let_def counter_count_ref)

lemma analytics_summary_Inr:
  assumes "analytics_summary d cfg tok now = Inr s"
  shows "s = summary_spec (events d)"
proof (cases "get_current_admin d cfg tok now")
  case (Inl e)
  with assms show ?thesis by (simp add: analytics_summary_def)
next
  case (Inr a)
  with assms show ?thesis by (simp add: analytics_summary_admin)
qed

subsection \<open>Properties of the analytics handlers\<close>

text \<open>C19: ties in the ranking are broken by first purchase: among the products
  with the same purchase count \<open>c\<close>, the top products are the ones purchased
  first, listed in the order of their first purchase
  (\<open>rev (remdups (rev ps))\<close> is the purchased products in that order). This is
  the stability of the sort behind \<open>most_common\<close> over a \<open>Counter\<close> in insertion
  order; it is not the product id order.\<close>

theorem top_products_tie_order:
  assumes "analytics_summary d cfg tok now = Inr s"
  defines "ps \<equiv> purchased_ids (filter (\<lambda>e. ev_type e = ''purchase'') (events d))"
  shows "\<exists>rest. map fst (filter (\<lambda>x. snd x = c) (top_products s)) @ rest =
                filter (\<lambda>k. count_list ps k = c) (rev (remdups (rev ps)))"
proof -
  let ?f = "\<lambda>(k::pid, v::nat). - int v"
  let ?P = "\<lambda>x::pid \<times> nat. snd x = c"
  have top: "top_products s = take 5 (sort_key ?f (count_ref ps))"
    using analytics_summary_Inr [OF assms(1)] by (simp add: summary_spec_def most_common_def ps_def)
  have "filter ?P (sort_key ?f (count_ref ps)) = filter (\<lambda>y. ?f y = - int c) (sort_key ?f (count_ref ps))"
    by (rule filter_cong) auto
  also have "\<dots> = filter (\<lambda>y. ?f y = - int c) (count_ref ps)" by (rule sort_key_stable)
  also have "\<dots> = filter ?P (count_ref ps)" by (rule filter_cong) auto
  finally have stable: "filter ?P (sort_key ?f (count_ref ps)) = filter ?P (count_ref ps)" .
  have "filter ?P (top_products s) @ filter ?P (drop 5 (sort_key ?f (count_ref ps))) = filter ?P (count_ref ps)"
    using stable unfolding top by (metis append_take_drop_id filter_append)
  moreover have "map fst (filter ?P (count_ref ps)) = filter (\<lambda>k. count_list ps k = c) (rev (remdups (rev ps)))"
    by (simp add: count_ref_def filter_map comp_def)
  ultimately show ?thesis by (metis map_append)
qed
text \<open>C20: the summary an admin receives counts the view and purchase events, and
  its top products are the at most five most purchased products (ids \<open>None\<close>
  and \<open>0\<close> left out), each once with its purchase count, in decreasing order of
  count; a product left out was purchased no more often than any listed one.\<close>

theorem analytics_top_products:
  assumes "analytics_summary d cfg tok now = Inr s"
  defines "ps \<equiv> purchased_ids (filter (\<lambda>e. ev_type e = ''purchase'') (events d))"
  shows "views s = length (filter (\<lambda>e. ev_type e = ''view'') (events d)) \<and>
         purchases s = length (filter (\<lambda>e. ev_type e = ''purchase'') (events d)) \<and>
         distinct (map fst (top_products s)) \<and> length (top_products s) = min 5 (card (set ps)) \<and>
         (\<forall>(k, c)\<in>set (top_products s). k \<in> set ps \<and> k \<noteq> 0 \<and> c = count_list ps k) \<and>
         sorted_wrt (\<lambda>a b. snd b \<le> snd a) (top_products s) \<and>
         (\<forall>k\<in>set ps. k \<notin> fst ` set (top_products s) \<longrightarrow>
            (\<forall>y\<in>set (top_products s). count_list ps k \<le> snd y))"
proof -
  have s: "top_products s = most_common 5 (count_ref ps)"
    using analytics_summary_Inr [OF assms(1)] by (simp add: ps_def summary_spec_def)
  have nz: "0 \<notin> set ps" by (auto simp: ps_def purchased_ids_def)
  have c: "distinct (map fst (count_ref ps))" "set (map fst (count_ref ps)) = set ps"
    "\<forall>(k, c)\<in>set (count_ref ps). c = count_list ps k \<and> 0 < c"
    using count_ref_props [of ps] by simp_all
  note m = most_common_props [OF c(1), of 5]
  have sub: "set (top_products s) \<subseteq> set (count_ref ps)" using m s by simp
  have "\<forall>(k, c)\<in>set (top_products s). k \<in> set ps \<and> k \<noteq> 0 \<and> c = count_list ps k"
  proof (intro ballI, clarify)
    fix k c assume "(k, c) \<in> set (top_products s)"
    then have kc: "(k, c) \<in> set (count_ref ps)" using sub by blast
    then have "k \<in> set ps" using c(2) by force
    then show "k \<in> set ps \<and> k \<noteq> 0 \<and> c = count_list ps k" using kc c(3) nz by auto
  qed
  moreover have "\<forall>k\<in>set ps. k \<notin> fst ` set (top_products s) \<longrightarrow>
            (\<forall>y\<in>set (top_products s). count_list ps k \<le> snd y)"
  proof (intro ballI impI)
    fix k y assume k: "k \<in> set ps" "k \<notin> fst ` set (top_products s)" and y: "y \<in> set (top_products s)"
    have "(k, count_list ps k) \<in> set (count_ref ps)" using k(1) by (auto simp: count_ref_def)
    moreover have "(k, count_list ps k) \<notin> set (most_common 5 (count_ref ps))"
      using k(2) s by (metis fst_conv image_eqI)
    ultimately show "count_list ps k \<le> snd y" using m y s by fastforce
  qed
  ultimately show ?thesis
    using analytics_summary_Inr [OF assms(1)] m s count_ref_length [of ps] by (simp add: ps_def summary_spec_def)
qed

end
