(* ===== verification/Pages.thy ===== *)
theory Pages
  imports Auth
begin

text \<open>
  The HTML pages of \<open>src/main.py\<close> without their templates: each page is the
  data its handler passes to \<open>templates.TemplateResponse\<close>. \<open>home\<close> (lines
  46--49) lists every product in row-id order; \<open>admin_page\<close> (lines 145--149),
  behind \<open>get_current_admin\<close>, lists the products, the feature flags and the
  admin. The product page is \<open>product_page\<close> of theory \<open>Recs\<close>. Rendering
  (Jinja2, HTML escaping) is not modelled.
\<close>

definition home :: "db \<Rightarrow> product list" where
  "home d = products d"

definition admin_page :: "db \<Rightarrow> settings \<Rightarrow> jwt option \<Rightarrow> int \<Rightarrow>
    error + product list \<times> feature_flag list \<times> user" where
  "admin_page d cfg tok now =
     (case get_current_admin d cfg tok now of
        Inl e \<Rightarrow> Inl e
      | Inr a \<Rightarrow> Inr (products d, flags d, a))"

end
