(* ===== verification/AdminScenarios.thy ===== *)
theory AdminScenarios
  imports Admin Analytics Pages Scenarios
begin

text \<open>
  A concrete shop on which the authentication, admin, notifier and analytics
  handlers run, evaluated by the simplifier: an admin (id 1) and a customer
  (id 2) with tokens issued at time 0 under the default settings, two products,
  the \<open>experiments\<close> flag, and a log of view and purchase events. The
  theorems of the component theories are applied here at inputs where their
  hypotheses hold.
\<close>

definition admin_user :: user where
  "admin_user = \<lparr>user_id = 1, email = ''admin@shop.io'', hashed_password = hash_password ''secret'',
                 is_admin = True\<rparr>"

definition bob :: user where
  "bob = \<lparr>user_id = 2, email = ''bob@shop.io'', hashed_password = hash_password ''pw2'', is_admin = False\<rparr>"

definition ev :: "row_id \<Rightarrow> string \<Rightarrow> pid option \<Rightarrow> event" where
  "ev i ty p = \<lparr>ev_id = i, ev_user_id = None, ev_type = ty, ev_product_id = p, meta = None\<rparr>"

definition shop_db :: db where
  "shop_db = empty_db\<lparr>users := [admin_user, bob],
     products := [prod_row 1 ''A'' 10 5, prod_row 2 ''B'' 7 0],
     events := [ev 1 ''purchase'' (Some 2), ev 2 ''view'' (Some 1), ev 3 ''purchase'' (Some 1),
                ev 4 ''purchase'' (Some 1), ev 5 ''purchase'' None, ev 6 ''purchase'' (Some 0)],
     flags := [\<lparr>flag_id = 1, flag_name = ''experiments'', enabled = False\<rparr>]\<rparr>"

definition admin_tok :: jwt where
  "admin_tok = create_access_token default_settings (py_str_int 1) 0"

definition bob_tok :: jwt where
  "bob_tok = create_access_token default_settings (py_str_int 2) 0"

text \<open>Three listeners; the client of listener 2 has gone.\<close>

definition hub0 :: hub where
  "hub0 = \<lparr>conns = [1, 2, 3], gone = {2}, inbox = (\<lambda>_. []), pending = []\<rparr>"

definition signed_up :: db where
  "signed_up = shop_db\<lparr>users := users shop_db @
     [\<lparr>user_id = 3, email = ''carol@shop.io'', hashed_password = hash_password ''pw3'', is_admin = False\<rparr>]\<rparr>"

definition upload_rows :: "string list list" where
  "upload_rows = [[''title'', ''description'', ''price'', ''stock''], [''C'', ''new'', ''25'', ''4'']]"

definition uploaded :: db where
  "uploaded = shop_db\<lparr>products := products shop_db @
     [\<lparr>p_id = 3, title = ''C'', description = ''new'', price = 25, image_url = None, stock = 4,
       category_id = None, variant_a_title = None, variant_b_title = None, variant_a_desc = None,
       variant_b_desc = None\<rparr>]\<rparr>"

text \<open>The shop with a cart for the customer: 2 of product A (price 10, stock 5).\<close>

definition cart_shop :: db where
  "cart_shop = shop_db\<lparr>carts := [\<lparr>cart_id = 1, cart_user_id = 2\<rparr>],
     cart_items := [\<lparr>ci_id = 1, ci_cart_id = 1, ci_product_id = 1, ci_qty = 2\<rparr>]\<rparr>"

text \<open>Two purchases of equal count, product 2 bought first.\<close>

definition tie_shop :: db where
  "tie_shop = shop_db\<lparr>events := [ev 1 ''purchase'' (Some 2), ev 2 ''purchase'' (Some 1)]\<rparr>"

text \<open>A file whose data row is short: only a title, no description or price.\<close>

definition short_rows :: "string list list" where
  "short_rows = [[''title'', ''description'', ''price''], [''D'']]"

lemma shop_fields:
  "users shop_db = [admin_user, bob]"
  "products shop_db = [prod_row 1 ''A'' 10 5, prod_row 2 ''B'' 7 0]"
  "events shop_db = [ev 1 ''purchase'' (Some 2), ev 2 ''view'' (Some 1), ev 3 ''purchase'' (Some 1),
                     ev 4 ''purchase'' (Some 1), ev 5 ''purchase'' None, ev 6 ''purchase'' (Some 0)]"
  "flags shop_db = [\<lparr>flag_id = 1, flag_name = ''experiments'', enabled = False\<rparr>]"
  by (simp_all add: shop_db_def)

lemmas shop_simps = shop_fields admin_user_def bob_def ev_def prod_row_def

lemma current_admin_tok: "get_current_user shop_db default_settings (Some admin_tok) 5 = Inr admin_user"
  using current_user_token [of 0 5 default_settings shop_db 1]
  by (simp add: admin_tok_def default_settings_def get_user_def shop_simps)

lemma current_bob_tok: "get_current_user shop_db default_settings (Some bob_tok) 5 = Inr bob"
  using current_user_token [of 0 5 default_settings shop_db 2]
  by (simp add: bob_tok_def default_settings_def get_user_def shop_simps)

lemma admin_admin_tok: "get_current_admin shop_db default_settings (Some admin_tok) 5 = Inr admin_user"
  by (simp add: get_current_admin_def current_admin_tok admin_user_def)

lemma signup_carol:
  "api_signup shop_db default_settings ''carol@shop.io'' ''pw3'' 0 =
     (Inr (create_access_token default_settings (py_str_int 3) 0, ''bearer''), signed_up)"
  by (simp add: api_signup_def user_by_email_def signed_up_def next_rowid_def shop_simps)

lemma summary_shop:
  "analytics_summary shop_db default_settings (Some admin_tok) 5 =
     Inr \<lparr>views = 1, purchases = 5, top_products = [(1, 2), (2, 1)]\<rparr>"
  by (simp add: analytics_summary_def admin_admin_tok counter_def most_common_def
                purchased_ids_def shop_simps)

lemma checkout_cart_shop: "fst (checkout cart_shop 2) = Inr (1, 20)"
  by code_simp

lemma summary_cart_shop:
  "analytics_summary cart_shop default_settings (Some admin_tok) 5 =
     Inr \<lparr>views = 1, purchases = 5, top_products = [(1, 2), (2, 1)]\<rparr>"
proof -
  have "get_current_admin cart_shop default_settings (Some admin_tok) 5 = Inr admin_user"
    using get_current_admin_users [of cart_shop shop_db] admin_admin_tok by (simp add: cart_shop_def)
  then have "analytics_summary cart_shop default_settings (Some admin_tok) 5 = Inr (summary_spec (events shop_db))"
    by (simp add: analytics_summary_admin cart_shop_def)
  moreover have "summary_spec (events shop_db) = \<lparr>views = 1, purchases = 5, top_products = [(1, 2), (2, 1)]\<rparr>"
    using analytics_summary_Inr [OF summary_shop] by simp
  ultimately show ?thesis by simp
qed

subsection \<open>Witnesses\<close>

theorem upload_roundtrip_witness:
  "get_current_admin shop_db default_settings (Some admin_tok) 5 = Inr admin_user \<and>
   list_all (list_all (list_all (\<lambda>c. csv_safe c \<and> (of_char c :: nat) < 128))) [[''C'', ''new'', ''25'', ''4'']] \<and>
   list_all (\<lambda>r. length r = 4 \<and> (\<exists>x. py_float (r ! 2) = Inr x) \<and> (\<exists>n. py_int (r ! 3) = Inr n))
     [[''C'', ''new'', ''25'', ''4'']] \<and>
   (\<exists>d' new. admin_upload shop_db default_settings (Some admin_tok) 5 (csv_text upload_rows) = (Inr (), d') \<and>
      products d' = products shop_db @ new \<and>
      map (\<lambda>p. (title p, description p, Inr (price p), Inr (stock p), image_url p)) new =
        [(''C'', ''new'', py_float ''25'', py_int ''4'', None)])"
proof -
  have s: "list_all (list_all (list_all (\<lambda>c. csv_safe c \<and> (of_char c :: nat) < 128))) [[''C'', ''new'', ''25'', ''4'']]"
    by (simp add: csv_safe_def)
  have f: "py_float ''25'' = Inr 25" "py_int ''4'' = Inr 4" by code_simp+
  then have t: "list_all (\<lambda>r. length r = 4 \<and> (\<exists>x. py_float (r ! 2) = Inr x) \<and> (\<exists>n. py_int (r ! 3) = Inr n))
     [[''C'', ''new'', ''25'', ''4'']]" by simp
  have "upload_rows = [''title'', ''description'', ''price'', ''stock''] # [[''C'', ''new'', ''25'', ''4'']]"
    by (simp add: upload_rows_def)
  then show ?thesis
    using upload_roundtrip [OF admin_admin_tok, of "[[''C'', ''new'', ''25'', ''4'']]"] s t admin_admin_tok
    by (simp add: list_all_iff)
qed

theorem signup_token_authenticates_witness:
  "api_signup shop_db default_settings ''carol@shop.io'' ''pw3'' 0 =
     (Inr (create_access_token default_settings (py_str_int 3) 0, ''bearer''), signed_up) \<and>
   (0::int) \<le> 600 \<and> 600 \<le> 0 + 60 * token_minutes default_settings \<and>
   (\<exists>u. get_current_user signed_up default_settings (Some (create_access_token default_settings (py_str_int 3) 0)) 600 = Inr u \<and>
        email u = ''carol@shop.io'' \<and> \<not> is_admin u \<and> u \<in> set (users signed_up) \<and> u \<notin> set (users shop_db))"
proof -
  note h = signup_carol
  have t: "(0::int) \<le> 600" "600 \<le> 0 + 60 * token_minutes default_settings"
    by (simp_all add: default_settings_def)
  show ?thesis using signup_token_authenticates [OF h t] h t by blast
qed

theorem invalid_token_rejected_witness:
  "''stolen'' \<noteq> secret_key default_settings \<and>
   get_current_user shop_db default_settings (Some (Jwt (Some ''1'') 3600 ''stolen'')) 5 =
     Inl (HTTPException 401 ''Invalid token'')"
proof -
  have k: "''stolen'' \<noteq> secret_key default_settings" by (simp add: default_settings_def)
  then have h: "''stolen'' \<noteq> secret_key default_settings \<or> (3600::int) < 5" by blast
  show ?thesis using k invalid_token_rejected [OF h] by blast
qed

theorem broadcast_delivers_witness:
  "hub_inv hub0 \<and> pending hub0 = [] \<and>
   (let h' = hub_run hub0 (Broadcast \<lparr>msg_product = 1, msg_stock = 0\<rparr> # replicate 4 (Send 0))
    in pending h' = [] \<and> conns h' = [1, 3] \<and> inbox h' 1 = [\<lparr>msg_product = 1, msg_stock = 0\<rparr>] \<and>
       inbox h' 2 = [] \<and> inbox h' 3 = [\<lparr>msg_product = 1, msg_stock = 0\<rparr>])"
proof -
  have h: "hub_inv hub0" "pending hub0 = []" by (simp_all add: hub_inv_def hub0_def)
  show ?thesis
    using broadcast_delivers [OF h, of "\<lparr>msg_product = 1, msg_stock = 0\<rparr>"] h
    by (simp add: hub0_def numeral_eq_Suc)
qed

theorem toggle_stock_notifies_witness:
  "admin_toggle_stock shop_db hub0 default_settings (Some admin_tok) 5 1 =
     (Inr 0, set_stock shop_db 1 0, hub_broadcast hub0 \<lparr>msg_product = 1, msg_stock = 0\<rparr>) \<and>
   hub_inv hub0 \<and> pending hub0 = [] \<and>
   stock_of (set_stock shop_db 1 0) 1 = Some 0 \<and>
   inbox (hub_run (hub_broadcast hub0 \<lparr>msg_product = 1, msg_stock = 0\<rparr>) (replicate 4 (Send 0))) 3 =
     [\<lparr>msg_product = 1, msg_stock = 0\<rparr>]"
proof -
  have h: "admin_toggle_stock shop_db hub0 default_settings (Some admin_tok) 5 1 =
     (Inr 0, set_stock shop_db 1 0, hub_broadcast hub0 \<lparr>msg_product = 1, msg_stock = 0\<rparr>)"
    by (simp add: admin_toggle_stock_def admin_admin_tok get_product_def Let_def shop_simps)
  have i: "hub_inv hub0" "pending hub0 = []" by (simp_all add: hub_inv_def hub0_def)
  show ?thesis
    using toggle_stock_notifies [OF h i] h i by (simp add: hub0_def numeral_eq_Suc)
qed

theorem upload_csv_effect_witness:
  "admin_upload shop_db default_settings (Some admin_tok) 5 (csv_text upload_rows) = (Inr (), uploaded) \<and>
   products_wf shop_db \<and>
   (\<exists>new. products uploaded = products shop_db @ new \<and>
      length new = length (dict_reader (py_splitlines (csv_text upload_rows))) \<and>
      uploaded\<lparr>products := products shop_db\<rparr> = shop_db \<and> products_wf uploaded)"
proof -
  have h: "admin_upload shop_db default_settings (Some admin_tok) 5 (csv_text upload_rows) = (Inr (), uploaded)"
    by code_simp
  have w: "products_wf shop_db" by (simp add: products_wf_def shop_simps)
  show ?thesis using upload_csv_effect [OF h w] h w by simp
qed

theorem admin_flags_upsert_witness:
  "admin_flags shop_db default_settings (Some admin_tok) 5 ''experiments'' True =
     (Inr (), shop_db\<lparr>flags := [\<lparr>flag_id = 1, flag_name = ''experiments'', enabled = True\<rparr>]\<rparr>) \<and>
   flags_wf shop_db \<and>
   flag_enabled (shop_db\<lparr>flags := [\<lparr>flag_id = 1, flag_name = ''experiments'', enabled = True\<rparr>]\<rparr>) ''experiments'' =
     Some True"
proof -
  have h: "admin_flags shop_db default_settings (Some admin_tok) 5 ''experiments'' True =
     (Inr (), shop_db\<lparr>flags := [\<lparr>flag_id = 1, flag_name = ''experiments'', enabled = True\<rparr>]\<rparr>)"
    by (simp add: admin_flags_def admin_admin_tok update_where_def shop_simps)
  have w: "flags_wf shop_db" by (simp add: flags_wf_def shop_simps)
  show ?thesis using admin_flags_upsert [OF h w] h w by blast
qed

theorem analytics_top_products_witness:
  "analytics_summary shop_db default_settings (Some admin_tok) 5 =
     Inr \<lparr>views = 1, purchases = 5, top_products = [(1, 2), (2, 1)]\<rparr> \<and>
   length (top_products \<lparr>views = 1, purchases = 5, top_products = [(1::int, 2::nat), (2, 1)]\<rparr>) =
     min 5 (card (set (purchased_ids (filter (\<lambda>e. ev_type e = ''purchase'') (events shop_db)))))"
proof -
  note h = summary_shop
  show ?thesis using analytics_top_products [OF h] h by simp
qed


theorem broadcast_terminates_witness:
  "pending (hub_broadcast hub0 \<lparr>msg_product = 1, msg_stock = 0\<rparr>) = [(\<lparr>msg_product = 1, msg_stock = 0\<rparr>, [1, 2, 3])] \<and>
   list_all (\<lambda>e. e = Send 0 \<or> (\<exists>w. e \<in> set (inventory_ws w))) (Send 0 # inventory_ws 4 @ replicate 3 (Send 0)) \<and>
   length [1, 2, 3::lid] < length (filter (\<lambda>e. e = Send 0) (Send 0 # inventory_ws 4 @ replicate 3 (Send 0))) \<and>
   pending (hub_run (hub_broadcast hub0 \<lparr>msg_product = 1, msg_stock = 0\<rparr>) (Send 0 # inventory_ws 4 @ replicate 3 (Send 0))) = [] \<and>
   inbox (hub_run (hub_broadcast hub0 \<lparr>msg_product = 1, msg_stock = 0\<rparr>) (Send 0 # inventory_ws 4 @ replicate 3 (Send 0))) 4 = []"
proof -
  have p: "pending (hub_broadcast hub0 \<lparr>msg_product = 1, msg_stock = 0\<rparr>) = [(\<lparr>msg_product = 1, msg_stock = 0\<rparr>, [1, 2, 3])]"
    by (simp add: hub_broadcast_def hub0_def)
  have a: "list_all (\<lambda>e. e = Send 0 \<or> (\<exists>w. e \<in> set (inventory_ws w))) (Send 0 # inventory_ws 4 @ replicate 3 (Send 0))"
    by (simp add: inventory_ws_def numeral_eq_Suc)
  then have l: "\<forall>e\<in>set (Send 0 # inventory_ws 4 @ replicate 3 (Send 0)). e = Send 0 \<or> (\<exists>w. e \<in> set (inventory_ws w))"
    by (simp only: list_all_iff)
  have n: "length [1, 2, 3::lid] < length (filter (\<lambda>e. e = Send 0) (Send 0 # inventory_ws 4 @ replicate 3 (Send 0)))"
    by (simp add: inventory_ws_def numeral_eq_Suc)
  have "inbox (hub_broadcast hub0 \<lparr>msg_product = 1, msg_stock = 0\<rparr>) 4 = []"
    by (simp add: hub_broadcast_def hub0_def)
  then show ?thesis using broadcast_terminates [OF p l n] p a n by simp
qed


theorem upload_accepts_typed_witness:
  "fst (admin_upload shop_db default_settings (Some admin_tok) 5 (csv_text upload_rows)) = Inr () \<and>
   list_all row_typed (dict_reader (py_splitlines (csv_text upload_rows))) \<and>
   \<not> list_all row_typed (dict_reader (py_splitlines (csv_text short_rows))) \<and>
   fst (admin_upload shop_db default_settings (Some admin_tok) 5 (csv_text short_rows)) \<noteq> Inr ()"
proof -
  have ok: "fst (admin_upload shop_db default_settings (Some admin_tok) 5 (csv_text upload_rows)) = Inr ()"
    by code_simp
  have bad: "\<not> list_all row_typed (dict_reader (py_splitlines (csv_text short_rows)))"
    by code_simp
  show ?thesis
    using upload_accepts_typed [of shop_db default_settings "Some admin_tok" 5 "csv_text upload_rows"]
          upload_accepts_typed [of shop_db default_settings "Some admin_tok" 5 "csv_text short_rows"] ok bad
    by (simp add: list_all_iff)
qed

lemma summary_tie_shop:
  "analytics_summary tie_shop default_settings (Some admin_tok) 5 =
     Inr \<lparr>views = 0, purchases = 2, top_products = [(2, 1), (1, 1)]\<rparr>"
  by code_simp

theorem top_products_tie_order_witness:
  "analytics_summary tie_shop default_settings (Some admin_tok) 5 =
     Inr \<lparr>views = 0, purchases = 2, top_products = [(2, 1), (1, 1)]\<rparr> \<and>
   purchased_ids (filter (\<lambda>e. ev_type e = ''purchase'') (events tie_shop)) = [2, 1] \<and>
   (\<exists>rest. map fst (filter (\<lambda>x. snd x = 1) [(2::pid, 1::nat), (1, 1)]) @ rest =
      filter (\<lambda>k. count_list [2::pid, 1] k = 1) (rev (remdups (rev [2, 1]))))"
proof -
  have p: "purchased_ids (filter (\<lambda>e. ev_type e = ''purchase'') (events tie_shop)) = [2, 1]"
    by (simp add: tie_shop_def ev_def purchased_ids_def)
  show ?thesis using top_products_tie_order [OF summary_tie_shop, of 1] summary_tie_shop p by simp
qed


end
