(* ===== verification/Spec2Isabelle.thy ===== *)
theory Spec2Isabelle
  imports Scenarios RecScenarios AdminScenarios Pages
begin

text \<open>
  \<^bold>\<open>Standout Store: a verification model of the storefront.\<close>

  The program is a FastAPI storefront. \<open>src/models.py\<close> declares the SQLModel
  tables, \<open>src/database.py\<close> the SQLite engine and sessions, \<open>src/main.py\<close> the
  request handlers (startup seeding, pages, authentication, cart, checkout,
  admin, analytics, tracking, the inventory web socket), \<open>src/recs.py\<close> the
  content-based recommender, \<open>src/auth.py\<close> password hashing, tokens and the
  \<open>get_current_user\<close>/\<open>get_current_admin\<close> dependencies. Handlers share the
  database; each request has its own session. The product page calls the
  recommender; checkout writes products, orders, order items, events and cart
  lines; the admin endpoints run behind \<open>get_current_admin\<close>; the stock toggle
  broadcasts on the notifier \<open>hub\<close>, whose listeners the web socket endpoint
  registers; the analytics summary reads the events checkout and tracking write.

  \<^bold>\<open>Theories.\<close>
  \<^item> \<open>Prelude\<close>: Python's \<open>round(x, 2)\<close> (\<open>py_round2\<close>), slices (\<open>py_take\<close>),
    SQLite's next row id (\<open>next_rowid\<close>), updating the rows that match a key;
    the list, option and \<open>find\<close> lemmas the components share.
  \<^item> \<open>Models\<close>: one record per table, the database \<open>db\<close> as a record of tables
    in row-id order, the \<open>error\<close> type (\<open>HTTPException\<close>, \<open>AttributeError\<close>,
    \<open>ValueError\<close>, \<open>TypeError\<close>, \<open>UnicodeDecodeError\<close>, \<open>IntegrityError\<close>) and
    the row operations, with their frame lemmas.
  \<^item> \<open>PyLib\<close>: the builtins the handlers call, with CPython's semantics:
    \<open>int()\<close> and \<open>str()\<close> of integers, \<open>float()\<close> on decimal literals, UTF-8
    decoding, \<open>str.splitlines()\<close>, the \<open>csv\<close> reader state machine,
    \<open>csv.DictReader\<close> and \<open>dict.get\<close>. Lemmas: \<open>int(str(i)) = i\<close>; a string
    holding a character other than digits, whitespace, signs and underscores
    makes \<open>int()\<close> raise; the reader gives back the records \<open>csv.writer\<close>
    writes (\<open>csv_roundtrip\<close>, used by the upload round trip).
  \<^item> \<open>Auth\<close>: \<open>auth.py\<close> and \<open>api_signup\<close>/\<open>api_login\<close> (\<open>main.py\<close> 60--76),
    with symbolic tokens and hashes. Lemmas: a signup token authenticates the
    new user until it expires, bad tokens get 401, login succeeds exactly on
    the right password, a signed token whose subject is not a number escapes
    \<open>except JWTError\<close> (\<open>signed_subject_not_int\<close>).
  \<^item> \<open>Notifier\<close>: the hub of \<open>app/ws.py\<close> (absent from the repository, modelled
    from the specification) as a state with a step function over caller events
    (\<open>hub_step\<close>, \<open>hub_run\<close>), and \<open>inventory_ws\<close> (\<open>main.py\<close> 202--209).
    Lemmas: the registry stays duplicate-free; a broadcast reaches every live
    listener (\<open>broadcast_delivers\<close>) and finishes under any interleaving of
    registrations, never reaching a listener outside its snapshot
    (\<open>broadcast_terminates\<close>).
  \<^item> \<open>Cart\<close>, \<open>Checkout\<close>: \<open>get_or_create_cart\<close>, \<open>add_to_cart\<close>, \<open>get_cart\<close>
    and \<open>checkout\<close> (\<open>main.py\<close> 79--142), each \<open>db \<Rightarrow> (error + response) \<times> db\<close>,
    the database returned being the one committed when the request ends.
    Lemmas: the cart invariant is preserved; checkout is all-or-nothing, lowers
    each stock by the cart's quantity, keeps stocks non-negative, writes the
    order, its lines and events, clears the cart, and names the failing line.
  \<^item> \<open>Seed\<close>: \<open>on_startup\<close> (19--43) and the seeded catalog.
  \<^item> \<open>Concurrency\<close>: checkout requests as threads of database statements with
    the session identity map; \<open>reach\<close> is every interleaving. A request alone
    refines \<open>checkout\<close>; every reachable state keeps order items pointing to
    committed orders.
  \<^item> \<open>Tfidf\<close>, \<open>Recs\<close>: the scikit-learn calls of \<open>recs.py\<close> with their
    defaults, \<open>recommend_for_product\<close> (7--26) and \<open>product_page\<close> (51--57).
    Lemmas: the result excludes the query, has at most \<open>n\<close> distinct
    products, is the top of the ranking for every order of ties, and for
    \<open>n \<le> 0\<close> is empty unless another product ties the query at the top
    (\<open>recommend_nonpositive_n\<close>); the vectorizer error is raised before the
    fallback.
  \<^item> \<open>Admin\<close>: \<open>admin_toggle_stock\<close>, \<open>admin_upload\<close> and \<open>admin_flags\<close>
    (151--187). Lemmas: the toggle's new stock reaches the live listeners; an
    upload is all-or-nothing, appends one product per CSV record, and is
    accepted exactly when every record has the column types
    (\<open>upload_accepts_typed\<close>); a catalogue written as CSV uploads as exactly
    its products (\<open>upload_roundtrip\<close>); flags stay unique.
  \<^item> \<open>Analytics\<close>: \<open>track\<close> and \<open>analytics_summary\<close> (190--216) with
    \<open>collections.Counter\<close> as CPython's counting loop. Lemmas: the top
    products are the five most purchased, in decreasing order, and products of
    equal count are ranked by first purchase, not by id
    (\<open>top_products_tie_order\<close>).
  \<^item> \<open>Pages\<close>: \<open>home\<close> and \<open>admin_page\<close>, the data their templates receive.
  \<^item> \<open>Scenarios\<close>, \<open>RecScenarios\<close>, \<open>AdminScenarios\<close>: concrete databases and hubs,
    the specification's scenarios, the interleavings that oversell and lose an
    update, behaviours the specification does not describe, and the witnesses.
  \<^item> This theory: properties across components, where handlers meet through
    the database, the tokens and the notifier: every admin endpoint refuses a
    non-admin; a signup is followed by a working login; checkout and tracking
    show in the analytics summary.

  \<^bold>\<open>Modelling choices.\<close> Python floats are exact reals, Python integers are
  \<open>int\<close>. Tables are lists in row-id order, which is the order SQLite returns
  without \<open>ORDER BY\<close>. A handler that raises returns the database of its
  last commit. Strings are byte lists (UTF-8 where the source has non-ASCII
  text). \<open>argsort_desc\<close> fixes one order for tied similarities (a stable
  ascending sort, reversed); numpy's default sort guarantees no tie order
  (introsort above 16 elements, vectorised sorts on x86), so no property
  relies on it: the ranking theorems hold for every order of ties, and only
  the concrete evaluations on catalogs with ties show this particular order.
  The tokenizer treats ASCII letters, digits and \<open>_\<close> as word characters and
  lower-cases ASCII only, where scikit-learn's pattern is Unicode: a non-ASCII
  word yields no term in the model. The recommender theorems are parametric in
  the analyzer and do not depend on this. Tokens are
  symbolic payloads checked against the key and the expiry in whole seconds;
  password hashes are an injective stand-in with the argon2 scheme prefix.
  The notifier's callers interleave as a list of \<open>hub_ev\<close> events; a
  broadcast needs one send per listener of its snapshot and one to finish,
  which is the number \<open>broadcast_delivers\<close> and \<open>broadcast_terminates\<close> give.
  The fuel of the solo checkout run \<open>co_run\<close> is \<open>2 * length (cart_items d) + 5\<close>:
  one step to start, one per line to validate, one to end validation, one for
  the order commit, one per line to load, one to end loading and one for the
  final commit.

  \<^bold>\<open>Not modelled.\<close> The Jinja2 rendering of the pages; the cryptography of
  argon2 and HS256 (salts, one-wayness, signature forgery); \<open>float()\<close> of
  \<open>inf\<close>, \<open>nan\<close> and hexadecimal or non-ASCII digits, and the csv module's
  field size limit, which the tests and seed data never reach; the transport
  of the web socket (\<open>receive_text\<close> heartbeats are modelled only as the
  moment the client goes away); \<open>database.py\<close>'s engine set-up beyond the
  session per request.
\<close>


section \<open>Properties across components\<close>

text \<open>A fresh user's email names that user after a signup, and the first user
  with the email is the new one.\<close>

lemma signup_user:
  assumes "api_signup d cfg e pw now = (Inr r, d')"
  obtains u where "d' = d\<lparr>users := users d @ [u]\<rparr>" "user_by_email d' e = Some u" "email u = e"
    "hashed_password u = hash_password pw" "user_id u \<notin> set (map user_id (users d))"
proof -
  let ?u = "\<lparr>user_id = next_rowid (map user_id (users d)), email = e,
             hashed_password = hash_password pw, is_admin = False\<rparr>"
  have d': "d' = d\<lparr>users := users d @ [?u]\<rparr>" and "user_by_email d e = None"
    using api_signup_Inr [OF assms] by (simp_all add: Let_def)
  then have "user_by_email d' e = Some ?u" by (simp add: user_by_email_append)
  then show ?thesis by (rule that [of ?u, OF d']) (simp_all add: next_rowid_fresh_image)
qed

lemma current_admin_add_event [simp]:
  "get_current_admin (add_event d u ty p) cfg tok now = get_current_admin d cfg tok now"
  by (rule get_current_admin_users) (simp add: add_event_def)

text \<open>C11: the admin endpoints (the admin page, stock toggle, CSV upload, flags
  and analytics summary) all refuse an authenticated user who is not an admin
  with 403 \<open>Admins only\<close>, and none of them changes the database or the
  notifier.\<close>

theorem admin_endpoints_require_admin:
  assumes "get_current_user d cfg tok now = Inr u" "\<not> is_admin u"
  shows "admin_page d cfg tok now = Inl (HTTPException 403 ''Admins only'') \<and>
         admin_toggle_stock d h cfg tok now pid = (Inl (HTTPException 403 ''Admins only''), d, h) \<and>
         admin_upload d cfg tok now content = (Inl (HTTPException 403 ''Admins only''), d) \<and>
         admin_flags d cfg tok now name en = (Inl (HTTPException 403 ''Admins only''), d) \<and>
         analytics_summary d cfg tok now = Inl (HTTPException 403 ''Admins only'')"
  using admin_requires_admin [OF assms] admin_non_admin [OF assms]
  by (simp add: admin_page_def analytics_summary_def)

text \<open>C13: signing up and then logging in with the same email and password
  succeeds at any later time, and the token login returns authenticates the
  new user while it is valid; any other password is refused.\<close>

theorem signup_then_login:
  assumes "api_signup d cfg e pw now = (Inr r, d')"
    and "now' \<le> t" "t \<le> now' + 60 * token_minutes cfg"
  shows "\<exists>tok u. api_login d' cfg e pw now' = Inr (tok, ''bearer'') \<and>
           get_current_user d' cfg (Some tok) t = Inr u \<and> email u = e \<and> user_by_email d' e = Some u \<and>
           (\<forall>pw'. pw' \<noteq> pw \<longrightarrow> api_login d' cfg e pw' now' = Inl (HTTPException 400 ''Invalid credentials''))"
proof -
  obtain u where d': "d' = d\<lparr>users := users d @ [u]\<rparr>" and e: "user_by_email d' e = Some u" "email u = e"
    and hp: "hashed_password u = hash_password pw" and fresh: "user_id u \<notin> set (map user_id (users d))"
    using signup_user [OF assms(1)] by blast
  let ?tok = "create_access_token cfg (py_str_int (user_id u)) now'"
  have "api_login d' cfg e pw now' = Inr (?tok, ''bearer'')"
    using e hp by (simp add: api_login_def verify_hash)
  moreover have "get_user d' (user_id u) = Some u"
    using get_user_append_fresh [OF fresh] d' by simp
  then have "get_current_user d' cfg (Some ?tok) t = Inr u"
    using current_user_token [OF assms(2,3), of d' "user_id u"] by simp
  moreover have "\<forall>pw'. pw' \<noteq> pw \<longrightarrow> api_login d' cfg e pw' now' = Inl (HTTPException 400 ''Invalid credentials'')"
    using e hp by (simp add: api_login_def verify_hash)
  ultimately show ?thesis using e by blast
qed

text \<open>C22: a tracked event shows in the analytics summary: a \<open>view\<close> adds one
  view, a \<open>purchase\<close> adds one purchase and, for a truthy product id, one
  purchase of that product to the counts the ranking is taken from; the
  tracking endpoint itself needs no authentication.\<close>

theorem track_then_summary:
  assumes "analytics_summary d cfg tok now = Inr s"
    and "track d ty p u = (r, d')"
  shows "r = Inr () \<and>
    (\<exists>s'. analytics_summary d' cfg tok now = Inr s' \<and>
       views s' = views s + (if ty = ''view'' then 1 else 0) \<and>
       purchases s' = purchases s + (if ty = ''purchase'' then 1 else 0) \<and>
       distinct (map fst (top_products s')) \<and>
       top_products s' = most_common 5 (count_ref (purchased_ids
          (filter (\<lambda>e. ev_type e = ''purchase'') (events d)) @
          (if ty = ''purchase'' \<and> p \<noteq> None \<and> p \<noteq> Some 0 then [the p] else []))))"
proof -
  have d': "d' = add_event d u ty p" and r: "r = Inr ()" using assms(2) by (simp_all add: track_def)
  obtain a where "get_current_admin d cfg tok now = Inr a"
    using assms(1) by (cases "get_current_admin d cfg tok now") (simp_all add: analytics_summary_def)
  then have "analytics_summary d' cfg tok now = Inr (summary_spec (events d'))"
    using d' by (simp add: analytics_summary_admin)
  moreover have "s = summary_spec (events d)" by (rule analytics_summary_Inr [OF assms(1)])
  moreover have "distinct (map fst (most_common 5 (count_ref xs)))" for xs
    using most_common_props [of "count_ref xs" 5] count_ref_props [of xs] by blast
  ultimately show ?thesis using r d'
    by (auto simp: summary_spec_def add_event_def purchased_ids_def)
qed


lemma purchase_events:
  assumes "map ev_view new = map (\<lambda>it. (Some u, ''purchase'', Some (ci_product_id it))) its"
  shows "filter (\<lambda>e. ev_type e = ''view'') new = [] \<and>
         filter (\<lambda>e. ev_type e = ''purchase'') new = new \<and> length new = length its"
proof -
  have "map ev_type new = map (\<lambda>_. ''purchase'') its"
    using arg_cong [OF assms, of "map (\<lambda>x. fst (snd x))"] by (simp add: ev_view_def comp_def)
  then have "set (map ev_type new) = set (map (\<lambda>_. ''purchase'') its)" by (rule arg_cong)
  then have "ev_type ` set new \<subseteq> {''purchase''}" by auto
  then have "\<forall>e\<in>set new. ev_type e = ''purchase''" by blast
  moreover have "length new = length its" using arg_cong [OF assms, of length] by simp
  ultimately show ?thesis by (auto simp: filter_empty_conv)
qed

text \<open>C21: a successful checkout shows in the analytics summary: with the same
  admin token the summary still answers, with the same views and one more
  purchase per line of the user's cart.\<close>

theorem checkout_then_summary:
  assumes "analytics_summary d cfg tok now = Inr s" "fst (checkout d u) = Inr r"
  shows "\<exists>c s'. user_cart (snd (checkout d u)) u = Some c \<and>
           analytics_summary (snd (checkout d u)) cfg tok now = Inr s' \<and>
           views s' = views s \<and> purchases s' = purchases s + length (items_of d (cart_id c))"
proof -
  obtain c new where u: "users (snd (checkout d u)) = users d" and c: "user_cart (snd (checkout d u)) u = Some c"
    and e: "events (snd (checkout d u)) = events d @ new"
    and v: "map ev_view new = map (\<lambda>it. (Some u, ''purchase'', Some (ci_product_id it))) (items_of d (cart_id c))"
    using checkout_events [OF assms(2)] by blast
  obtain a where "get_current_admin d cfg tok now = Inr a"
    using assms(1) by (cases "get_current_admin d cfg tok now") (simp_all add: analytics_summary_def)
  then have "analytics_summary (snd (checkout d u)) cfg tok now = Inr (summary_spec (events d @ new))"
    using get_current_admin_users [OF u] e by (simp add: analytics_summary_admin)
  moreover have "s = summary_spec (events d)" by (rule analytics_summary_Inr [OF assms(1)])
  ultimately show ?thesis using c purchase_events [OF v] by (simp add: summary_spec_def)
qed

subsection \<open>Witnesses\<close>

theorem admin_endpoints_require_admin_witness:
  "get_current_user shop_db default_settings (Some bob_tok) 5 = Inr bob \<and> \<not> is_admin bob \<and>
   admin_page shop_db default_settings (Some bob_tok) 5 = Inl (HTTPException 403 ''Admins only'') \<and>
   admin_toggle_stock shop_db hub0 default_settings (Some bob_tok) 5 1 =
     (Inl (HTTPException 403 ''Admins only''), shop_db, hub0) \<and>
   admin_upload shop_db default_settings (Some bob_tok) 5 (csv_text upload_rows) =
     (Inl (HTTPException 403 ''Admins only''), shop_db) \<and>
   admin_flags shop_db default_settings (Some bob_tok) 5 ''experiments'' True =
     (Inl (HTTPException 403 ''Admins only''), shop_db) \<and>
   analytics_summary shop_db default_settings (Some bob_tok) 5 = Inl (HTTPException 403 ''Admins only'')"
proof -
  have h: "\<not> is_admin bob" by (simp add: bob_def)
  show ?thesis using admin_endpoints_require_admin [OF current_bob_tok h] current_bob_tok h by blast
qed

theorem signup_then_login_witness:
  "api_signup shop_db default_settings ''carol@shop.io'' ''pw3'' 0 =
     (Inr (create_access_token default_settings (py_str_int 3) 0, ''bearer''), signed_up) \<and>
   (100::int) \<le> 200 \<and> 200 \<le> 100 + 60 * token_minutes default_settings \<and>
   (\<exists>tok u. api_login signed_up default_settings ''carol@shop.io'' ''pw3'' 100 = Inr (tok, ''bearer'') \<and>
      get_current_user signed_up default_settings (Some tok) 200 = Inr u \<and> email u = ''carol@shop.io'' \<and>
      user_by_email signed_up ''carol@shop.io'' = Some u \<and>
      api_login signed_up default_settings ''carol@shop.io'' ''pw4'' 100 = Inl (HTTPException 400 ''Invalid credentials''))"
proof -
  have t: "(100::int) \<le> 200" "200 \<le> 100 + 60 * token_minutes default_settings"
    by (simp_all add: default_settings_def)
  show ?thesis using signup_then_login [OF signup_carol t] signup_carol t by auto
qed

theorem track_then_summary_witness:
  "analytics_summary shop_db default_settings (Some admin_tok) 5 =
     Inr \<lparr>views = 1, purchases = 5, top_products = [(1, 2), (2, 1)]\<rparr> \<and>
   track shop_db ''view'' (Some 2) None = (Inr (), add_event shop_db None ''view'' (Some 2)) \<and>
   (\<exists>s'. analytics_summary (add_event shop_db None ''view'' (Some 2)) default_settings (Some admin_tok) 5 = Inr s' \<and>
      views s' = 2 \<and> purchases s' = 5)"
proof -
  have tr: "track shop_db ''view'' (Some 2) None = (Inr (), add_event shop_db None ''view'' (Some 2))"
    by (simp add: track_def)
  show ?thesis using track_then_summary [OF summary_shop tr] summary_shop tr by auto
qed


theorem checkout_then_summary_witness:
  "analytics_summary cart_shop default_settings (Some admin_tok) 5 =
     Inr \<lparr>views = 1, purchases = 5, top_products = [(1, 2), (2, 1)]\<rparr> \<and>
   fst (checkout cart_shop 2) = Inr (1, 20) \<and>
   (\<exists>c s'. user_cart (snd (checkout cart_shop 2)) 2 = Some c \<and>
      analytics_summary (snd (checkout cart_shop 2)) default_settings (Some admin_tok) 5 = Inr s' \<and>
      views s' = 1 \<and> purchases s' = 5 + length (items_of cart_shop (cart_id c)))"
  using checkout_then_summary [OF summary_cart_shop checkout_cart_shop] summary_cart_shop checkout_cart_shop
  by simp

end
